(* ===== verification/PyDict.thy ===== *)
theory PyDict
  imports PyPrelude "HOL-Library.AList"
begin

text \<open>
  Python dictionaries. A \<open>dict\<close> iterates in insertion order and its keys are distinct, so
  it is an association list: assigning to a key that is present keeps its place,
  assigning to a new key appends, and deleting a key and assigning it again moves it to the end. The
  operations are those of \<open>HOL-Library.AList\<close>; the interface \<open>dict_ops\<close> states what a
  client may rely on, and what follows for a client that updates one dictionary from
  another.
\<close>

type_synonym ('k, 'v) dict = "('k \<times> 'v) list"

definition dget :: "('k, 'v) dict \<Rightarrow> 'k \<Rightarrow> 'v option" where
  "dget d k = map_of d k"

definition dset :: "('k, 'v) dict \<Rightarrow> 'k \<Rightarrow> 'v \<Rightarrow> ('k, 'v) dict" where
  "dset d k v = AList.update k v d"

definition ddel :: "('k, 'v) dict \<Rightarrow> 'k \<Rightarrow> ('k, 'v) dict" where
  "ddel d k = AList.delete k d"

definition dkeys :: "('k, 'v) dict \<Rightarrow> 'k list" where
  "dkeys d = map fst d"

definition dict_ok :: "('k, 'v) dict \<Rightarrow> bool" where
  "dict_ok d \<longleftrightarrow> distinct (map fst d)"

text \<open>\<open>d.update(e)\<close>: the items of \<open>e\<close> are assigned to \<open>d\<close>, in order.\<close>

definition dupdate :: "('k, 'v) dict \<Rightarrow> ('k, 'v) dict \<Rightarrow> ('k, 'v) dict" where
  "dupdate d e = fold (\<lambda>(k, v) m. dset m k v) e d"

text \<open>\<open>d[k]\<close> and \<open>d.get(k, default)\<close>.\<close>

definition ditem :: "(string, 'v) dict \<Rightarrow> string \<Rightarrow> 'v res" where
  "ditem d k = (case dget d k of None \<Rightarrow> Inl (KeyError k) | Some v \<Rightarrow> Inr v)"

definition dget_or :: "('k, 'v) dict \<Rightarrow> 'k \<Rightarrow> 'v \<Rightarrow> 'v" where
  "dget_or d k v0 = (case dget d k of None \<Rightarrow> v0 | Some v \<Rightarrow> v)"

section \<open>The dictionary interface\<close>

locale dict_ops =
  fixes get :: "'d \<Rightarrow> 'k \<Rightarrow> 'v option"
    and put :: "'d \<Rightarrow> 'k \<Rightarrow> 'v \<Rightarrow> 'd"
    and del :: "'d \<Rightarrow> 'k \<Rightarrow> 'd"
    and keys :: "'d \<Rightarrow> 'k list"
    and ok :: "'d \<Rightarrow> bool"
  assumes get_put: "get (put d k v) k' = (if k' = k then Some v else get d k')"
    and get_del: "get (del d k) k' = (if k' = k then None else get d k')"
    and keys_get: "k \<in> set (keys d) \<longleftrightarrow> get d k \<noteq> None"
    and ok_put: "ok d \<Longrightarrow> ok (put d k v)"
    and ok_del: "ok d \<Longrightarrow> ok (del d k)"
    and ok_keys: "ok d \<Longrightarrow> distinct (keys d)"
begin

text \<open>Updating from a list of items: the last item with the key wins, other keys stay.\<close>

lemma get_put_all:
  "get (fold (\<lambda>(k, v) m. put m k v) es d) k =
     (case map_of (rev es) k of None \<Rightarrow> get d k | Some v \<Rightarrow> Some v)"
  by (induction es arbitrary: d) (auto simp: get_put map_of_append map_add_def split: option.splits)

lemma ok_put_all: "ok d \<Longrightarrow> ok (fold (\<lambda>(k, v) m. put m k v) es d)"
  by (induction es arbitrary: d) (auto simp: ok_put)

lemma set_keys_put: "set (keys (put d k v)) = insert k (set (keys d))"
  by (auto simp: keys_get get_put split: if_splits)

lemma set_keys_del: "set (keys (del d k)) = set (keys d) - {k}"
  by (auto simp: keys_get get_del split: if_splits)

lemma set_keys_put_all: "set (keys (fold (\<lambda>(k, v) m. put m k v) es d)) = fst ` set es \<union> set (keys d)"
  by (induction es arbitrary: d) (auto simp: set_keys_put)

text \<open>A key popped and, on a condition, written back with a fixed value.\<close>

lemma get_reset:
  "get (if b then put (del d k) k v else del d k) k' =
     (if k' = k then (if b then Some v else None) else get d k')"
  by (simp add: get_put get_del)

lemma ok_reset: "ok d \<Longrightarrow> ok (if b then put (del d k) k v else del d k)"
  by (simp add: ok_put ok_del)

end

interpretation pd: dict_ops dget dset ddel dkeys dict_ok
proof unfold_locales
  show "dget (dset d k v) k' = (if k' = k then Some v else dget d k')" for d :: "('a, 'b) dict" and k v k'
    by (simp add: dget_def dset_def update_conv')
  show "dget (ddel d k) k' = (if k' = k then None else dget d k')" for d :: "('a, 'b) dict" and k k'
    by (simp add: dget_def ddel_def delete_conv')
  show "k \<in> set (dkeys d) \<longleftrightarrow> dget d k \<noteq> None" for d :: "('a, 'b) dict" and k
    by (simp add: dkeys_def dget_def map_of_eq_None_iff)
  show "dict_ok d \<Longrightarrow> dict_ok (dset d k v)" for d :: "('a, 'b) dict" and k v
    by (simp add: dict_ok_def dset_def distinct_update)
  show "dict_ok d \<Longrightarrow> dict_ok (ddel d k)" for d :: "('a, 'b) dict" and k
    by (simp add: dict_ok_def ddel_def distinct_delete)
  show "dict_ok d \<Longrightarrow> distinct (dkeys d)" for d :: "('a, 'b) dict"
    by (simp add: dict_ok_def dkeys_def)
qed

section \<open>Facts about the dictionaries\<close>

named_theorems dict_simps "lookup after an operation"

lemmas [dict_simps] = pd.get_put pd.get_del pd.set_keys_put pd.set_keys_del

lemma dget_dupdate [dict_simps]:
  "dget (dupdate d e) k = (case map_of (rev e) k of None \<Rightarrow> dget d k | Some v \<Rightarrow> Some v)"
  by (simp add: dupdate_def pd.get_put_all)

lemma map_of_rev_ok: "dict_ok e \<Longrightarrow> map_of (rev e) k = map_of e k"
  unfolding dict_ok_def
proof (induction e)
  case (Cons kv e)
  then have "map_of e (fst kv) = None"
    by (simp add: map_of_eq_None_iff)
  with Cons show ?case
    by (cases kv) (auto simp: map_of_append map_add_def split: option.splits)
qed simp

lemma dget_dupdate_ok:
  "dict_ok e \<Longrightarrow> dget (dupdate d e) k = (case dget e k of None \<Rightarrow> dget d k | Some v \<Rightarrow> Some v)"
  by (simp add: dget_dupdate map_of_rev_ok) (simp add: dget_def)

lemma dict_ok_dupdate: "dict_ok d \<Longrightarrow> dict_ok (dupdate d e)"
  by (simp add: dupdate_def pd.ok_put_all)

lemma dget_Nil [simp]: "dget [] k = None"
  by (simp add: dget_def)

lemma dget_Cons [simp]: "dget ((k', v) # d) k = (if k = k' then Some v else dget d k)"
  by (simp add: dget_def)

lemma dget_Some_in: "dget d k = Some v \<Longrightarrow> (k, v) \<in> set d"
  by (simp add: dget_def map_of_SomeD)

lemma dget_in_ok: "dict_ok d \<Longrightarrow> (k, v) \<in> set d \<Longrightarrow> dget d k = Some v"
  by (simp add: dget_def dict_ok_def)

lemma dget_eq_None: "dget d k = None \<longleftrightarrow> k \<notin> fst ` set d"
  by (simp add: dget_def map_of_eq_None_iff)

lemma ditem_Inr: "ditem d k = Inr v \<longleftrightarrow> dget d k = Some v"
  by (simp add: ditem_def split: option.splits)

lemma ditem_Inl: "ditem d k = Inl e \<longleftrightarrow> dget d k = None \<and> e = KeyError k"
  by (auto simp: ditem_def split: option.splits)

lemma dict_ok_Cons [simp]: "dict_ok ((k, v) # d) \<longleftrightarrow> dget d k = None \<and> dict_ok d"
  by (simp add: dict_ok_def dget_eq_None)

lemma dict_ok_Nil [simp]: "dict_ok []"
  by (simp add: dict_ok_def)

lemma dset_new: "dget d k = None \<Longrightarrow> dset d k v = d @ [(k, v)]"
  by (simp add: dset_def dget_eq_None update_nonempty) (induction d; auto)

end
