(* ===== verification/PyJson.thy ===== *)
theory PyJson
  imports PyDict Complex_Main
begin

text \<open>
  The values that \<open>json.loads\<close> returns, with Python's truth value, its equality and the
  methods the code calls on them. A number with a fraction is a rational: the finite
  double it denotes, exactly. Python compares \<open>True\<close> with \<open>1\<close> and with \<open>1.0\<close> as equal, and
  two dictionaries as equal when they hold the same items in any order.
\<close>

datatype json =
    JNull
  | JBool bool
  | JInt int
  | JFloat rat
  | JStr string
  | JList "json list"
  | JObj "(string \<times> json) list"

fun truthy :: "json \<Rightarrow> bool" where
  "truthy JNull = False"
| "truthy (JBool b) = b"
| "truthy (JInt i) = (i \<noteq> 0)"
| "truthy (JFloat r) = (r \<noteq> 0)"
| "truthy (JStr s) = (s \<noteq> [])"
| "truthy (JList xs) = (xs \<noteq> [])"
| "truthy (JObj d) = (d \<noteq> [])"

fun as_num :: "json \<Rightarrow> rat option" where
  "as_num (JBool b) = Some (if b then 1 else 0)"
| "as_num (JInt i) = Some (of_int i)"
| "as_num (JFloat r) = Some r"
| "as_num _ = None"

fun py_eq :: "json \<Rightarrow> json \<Rightarrow> bool" where
  "py_eq JNull w = (w = JNull)"
| "py_eq (JStr s) w = (w = JStr s)"
| "py_eq (JList xs) w = (case w of JList ys \<Rightarrow> list_all2 py_eq xs ys | _ \<Rightarrow> False)"
| "py_eq (JObj d) w =
     (case w of
        JObj e \<Rightarrow> length d = length e \<and>
          list_all (\<lambda>kv. case dget e (fst kv) of None \<Rightarrow> False | Some y \<Rightarrow> py_eq (snd kv) y) d
      | _ \<Rightarrow> False)"
| "py_eq v w = (as_num v = as_num w)"

text \<open>Every dictionary inside the value has distinct keys, as in Python.\<close>

fun json_ok :: "json \<Rightarrow> bool" where
  "json_ok (JList xs) = list_all json_ok xs"
| "json_ok (JObj d) = (dict_ok d \<and> list_all (\<lambda>kv. json_ok (snd kv)) d)"
| "json_ok _ = True"

section \<open>Methods\<close>

definition is_obj :: "json \<Rightarrow> bool" where
  "is_obj v = (case v of JObj _ \<Rightarrow> True | _ \<Rightarrow> False)"

text \<open>\<open>v.get(k, default)\<close> and \<open>v.items()\<close>: only dictionaries have them.\<close>

definition py_get :: "json \<Rightarrow> string \<Rightarrow> json \<Rightarrow> json res" where
  "py_get v k v0 =
     (case v of JObj d \<Rightarrow> Inr (dget_or d k v0) | _ \<Rightarrow> Inl (AttributeError ''get''))"

definition py_items :: "json \<Rightarrow> (string \<times> json) list res" where
  "py_items v = (case v of JObj d \<Rightarrow> Inr d | _ \<Rightarrow> Inl (AttributeError ''items''))"

definition py_values :: "json \<Rightarrow> json list res" where
  "py_values v = (case v of JObj d \<Rightarrow> Inr (map snd d) | _ \<Rightarrow> Inl (AttributeError ''values''))"

text \<open>\<open>for x in v\<close>: the elements, the keys or the characters.\<close>

definition py_iter :: "json \<Rightarrow> json list res" where
  "py_iter v =
     (case v of
        JList xs \<Rightarrow> Inr xs
      | JObj d \<Rightarrow> Inr (map (\<lambda>kv. JStr (fst kv)) d)
      | JStr s \<Rightarrow> Inr (map (\<lambda>c. JStr [c]) s)
      | _ \<Rightarrow> Inl (TypeError ''not iterable''))"

text \<open>\<open>v[k]\<close> with a string \<open>k\<close>: lists, strings and the scalars raise \<open>TypeError\<close>.\<close>

definition py_item :: "json \<Rightarrow> string \<Rightarrow> json res" where
  "py_item v k = (case v of JObj d \<Rightarrow> ditem d k | _ \<Rightarrow> Inl (TypeError k))"

text \<open>\<open>s in v\<close> with a string \<open>s\<close>: an element, a key or a substring.\<close>

fun is_prefix :: "string \<Rightarrow> string \<Rightarrow> bool" where
  "is_prefix [] t = True"
| "is_prefix (c # s) [] = False"
| "is_prefix (c # s) (c' # t) = (c = c' \<and> is_prefix s t)"

fun is_substring :: "string \<Rightarrow> string \<Rightarrow> bool" where
  "is_substring s [] = (s = [])"
| "is_substring s (c # t) = (is_prefix s (c # t) \<or> is_substring s t)"

definition py_in :: "string \<Rightarrow> json \<Rightarrow> bool res" where
  "py_in s v =
     (case v of
        JList xs \<Rightarrow> Inr (JStr s \<in> set xs)
      | JObj d \<Rightarrow> Inr (dget d s \<noteq> None)
      | JStr t \<Rightarrow> Inr (is_substring s t)
      | _ \<Rightarrow> Inl (TypeError ''not iterable''))"

text \<open>\<open>v.pop(k, None)\<close> on a dictionary; lists take one argument, the rest have no \<open>pop\<close>.\<close>

definition py_pop :: "json \<Rightarrow> string \<Rightarrow> (json \<times> json) res" where
  "py_pop v k =
     (case v of
        JObj d \<Rightarrow> Inr (dget_or d k JNull, JObj (ddel d k))
      | JList _ \<Rightarrow> Inl (TypeError ''pop'')
      | _ \<Rightarrow> Inl (AttributeError ''pop''))"

text \<open>Lists and dictionaries are not hashable: using one as a key raises \<open>TypeError\<close>.\<close>

definition hashable :: "json \<Rightarrow> bool" where
  "hashable v = (case v of JList _ \<Rightarrow> False | JObj _ \<Rightarrow> False | _ \<Rightarrow> True)"

section \<open>Facts\<close>

lemma is_obj_iff: "is_obj v \<longleftrightarrow> (\<exists>d. v = JObj d)"
  by (simp add: is_obj_def split: json.splits)

lemma py_get_Inr: "py_get v k v0 = Inr x \<longleftrightarrow> (\<exists>d. v = JObj d \<and> x = dget_or d k v0)"
  by (auto simp: py_get_def split: json.splits)

lemma py_items_Inr: "py_items v = Inr d \<longleftrightarrow> v = JObj d"
  by (auto simp: py_items_def split: json.splits)

lemma py_items_JObj [simp]: "py_items (JObj d) = Inr d"
  by (simp add: py_items_def)

lemma py_item_Inr: "py_item v k = Inr x \<longleftrightarrow> (\<exists>d. v = JObj d \<and> dget d k = Some x)"
  by (auto simp: py_item_def ditem_Inr split: json.splits)

lemma py_eq_refl: "json_ok v \<Longrightarrow> py_eq v v"
proof (induction v)
  case (JList xs)
  then show ?case by (auto simp: list_all_iff list_all2_same)
next
  case (JObj d)
  have "py_eq (snd kv) (snd kv) \<and> dget d (fst kv) = Some (snd kv)" if "kv \<in> set d" for kv
  proof -
    have "snd kv \<in> Basic_BNFs.snds kv" by (cases kv) simp
    with JObj that show ?thesis
      by (cases kv) (auto simp: list_all_iff intro: dget_in_ok)
  qed
  then show ?case by (auto simp: list_all_iff)
qed auto

lemma py_eq_JStr [simp]: "py_eq v (JStr s) \<longleftrightarrow> v = JStr s"
  by (cases v) auto

lemma py_eq_JNull [simp]: "py_eq v JNull \<longleftrightarrow> v = JNull"
  by (cases v) auto

lemma py_eq_truthy: "py_eq v w \<Longrightarrow> truthy v = truthy w"
  by (cases v; cases w) (auto split: if_splits simp: of_int_eq_0_iff dest: list_all2_lengthD)

end
