(* ===== verification/Http.thy ===== *)
theory Http
  imports PyJson
begin

text \<open>
  The HTTP sessions the migration scripts open. A session is the record of what the
  script configures: the host and the port of the base URL, the path of the API below
  it, the credentials and whether the server's certificate is verified. The network and
  the service behind it are parameters of the model: a function from the session and the path to the response of a
  \<open>GET\<close>, or to the exception of the \<open>requests\<close> library. A response has its status code,
  its \<open>ok\<close> flag and the outcome of \<open>json()\<close>; \<open>raise_for_status()\<close> raises an
  \<open>HTTPError\<close> when the response is not ok.
\<close>

datatype credentials = ClientCert json json | BasicAuth json json

record session =
  s_host :: json
  s_port :: json
  s_api :: string
  s_auth :: credentials
  s_verify :: bool

record response =
  status_code :: int
  resp_ok :: bool
  resp_json :: "json res"

type_synonym network = "session \<Rightarrow> string \<Rightarrow> response res"

definition raise_for_status :: "response \<Rightarrow> unit res" where
  "raise_for_status r = rguard (resp_ok r) (HTTPError ''status'')"

text \<open>\<open>session.get(url).json()\<close>\<close>

definition get_json :: "network \<Rightarrow> session \<Rightarrow> string \<Rightarrow> json res" where
  "get_json net s path = rbind (net s path) resp_json"

text \<open>The connection test of the constructors: \<open>GET\<close> of the base URL.\<close>

definition test_connection :: "network \<Rightarrow> session \<Rightarrow> session res" where
  "test_connection net s =
     rbind (net s []) (\<lambda>r. rbind (raise_for_status r) (\<lambda>_. Inr s))"

lemma test_connection_Inr:
  "test_connection net s = Inr s' \<longleftrightarrow> s' = s \<and> (\<exists>r. net s [] = Inr r \<and> resp_ok r)"
  by (auto simp: test_connection_def raise_for_status_def res_simps)

lemma test_connection_HTTPError:
  "net s [] = Inr r \<Longrightarrow> \<not> resp_ok r \<Longrightarrow> test_connection net s = Inl (HTTPError ''status'')"
  by (simp add: test_connection_def raise_for_status_def)

end
