(* ===== verification/Base64.thy ===== *)
theory Base64
  imports PyPrelude "HOL-Library.Word"
begin

text \<open>
  The part of Python's \<open>base64\<close> that the code uses: \<open>b64encode\<close> and the lenient
  \<open>b64decode\<close>, which skips characters outside the alphabet, stops at a complete pad
  sequence and raises \<open>binascii.Error\<close> (a \<open>ValueError\<close>) when the data ends inside a
  group of four. Bytes are 8-bit words.
\<close>

type_synonym byte = "8 word"

section \<open>The alphabet\<close>

definition b64_char :: "nat \<Rightarrow> char" where
  "b64_char n =
     (if n < 26 then char_of (n + 65) else if n < 52 then char_of (n + 71)
      else if n < 62 then char_of (n - 4) else if n = 62 then CHR ''+'' else CHR ''/'')"

definition b64_value :: "char \<Rightarrow> nat option" where
  "b64_value c =
     (let n = (of_char c :: nat)
      in if 65 \<le> n \<and> n < 91 then Some (n - 65)
         else if 97 \<le> n \<and> n < 123 then Some (n - 71)
         else if 48 \<le> n \<and> n < 58 then Some (n + 4)
         else if n = 43 then Some 62 else if n = 47 then Some 63 else None)"

lemma of_char_b64_char:
  "n < 64 \<Longrightarrow> of_char (b64_char n) =
     (if n < 26 then n + 65 else if n < 52 then n + 71 else if n < 62 then n - 4
      else if n = 62 then 43 else 47)"
  by (simp add: b64_char_def of_char_of)

lemma b64_value_char [simp]: "n < 64 \<Longrightarrow> b64_value (b64_char n) = Some n"
  by (simp add: b64_value_def of_char_b64_char Let_def) arith

lemma b64_char_ascii: "n < 64 \<Longrightarrow> of_char (b64_char n) < (128 :: nat)"
  by (auto simp: of_char_b64_char)

lemma b64_char_no_pad [simp]: "n < 64 \<Longrightarrow> b64_char n \<noteq> CHR ''=''"
proof
  assume "n < 64" "b64_char n = CHR ''=''"
  then have "of_char (b64_char n) = (61 :: nat)" by simp
  with \<open>n < 64\<close> show False by (simp add: of_char_b64_char split: if_splits)
qed

section \<open>Encoding and decoding\<close>

fun b64encode :: "byte list \<Rightarrow> string" where
  "b64encode [] = []"
| "b64encode [a] =
     [b64_char (unat a div 4), b64_char (unat a mod 4 * 16), CHR ''='', CHR ''='']"
| "b64encode [a, b] =
     [b64_char (unat a div 4), b64_char (unat a mod 4 * 16 + unat b div 16),
      b64_char (unat b mod 16 * 4), CHR ''='']"
| "b64encode (a # b # c # bs) =
     b64_char (unat a div 4) # b64_char (unat a mod 4 * 16 + unat b div 16) #
     b64_char (unat b mod 16 * 4 + unat c div 64) # b64_char (unat c mod 64) # b64encode bs"

text \<open>
  The decoder reads one character at a time: \<open>q\<close> counts the data characters of the
  group of four read so far, \<open>l\<close> holds the bits of the last one not written yet and
  \<open>p\<close> the pad characters in a row.
\<close>

fun b64_loop :: "nat \<Rightarrow> nat \<Rightarrow> nat \<Rightarrow> string \<Rightarrow> byte list \<Rightarrow> byte list res" where
  "b64_loop q l p [] out = (if q = 0 then Inr out else Inl (ValueError ''binascii.Error''))"
| "b64_loop q l p (c # cs) out =
     (if c = CHR ''=''
      then (if 2 \<le> q \<and> 4 \<le> q + Suc p then Inr out else b64_loop q l (Suc p) cs out)
      else case b64_value c of
        None \<Rightarrow> b64_loop q l p cs out
      | Some v \<Rightarrow>
          (if q = 0 then b64_loop 1 v 0 cs out
           else if q = 1 then b64_loop 2 (v mod 16) 0 cs (out @ [word_of_nat (l * 4 + v div 16)])
           else if q = 2 then b64_loop 3 (v mod 4) 0 cs (out @ [word_of_nat (l * 16 + v div 4)])
           else b64_loop 0 0 0 cs (out @ [word_of_nat (l * 64 + v)])))"

definition b64decode :: "string \<Rightarrow> byte list res" where
  "b64decode s =
     (if list_ex (\<lambda>c. 128 \<le> (of_char c :: nat)) s then Inl (ValueError ''non-ASCII'')
      else b64_loop 0 0 0 s [])"

section \<open>Round trip\<close>

lemma byte_less: "unat (a :: byte) < 256"
proof -
  have "unat a < 2 ^ LENGTH(8)" by (rule unsigned_less)
  then show ?thesis by simp
qed

lemma byte_of_unat: "word_of_nat (unat a) = (a :: byte)"
  by simp

lemma byte_parts [simp]: "unat (a :: byte) div 4 < 64" "unat a div 16 < 16" "unat a div 64 < 4"
  using byte_less [of a] by (auto simp: div_less_iff_less_mult)

lemma nat_join: "x < k \<Longrightarrow> (m * k + x) div k = m" "x < k \<Longrightarrow> (m * k + x) mod k = x" for k m x :: nat
  by simp_all

lemma join_less: "y < m \<Longrightarrow> x < k \<Longrightarrow> y * k + x < m * k" for x y k m :: nat
proof -
  assume "y < m" "x < k"
  then have "y * k + x < (y + 1) * k" by simp
  also have "\<dots> \<le> m * k" using \<open>y < m\<close> by (intro mult_le_mono1) simp
  finally show ?thesis .
qed

lemma b64_byte1: "word_of_nat (unat a div 4 * 4 + (unat a mod 4 * 16 + x) div 16) = (a :: byte)"
  if "x < 16"
  using that by (simp only: nat_join div_mult_mod_eq byte_of_unat)

lemma b64_byte2:
  "word_of_nat ((unat a mod 4 * 16 + unat b div 16) mod 16 * 16 + (unat b mod 16 * 4 + x) div 4) = (b :: byte)"
  if "x < 4" for a :: byte
  using that by (simp only: nat_join byte_parts div_mult_mod_eq byte_of_unat)

lemma b64_byte3:
  "word_of_nat ((unat b mod 16 * 4 + unat c div 64) mod 4 * 64 + unat c mod 64) = (c :: byte)"
  for b :: byte
  by (simp only: nat_join byte_parts div_mult_mod_eq byte_of_unat)

lemma b64_sextets [simp]:
  fixes a b c :: byte
  shows "unat a mod 4 * 16 < 64" "unat a mod 4 * 16 + unat b div 16 < 64"
    "unat b mod 16 * 4 < 64" "unat b mod 16 * 4 + unat c div 64 < 64" "unat c mod 64 < 64"
  using join_less [of "unat a mod 4" 4 "unat b div 16" 16] join_less [of "unat a mod 4" 4 0 16]
    join_less [of "unat b mod 16" 16 "unat c div 64" 4] join_less [of "unat b mod 16" 16 0 4]
  by simp_all

declare b64encode.simps [simp del]

lemma b64_loop_data:
  assumes "v < 64"
  shows "b64_loop 0 l p (b64_char v # cs) out = b64_loop 1 v 0 cs out"
    and "b64_loop 1 l p (b64_char v # cs) out =
      b64_loop 2 (v mod 16) 0 cs (out @ [word_of_nat (l * 4 + v div 16)])"
    and "b64_loop 2 l p (b64_char v # cs) out =
      b64_loop 3 (v mod 4) 0 cs (out @ [word_of_nat (l * 16 + v div 4)])"
    and "b64_loop 3 l p (b64_char v # cs) out =
      b64_loop 0 0 0 cs (out @ [word_of_nat (l * 64 + v)])"
  using assms by (simp_all del: of_nat_add of_nat_mult)

lemma b64_loop_pad:
  "b64_loop 2 l 0 [CHR ''='', CHR ''=''] out = Inr out"
  "b64_loop 3 l 0 [CHR ''=''] out = Inr out"
  by simp_all

lemma b64_loop_encode: "b64_loop 0 l p (b64encode bs) out = Inr (out @ bs)"
proof (induction bs arbitrary: l p out rule: b64encode.induct)
  case 1
  show ?case by (simp add: b64encode.simps)
next
  case (2 a)
  show ?case using b64_byte1 [of 0 a]
    by (simp only: b64encode.simps b64_loop_data b64_loop_pad byte_parts b64_sextets append_assoc append.simps)
       (simp add: b64_loop_pad)
next
  case (3 a b)
  show ?case
    by (simp only: b64encode.simps b64_loop_data b64_loop_pad byte_parts b64_sextets)
       (use b64_byte1 [of "unat b div 16" a] b64_byte2 [of 0 a b] in simp)
next
  case (4 a b c bs)
  show ?case
    by (simp only: b64encode.simps b64_loop_data byte_parts b64_sextets "4.IH")
       (use b64_byte1 [of "unat b div 16" a] b64_byte2 [of "unat c div 64" a b] b64_byte3 [of b c] in simp)
qed

lemma b64encode_ascii: "c \<in> set (b64encode bs) \<Longrightarrow> (of_char c :: nat) < 128"
  by (induction bs rule: b64encode.induct) (auto simp: b64encode.simps b64_char_ascii)

lemma b64decode_encode: "b64decode (b64encode bs) = Inr bs"
  using b64encode_ascii [of _ bs] by (fastforce simp: b64decode_def b64_loop_encode list_ex_iff)

lemma length_b64encode: "length (b64encode bs) = 4 * ((length bs + 2) div 3)"
proof (induction bs rule: b64encode.induct)
  case (4 a b c bs)
  have "(length (a # b # c # bs) + 2) div 3 = Suc ((length bs + 2) div 3)"
    using div_add_self2 [of 3 "length bs + 2"] by simp
  with 4 show ?case by (simp add: b64encode.simps)
qed (simp_all add: b64encode.simps)

end
