(* ===== verification/SecurityMigration.thy ===== *)
theory SecurityMigration
  imports Http Base64
begin

text \<open>
  The analysis and the planning of
  \<open>avn-migrate-os-security-config.py\<close> (\<open>solutions/migrate-opendistro-security-to-aiven-for-opensearch\<close>):
  the two security clients, the comparison of the configurations section by section, and
  the patch actions for the entries to add and to update. A configuration section is the
  JSON object the service returned. Python sets are sets; the order in which Python
  iterates over a set is the parameter \<open>enum\<close>, of which only \<open>set_order\<close> is assumed.
\<close>

definition SECURITY_CONFIG_SECTIONS :: "string list" where
  "SECURITY_CONFIG_SECTIONS =
     [''roles'', ''rolesmapping'', ''actiongroups'', ''tenants'', ''internalusers'']"

definition AIVEN_SECURITY_MANAGER :: string where
  "AIVEN_SECURITY_MANAGER = ''os-sec-admin''"

section \<open>The two clients\<close>

definition OpendistroSecurity_init :: "network \<Rightarrow> json \<Rightarrow> json \<Rightarrow> json \<Rightarrow> json \<Rightarrow> session res" where
  "OpendistroSecurity_init net host port clientCrt clientKey =
     test_connection net
       \<lparr>s_host = host, s_port = port, s_api = ''/.opendistro_security/_doc'',
        s_auth = ClientCert clientCrt clientKey, s_verify = False\<rparr>"

text \<open>
  \<open>json.loads(base64.b64decode(v).decode("utf-8"))\<close>: the last two steps, from the decoded
  bytes to the JSON value, are the parameter \<open>loads\<close>.
\<close>

definition decode_document :: "(byte list \<Rightarrow> json res) \<Rightarrow> json \<Rightarrow> json res" where
  "decode_document loads v =
     (case v of JStr s \<Rightarrow> rbind (b64decode s) loads | _ \<Rightarrow> Inl (TypeError ''b64decode''))"

definition check_meta :: "string \<Rightarrow> json \<Rightarrow> unit res" where
  "check_meta entry meta =
     (if meta = JNull then Inl (ValueError ''Missing _meta'')
      else rbind (py_get meta ''config_version'' (JInt 0)) (\<lambda>v.
        if \<not> py_eq v (JInt 2) then Inl (ValueError ''Unsupported config_version'')
        else rbind (py_get meta ''type'' (JStr [])) (\<lambda>t.
          if \<not> py_eq t (JStr entry) then Inl (ValueError ''Invalid type in _meta'')
          else Inr ())))"

definition opendistro_get ::
  "(byte list \<Rightarrow> json res) \<Rightarrow> network \<Rightarrow> session \<Rightarrow> string \<Rightarrow> json res" where
  "opendistro_get loads net s entry =
     rbind (get_json net s (s_api s @ ''/'' @ entry)) (\<lambda>d.
     rbind (py_get d ''_id'' JNull) (\<lambda>i.
       if py_eq i (JStr entry) then
         rbind (py_get d ''_source'' (JObj [])) (\<lambda>src.
         rbind (py_get src entry (JStr [])) (\<lambda>doc.
         rbind (decode_document loads doc) (\<lambda>content.
         rbind (py_pop content ''_meta'') (\<lambda>(meta, content').
         rbind (check_meta entry meta) (\<lambda>_. Inr content')))))
       else Inr (JObj [])))"

definition AivenForOpensearchSecurity_init :: "network \<Rightarrow> json \<Rightarrow> json \<Rightarrow> json \<Rightarrow> session res" where
  "AivenForOpensearchSecurity_init net host port password =
     test_connection net
       \<lparr>s_host = host, s_port = port, s_api = ''/_plugins/_security/api'',
        s_auth = BasicAuth (JStr AIVEN_SECURITY_MANAGER) password, s_verify = False\<rparr>"

definition aiven_get :: "network \<Rightarrow> session \<Rightarrow> string \<Rightarrow> json res" where
  "aiven_get net s entry = get_json net s (s_api s @ ''/'' @ entry)"

section \<open>What to migrate\<close>

definition py_keys :: "json \<Rightarrow> string list res" where
  "py_keys v = (case v of JObj d \<Rightarrow> Inr (dkeys d) | _ \<Rightarrow> Inl (AttributeError ''keys''))"

text \<open>\<open>any(v.get(field, False) for field in fields)\<close>\<close>

definition any_field :: "string list \<Rightarrow> json \<Rightarrow> bool res" where
  "any_field names v =
     rbind (rmap (\<lambda>field. py_get v field (JBool False)) names) (\<lambda>xs. Inr (list_ex truthy xs))"

definition untouchable_if_field_set ::
  "json \<Rightarrow> string list \<Rightarrow> (string set \<times> string set) res" where
  "untouchable_if_field_set entries names =
     rbind (py_keys entries) (\<lambda>ks.
     rbind (py_items entries) (\<lambda>items.
     rbind (rmap (\<lambda>(k, v). rbind (any_field names v) (\<lambda>b. Inr (k, b))) items) (\<lambda>marks.
       Inr (set ks, fst ` set (filter snd marks)))))"

definition simple_analyzes ::
  "json \<Rightarrow> json \<Rightarrow> string set option \<Rightarrow> (string set \<times> string set) res" where
  "simple_analyzes opendistro aiven untouchables =
     (let untouchables = (case untouchables of None \<Rightarrow> {} | Some u \<Rightarrow> u) in
      rbind (untouchable_if_field_set opendistro [''reserved'', ''static'']) (\<lambda>(os_entries, os_unmovable).
      rbind (untouchable_if_field_set aiven [''reserved'', ''static'', ''hidden''])
        (\<lambda>(aiven_entries, aiven_untouchables).
          let aiven_untouchables = aiven_untouchables \<union> untouchables;
              valid_os_entries = os_entries - os_unmovable - aiven_untouchables
          in Inr (valid_os_entries - aiven_entries, valid_os_entries \<inter> aiven_entries))))"

record section_plan =
  to_add :: "(string, json) dict"
  to_update :: "(string, json) dict"

definition set_order :: "(string set \<Rightarrow> string list) \<Rightarrow> bool" where
  "set_order enum \<longleftrightarrow> (\<forall>A. finite A \<longrightarrow> set (enum A) = A \<and> distinct (enum A))"

definition pick :: "json \<Rightarrow> string list \<Rightarrow> (string, json) dict res" where
  "pick entries names = rmap (\<lambda>n. rbind (py_item entries n) (\<lambda>v. Inr (n, v))) names"

definition simple_actions ::
  "(string set \<Rightarrow> string list) \<Rightarrow> json \<Rightarrow> json \<Rightarrow> string set option \<Rightarrow> section_plan res" where
  "simple_actions enum opendistro aiven untouchables =
     rbind (simple_analyzes opendistro aiven untouchables) (\<lambda>(new, updated).
     rbind (pick opendistro (enum new)) (\<lambda>a.
     rbind (pick opendistro (enum updated)) (\<lambda>u.
       Inr \<lparr>to_add = a, to_update = u\<rparr>)))"

definition PREDEFINED_UNTOUCHABLES :: "(string, string set) dict" where
  "PREDEFINED_UNTOUCHABLES =
     [(''internalusers'', {AIVEN_SECURITY_MANAGER}), (''rolesmapping'', {''manage_snapshots''})]"

fun analyze_sections ::
  "(string set \<Rightarrow> string list) \<Rightarrow> (string, json) dict \<Rightarrow> (string, json) dict \<Rightarrow> string list \<Rightarrow>
   (string, section_plan) dict \<Rightarrow> (string, section_plan) dict res" where
  "analyze_sections enum opendistro aiven [] actions = Inr actions"
| "analyze_sections enum opendistro aiven (entry # entries) actions =
     rbind (ditem opendistro entry) (\<lambda>o_sec.
     rbind (ditem aiven entry) (\<lambda>a_sec.
     rbind (simple_actions enum o_sec a_sec (dget PREDEFINED_UNTOUCHABLES entry)) (\<lambda>plan.
       analyze_sections enum opendistro aiven entries (dupdate actions [(entry, plan)]))))"

definition analyze_security_configurations ::
  "(string set \<Rightarrow> string list) \<Rightarrow> (string, json) dict \<Rightarrow> (string, json) dict \<Rightarrow>
   (string, section_plan) dict res" where
  "analyze_security_configurations enum opendistro aiven =
     analyze_sections enum opendistro aiven SECURITY_CONFIG_SECTIONS []"

section \<open>Patch actions\<close>

record patch_action =
  pa_op :: string
  pa_path :: string
  pa_value :: json

text \<open>\<open>if d.pop(key, None): d[key] = False\<close>\<close>

definition clear_flag :: "string \<Rightarrow> (string, json) dict \<Rightarrow> (string, json) dict" where
  "clear_flag key d =
     (if truthy (dget_or d key JNull) then dset (ddel d key) key (JBool False) else ddel d key)"

definition filter_fields :: "(string, json) dict \<Rightarrow> (string, json) dict" where
  "filter_fields d = fold clear_flag [''hidden'', ''reserved''] (ddel d ''static'')"

definition inplace_filter_non_migratable_fields :: "json \<Rightarrow> (string, json) dict res" where
  "inplace_filter_non_migratable_fields v =
     (case v of
        JObj d \<Rightarrow> Inr (filter_fields d)
      | JList _ \<Rightarrow> Inl (TypeError ''pop'')
      | _ \<Rightarrow> Inl (AttributeError ''pop''))"

definition simple_adder :: "string \<Rightarrow> (string, json) dict \<Rightarrow> patch_action list res" where
  "simple_adder sec entries =
     rmap (\<lambda>(path, values).
        rbind (inplace_filter_non_migratable_fields values) (\<lambda>d.
          Inr \<lparr>pa_op = ''add'', pa_path = ''/'' @ path, pa_value = JObj d\<rparr>)) entries"

definition get_filtered_for_migration ::
  "string \<Rightarrow> json \<Rightarrow> json \<Rightarrow> ((string, json) dict \<times> (string, json) dict) res" where
  "get_filtered_for_migration name entry aiven =
     rbind (py_get aiven name (JObj [])) (\<lambda>aiven_entry.
       if \<not> truthy aiven_entry then Inl (RuntimeError (''Missing '' @ name @ '' in Aiven configuration''))
       else rbind (inplace_filter_non_migratable_fields entry) (\<lambda>e.
            rbind (inplace_filter_non_migratable_fields aiven_entry) (\<lambda>a. Inr (e, a))))"

text \<open>
  The branch of \<open>section_aware_updater\<close> for role mappings: the Opendistro values, with
  \<open>users\<close> defaulted, and whether an item differs. \<open>os_values["users"].add\<close> is an attribute
  no JSON value has.
\<close>

definition item_differs :: "(string, json) dict \<Rightarrow> (string, json) dict \<Rightarrow> string \<Rightarrow> bool" where
  "item_differs os_values aiven_values key =
     (let os_value = dget_or os_values key JNull; aiven_value = dget_or aiven_values key JNull
      in (truthy os_value \<or> truthy aiven_value) \<and> \<not> py_eq os_value aiven_value)"

definition with_users :: "(string, json) dict \<Rightarrow> (string, json) dict" where
  "with_users os_values =
     (if dget os_values ''users'' = None then dset os_values ''users'' (JList []) else os_values)"

definition rolesmapping_changes ::
  "(string, json) dict \<Rightarrow> (string, json) dict \<Rightarrow> ((string, json) dict \<times> bool) res" where
  "rolesmapping_changes os_values aiven_values =
     (let os_values = with_users os_values in
      rbind (ditem aiven_values ''users'') (\<lambda>aiven_users.
      rbind (py_in AIVEN_SECURITY_MANAGER aiven_users) (\<lambda>in_aiven.
      rbind (if in_aiven
             then rbind (ditem os_values ''users'') (\<lambda>os_users.
                  rbind (py_in AIVEN_SECURITY_MANAGER os_users) (\<lambda>in_os. Inr (\<not> in_os)))
             else Inr False) (\<lambda>missing.
        if missing then Inl (AttributeError ''add'')
        else Inr (os_values,
               list_ex (item_differs os_values aiven_values)
                 (dkeys os_values @ dkeys aiven_values))))))"

definition entry_changes ::
  "string \<Rightarrow> (string, json) dict \<Rightarrow> (string, json) dict \<Rightarrow> ((string, json) dict \<times> bool) res" where
  "entry_changes sec os_values aiven_values =
     (if sec = ''rolesmapping'' then rolesmapping_changes os_values aiven_values
      else Inr (os_values, \<not> py_eq (JObj os_values) (JObj aiven_values)))"

fun updater_loop ::
  "string \<Rightarrow> json \<Rightarrow> (string, json) dict \<Rightarrow> patch_action list \<Rightarrow> nat \<Rightarrow>
   (patch_action list \<times> nat) res" where
  "updater_loop sec aiven [] actions skipped = Inr (actions, skipped)"
| "updater_loop sec aiven ((path, values) # entries) actions skipped =
     rbind (get_filtered_for_migration path values aiven) (\<lambda>(os_values, aiven_values).
     rbind (entry_changes sec os_values aiven_values) (\<lambda>(os_values, changed).
       if \<not> changed then updater_loop sec aiven entries actions (skipped + 1)
       else updater_loop sec aiven entries
              (actions @ [\<lparr>pa_op = ''replace'', pa_path = ''/'' @ path,
                           pa_value = JObj (dupdate aiven_values os_values)\<rparr>]) skipped))"

definition section_aware_updater ::
  "string \<Rightarrow> (string, json) dict \<Rightarrow> (string, json) dict \<Rightarrow> (patch_action list \<times> nat) res" where
  "section_aware_updater sec entries aiven_config =
     (if entries = [] then Inr ([], 0)
      else rbind (ditem aiven_config sec) (\<lambda>aiven. updater_loop sec aiven entries [] 0))"

section \<open>What the analysis selects\<close>

definition flagged :: "string list \<Rightarrow> json \<Rightarrow> bool" where
  "flagged names v =
     (case v of JObj d \<Rightarrow> list_ex (\<lambda>f. truthy (dget_or d f (JBool False))) names | _ \<Rightarrow> False)"

definition all_objects :: "(string, json) dict \<Rightarrow> bool" where
  "all_objects d = list_all (\<lambda>kv. is_obj (snd kv)) d"

definition movable :: "(string, json) dict \<Rightarrow> string set \<Rightarrow> string \<Rightarrow> json \<Rightarrow> bool" where
  "movable aiven untouchables k v \<longleftrightarrow>
     \<not> flagged [''reserved'', ''static''] v \<and> k \<notin> untouchables \<and>
     (\<forall>w. dget aiven k = Some w \<longrightarrow> \<not> flagged [''reserved'', ''static'', ''hidden''] w)"

lemma any_field_Inr:
  "names \<noteq> [] \<Longrightarrow> any_field names v = Inr b \<longleftrightarrow> is_obj v \<and> b = flagged names v"
proof (cases v)
  case (JObj d)
  have "rmap (\<lambda>f. py_get v f (JBool False)) names = Inr (map (\<lambda>f. dget_or d f (JBool False)) names)"
    by (rule rmap_total) (simp add: JObj py_get_def)
  with JObj show ?thesis
    by (auto simp: any_field_def flagged_def is_obj_def list_ex_iff)
qed (cases names; simp add: any_field_def py_get_def is_obj_def)+

lemma any_field_obj: "names \<noteq> [] \<Longrightarrow> is_obj v \<Longrightarrow> any_field names v = Inr (flagged names v)"
  by (simp add: any_field_Inr)

lemma marks_Inr:
  assumes "names \<noteq> []"
  shows "rmap (\<lambda>(k, v). rbind (any_field names v) (\<lambda>b. Inr (k, b))) d = Inr marks \<longleftrightarrow>
    all_objects d \<and> marks = map (\<lambda>(k, v). (k, flagged names v)) d"
proof (induction d arbitrary: marks)
  case Nil
  then show ?case by (auto simp: all_objects_def)
next
  case (Cons kv d)
  then show ?case
    by (cases kv) (auto simp: res_simps any_field_Inr [OF assms] all_objects_def)
qed

lemma untouchable_if_field_set_Inr:
  assumes "names \<noteq> []"
  shows "untouchable_if_field_set v names = Inr r \<longleftrightarrow>
    (\<exists>d. v = JObj d \<and> all_objects d \<and>
       r = (fst ` set d, fst ` set (filter (\<lambda>kv. flagged names (snd kv)) d)))"
proof (cases v)
  case (JObj d)
  have eq: "fst ` set (filter snd (map (\<lambda>(k, v). (k, flagged names v)) d)) =
      fst ` set (filter (\<lambda>kv. flagged names (snd kv)) d)"
    by (induction d) auto
  have "rmap (\<lambda>(k, v). rbind (any_field names v) (\<lambda>b. Inr (k, b))) d = Inr marks \<longleftrightarrow>
      all_objects d \<and> marks = map (\<lambda>(k, v). (k, flagged names v)) d" for marks
    by (rule marks_Inr [OF assms])
  with JObj eq show ?thesis
    by (auto simp: untouchable_if_field_set_def py_keys_def dkeys_def res_simps)
qed (simp_all add: untouchable_if_field_set_def py_keys_def)

lemma flagged_names_iff:
  "dict_ok d \<Longrightarrow> k \<in> fst ` set (filter (\<lambda>kv. P (snd kv)) d) \<longleftrightarrow> (\<exists>v. dget d k = Some v \<and> P v)"
  by (force dest: dget_Some_in intro: dget_in_ok)

lemma in_names_iff: "k \<in> fst ` set d \<longleftrightarrow> dget d k \<noteq> None"
  by (simp add: dget_eq_None)

lemma simple_analyzes_sets:
  "simple_analyzes (JObj od) (JObj av) u = Inr (new, upd) \<longleftrightarrow>
     all_objects od \<and> all_objects av \<and>
     (let valid = fst ` set od - fst ` set (filter (\<lambda>kv. flagged [''reserved'', ''static''] (snd kv)) od)
          - (fst ` set (filter (\<lambda>kv. flagged [''reserved'', ''static'', ''hidden''] (snd kv)) av)
             \<union> (case u of None \<Rightarrow> {} | Some x \<Rightarrow> x))
      in new = valid - fst ` set av \<and> upd = valid \<inter> fst ` set av)"
  by (auto simp: simple_analyzes_def Let_def rbind_eq_Inr untouchable_if_field_set_Inr)

lemma simple_analyzes_Inr:
  assumes "dict_ok od" "dict_ok av" "simple_analyzes (JObj od) (JObj av) u = Inr (new, upd)"
  defines "us \<equiv> case u of None \<Rightarrow> {} | Some x \<Rightarrow> x"
  shows "all_objects od \<and> all_objects av"
    and "k \<in> new \<longleftrightarrow> (\<exists>v. dget od k = Some v \<and> movable av us k v \<and> dget av k = None)"
    and "k \<in> upd \<longleftrightarrow> (\<exists>v. dget od k = Some v \<and> movable av us k v \<and> dget av k \<noteq> None)"
proof -
  note f1 = flagged_names_iff [OF assms(1), where P = "flagged [''reserved'', ''static'']"]
  note f2 = flagged_names_iff [OF assms(2), where P = "flagged [''reserved'', ''static'', ''hidden'']"]
  note sets = assms(3) [unfolded simple_analyzes_sets Let_def]
  show "all_objects od \<and> all_objects av"
    using sets by blast
  define F1 where "F1 = fst ` set (filter (\<lambda>kv. flagged [''reserved'', ''static''] (snd kv)) od)"
  define F2 where "F2 = fst ` set (filter (\<lambda>kv. flagged [''reserved'', ''static'', ''hidden''] (snd kv)) av)"
  have "new = fst ` set od - F1 - (F2 \<union> us) - fst ` set av"
    "upd = (fst ` set od - F1 - (F2 \<union> us)) \<inter> fst ` set av"
    using sets by (simp_all only: F1_def F2_def us_def)
  then have mem: "k \<in> new \<longleftrightarrow> k \<in> fst ` set od \<and> k \<notin> F1 \<and> k \<notin> F2 \<and> k \<notin> us \<and> k \<notin> fst ` set av"
    "k \<in> upd \<longleftrightarrow> k \<in> fst ` set od \<and> k \<notin> F1 \<and> k \<notin> F2 \<and> k \<notin> us \<and> k \<in> fst ` set av"
    by blast+
  have names: "k \<in> fst ` set od \<longleftrightarrow> dget od k \<noteq> None" "k \<in> fst ` set av \<longleftrightarrow> dget av k \<noteq> None"
    by (rule in_names_iff)+
  have flags: "k \<in> F1 \<longleftrightarrow> (\<exists>v. dget od k = Some v \<and> flagged [''reserved'', ''static''] v)"
    "k \<in> F2 \<longleftrightarrow> (\<exists>w. dget av k = Some w \<and> flagged [''reserved'', ''static'', ''hidden''] w)"
    unfolding F1_def F2_def by (rule f1, rule f2)
  show "k \<in> new \<longleftrightarrow> (\<exists>v. dget od k = Some v \<and> movable av us k v \<and> dget av k = None)"
    unfolding mem(1) names flags movable_def
    by (cases "dget od k"; cases "dget av k") simp_all
  show "k \<in> upd \<longleftrightarrow> (\<exists>v. dget od k = Some v \<and> movable av us k v \<and> dget av k \<noteq> None)"
    unfolding mem(2) names flags movable_def
    by (cases "dget od k"; cases "dget av k") auto
qed

lemma simple_analyzes_total:
  "all_objects od \<Longrightarrow> all_objects av \<Longrightarrow> \<exists>r. simple_analyzes (JObj od) (JObj av) u = Inr r"
  unfolding simple_analyzes_def Let_def
  by (auto simp: res_simps untouchable_if_field_set_Inr)

lemma simple_analyzes_objects:
  "simple_analyzes o_sec a_sec u = Inr r \<Longrightarrow>
     \<exists>od av. o_sec = JObj od \<and> a_sec = JObj av \<and> all_objects od \<and> all_objects av"
  unfolding simple_analyzes_def Let_def
  by (auto simp: res_simps untouchable_if_field_set_Inr)

lemma pick_Inr:
  assumes "\<And>n. n \<in> set names \<Longrightarrow> dget d n \<noteq> None"
  shows "pick (JObj d) names = Inr (map (\<lambda>n. (n, the (dget d n))) names)"
  unfolding pick_def
  by (rule rmap_total) (use assms in \<open>auto simp: py_item_def ditem_def split: option.splits\<close>)

lemma dget_map_pair: "dget (map (\<lambda>n. (n, f n)) ns) k = (if k \<in> set ns then Some (f k) else None)"
  by (induction ns) auto

lemma dict_ok_map_pair: "distinct ns \<Longrightarrow> dict_ok (map (\<lambda>n. (n, f n)) ns)"
  by (simp add: dict_ok_def comp_def)

text \<open>
  The plan of one section, in terms of the two configurations: an entry is planned when it
  is movable, added when Aiven lacks it and updated when Aiven has it, with the Opendistro value.
\<close>

definition plan_exact ::
  "(string, json) dict \<Rightarrow> (string, json) dict \<Rightarrow> string set \<Rightarrow> section_plan \<Rightarrow> bool" where
  "plan_exact od av untouchables plan \<longleftrightarrow>
     dict_ok (to_add plan) \<and> dict_ok (to_update plan) \<and>
     (\<forall>k v. dget (to_add plan) k = Some v \<longleftrightarrow>
        dget od k = Some v \<and> movable av untouchables k v \<and> dget av k = None) \<and>
     (\<forall>k v. dget (to_update plan) k = Some v \<longleftrightarrow>
        dget od k = Some v \<and> movable av untouchables k v \<and> dget av k \<noteq> None)"

definition untouchables_of :: "string \<Rightarrow> string set" where
  "untouchables_of entry = (case dget PREDEFINED_UNTOUCHABLES entry of None \<Rightarrow> {} | Some u \<Rightarrow> u)"

lemma finite_dget: "(\<And>k. k \<in> A \<Longrightarrow> dget d k \<noteq> None) \<Longrightarrow> finite A"
  by (rule finite_subset [of _ "fst ` set d"]) (auto simp: in_names_iff)

lemma simple_actions_exact:
  assumes ok: "dict_ok od" "dict_ok av" and ord: "set_order enum"
    and objs: "all_objects od" "all_objects av"
  shows "\<exists>plan. simple_actions enum (JObj od) (JObj av) u = Inr plan \<and>
    plan_exact od av (case u of None \<Rightarrow> {} | Some x \<Rightarrow> x) plan"
proof -
  obtain new upd where r: "simple_analyzes (JObj od) (JObj av) u = Inr (new, upd)"
    using simple_analyzes_total [OF objs, of u] by (metis surj_pair)
  note sel = simple_analyzes_Inr [OF ok r]
  have fin: "finite new" "finite upd"
    by (rule finite_dget [of _ od], use sel(2,3) in auto)+
  have sets: "set (enum new) = new" "distinct (enum new)" "set (enum upd) = upd" "distinct (enum upd)"
    using ord fin by (auto simp: set_order_def)
  have "pick (JObj od) (enum new) = Inr (map (\<lambda>n. (n, the (dget od n))) (enum new))"
    "pick (JObj od) (enum upd) = Inr (map (\<lambda>n. (n, the (dget od n))) (enum upd))"
    by (rule pick_Inr, use sel sets in auto)+
  then have "simple_actions enum (JObj od) (JObj av) u =
      Inr \<lparr>to_add = map (\<lambda>n. (n, the (dget od n))) (enum new),
           to_update = map (\<lambda>n. (n, the (dget od n))) (enum upd)\<rparr>"
    by (simp add: simple_actions_def r)
  then show ?thesis
    using sel sets by (auto simp: plan_exact_def dget_map_pair dict_ok_map_pair)
qed

text \<open>The configuration of every section is an object of objects with distinct keys.\<close>

definition section_of :: "(string, json) dict \<Rightarrow> string \<Rightarrow> (string, json) dict" where
  "section_of cfg sec = (case dget cfg sec of Some (JObj d) \<Rightarrow> d | _ \<Rightarrow> [])"

definition section_ok :: "(string, json) dict \<Rightarrow> string \<Rightarrow> bool" where
  "section_ok cfg sec \<longleftrightarrow>
     dget cfg sec = Some (JObj (section_of cfg sec)) \<and> json_ok (JObj (section_of cfg sec)) \<and>
     all_objects (section_of cfg sec)"

definition config_ok :: "(string, json) dict \<Rightarrow> bool" where
  "config_ok cfg \<longleftrightarrow> list_all (section_ok cfg) SECURITY_CONFIG_SECTIONS"

definition plan_for ::
  "(string, json) dict \<Rightarrow> (string, json) dict \<Rightarrow> string \<Rightarrow> section_plan \<Rightarrow> bool" where
  "plan_for opendistro aiven sec plan \<longleftrightarrow>
     plan_exact (section_of opendistro sec) (section_of aiven sec) (untouchables_of sec) plan"

lemma dupdate_single: "dget d k = None \<Longrightarrow> dupdate d [(k, v)] = d @ [(k, v)]"
  by (simp add: dupdate_def dset_new)

lemma analyze_sections_exact:
  assumes "set_order enum"
  shows "list_all (section_ok opendistro) es \<Longrightarrow> list_all (section_ok aiven) es \<Longrightarrow> distinct es \<Longrightarrow>
    list_all (\<lambda>e. dget acts e = None) es \<Longrightarrow>
    \<exists>ps. analyze_sections enum opendistro aiven es acts = Inr (acts @ ps) \<and> map fst ps = es \<and>
      list_all (\<lambda>(e, plan). plan_for opendistro aiven e plan) ps"
proof (induction es arbitrary: acts)
  case Nil
  then show ?case by auto
next
  case (Cons e es)
  let ?o = "section_of opendistro e" and ?a = "section_of aiven e"
  have o: "dget opendistro e = Some (JObj ?o)" "dict_ok ?o" "all_objects ?o"
    and a: "dget aiven e = Some (JObj ?a)" "dict_ok ?a" "all_objects ?a"
    using Cons.prems by (auto simp: section_ok_def)
  obtain plan where plan: "simple_actions enum (JObj ?o) (JObj ?a) (dget PREDEFINED_UNTOUCHABLES e) = Inr plan"
    "plan_for opendistro aiven e plan"
    using simple_actions_exact [OF o(2) a(2) assms o(3) a(3)]
    by (auto simp: plan_for_def untouchables_of_def)
  have new: "dget acts e = None" using Cons.prems by simp
  have "list_all (\<lambda>x. dget (acts @ [(e, plan)]) x = None) es"
    using Cons.prems by (auto simp: list_all_iff dget_def map_add_def)
  then obtain ps where ps: "analyze_sections enum opendistro aiven es (acts @ [(e, plan)]) = Inr ((acts @ [(e, plan)]) @ ps)"
    "map fst ps = es" "list_all (\<lambda>(e, plan). plan_for opendistro aiven e plan) ps"
    using Cons.IH [of "acts @ [(e, plan)]"] Cons.prems by auto
  have "analyze_sections enum opendistro aiven (e # es) acts = Inr (acts @ (e, plan) # ps)"
    using o(1) a(1) plan(1) ps(1) by (simp add: ditem_def dupdate_single [OF new])
  with plan(2) ps show ?case by (intro exI [of _ "(e, plan) # ps"]) auto
qed

lemma analyze_exact:
  assumes "set_order enum" "config_ok opendistro" "config_ok aiven"
  shows "\<exists>acts. analyze_security_configurations enum opendistro aiven = Inr acts \<and>
    map fst acts = SECURITY_CONFIG_SECTIONS \<and>
    list_all (\<lambda>(sec, plan). plan_for opendistro aiven sec plan) acts"
proof -
  have "distinct SECURITY_CONFIG_SECTIONS"
    by (simp add: SECURITY_CONFIG_SECTIONS_def)
  then show ?thesis
    using analyze_sections_exact [OF assms(1), of opendistro SECURITY_CONFIG_SECTIONS aiven "[]"] assms(2,3)
    by (simp add: analyze_security_configurations_def config_ok_def list_all_iff)
qed

lemma analyze_sections_keys:
  "analyze_sections enum opendistro aiven es acts = Inr r \<Longrightarrow> set (dkeys r) = set es \<union> set (dkeys acts)"
proof (induction es arbitrary: acts)
  case Nil
  then show ?case by simp
next
  case (Cons e es)
  then obtain plan where "analyze_sections enum opendistro aiven es (dupdate acts [(e, plan)]) = Inr r"
    by (auto simp: res_simps)
  from Cons.IH [OF this] show ?case
    by (auto simp: dupdate_def pd.set_keys_put)
qed

section \<open>What the actions hold\<close>

lemma filter_fields_get:
  "dget (filter_fields d) k =
     (if k = ''static'' then None
      else if k = ''hidden'' \<or> k = ''reserved''
        then (if truthy (dget_or d k JNull) then Some (JBool False) else None)
      else dget d k)"
  by (auto simp: filter_fields_def clear_flag_def dget_or_def pd.get_put pd.get_del)

lemma filter_fields_ok: "dict_ok d \<Longrightarrow> dict_ok (filter_fields d)"
  by (simp add: filter_fields_def clear_flag_def pd.ok_put pd.ok_del)

lemma inplace_filter_Inr:
  "inplace_filter_non_migratable_fields v = Inr e \<longleftrightarrow> (\<exists>d. v = JObj d \<and> e = filter_fields d)"
  by (auto simp: inplace_filter_non_migratable_fields_def split: json.splits)

text \<open>No migrated object is reserved, static or hidden.\<close>

lemma filter_fields_unflagged: "\<not> flagged [''reserved'', ''static'', ''hidden''] (JObj (filter_fields d))"
  by (simp add: flagged_def dget_or_def filter_fields_get)

definition the_obj :: "json \<Rightarrow> (string, json) dict" where
  "the_obj v = (case v of JObj d \<Rightarrow> d | _ \<Rightarrow> [])"

definition add_action :: "string \<times> json \<Rightarrow> patch_action" where
  "add_action kv =
     \<lparr>pa_op = ''add'', pa_path = ''/'' @ fst kv, pa_value = JObj (filter_fields (the_obj (snd kv)))\<rparr>"

lemma simple_adder_total:
  "all_objects entries \<Longrightarrow> simple_adder sec entries = Inr (map add_action entries)"
  unfolding simple_adder_def
  by (rule rmap_total)
     (auto simp: all_objects_def list_all_iff is_obj_iff inplace_filter_non_migratable_fields_def
        add_action_def the_obj_def)

lemma get_filtered_Inr:
  "get_filtered_for_migration name v (JObj av) = Inr (e, a) \<longleftrightarrow>
     (\<exists>d w. v = JObj d \<and> e = filter_fields d \<and> dget av name = Some (JObj w) \<and> w \<noteq> [] \<and>
        a = filter_fields w)"
  by (auto simp: get_filtered_for_migration_def py_get_def res_simps inplace_filter_Inr dget_or_def
      split: option.splits)

text \<open>
  The loop of the updater, as a partition of its entries: \<open>changed_values\<close> is the value it
  sends for an entry, or \<open>None\<close> for an entry it skips.
\<close>

definition update_value :: "string \<Rightarrow> json \<Rightarrow> string \<times> json \<Rightarrow> json option res" where
  "update_value sec aiven kv =
     rbind (get_filtered_for_migration (fst kv) (snd kv) aiven) (\<lambda>(os_values, aiven_values).
     rbind (entry_changes sec os_values aiven_values) (\<lambda>(os_values, changed).
       Inr (if changed then Some (JObj (dupdate aiven_values os_values)) else None)))"

definition replace_actions :: "(string \<times> json) list \<Rightarrow> json option list \<Rightarrow> patch_action list" where
  "replace_actions entries vs =
     List.map_filter (\<lambda>(kv, v). map_option (\<lambda>x. \<lparr>pa_op = ''replace'', pa_path = ''/'' @ fst kv, pa_value = x\<rparr>) v)
       (zip entries vs)"

lemma updater_loop_step:
  "updater_loop sec aiven (kv # entries) actions skipped =
     rbind (update_value sec aiven kv) (\<lambda>v.
       case v of
         None \<Rightarrow> updater_loop sec aiven entries actions (skipped + 1)
       | Some x \<Rightarrow> updater_loop sec aiven entries
           (actions @ [\<lparr>pa_op = ''replace'', pa_path = ''/'' @ fst kv, pa_value = x\<rparr>]) skipped)"
  by (cases kv) (auto simp: update_value_def rbind_def split: sum.splits)

lemma updater_loop_eq:
  "updater_loop sec aiven entries actions skipped =
     rbind (rmap (update_value sec aiven) entries) (\<lambda>vs.
       Inr (actions @ replace_actions entries vs, skipped + length (filter (\<lambda>v. v = None) vs)))"
proof (induction entries arbitrary: actions skipped)
  case Nil
  then show ?case by (simp add: replace_actions_def map_filter_simps)
next
  case (Cons kv entries)
  show ?case
    unfolding updater_loop_step rmap.simps Cons.IH
    by (cases "update_value sec aiven kv"; cases "rmap (update_value sec aiven) entries")
       (auto simp: replace_actions_def map_filter_simps split: option.splits)
qed

lemma length_replace_actions:
  "length vs = length entries \<Longrightarrow>
     length (replace_actions entries vs) + length (filter (\<lambda>v. v = None) vs) = length entries"
  by (induction vs entries rule: list_induct2)
     (auto simp: replace_actions_def map_filter_simps split: option.splits)

lemma updater_counts:
  "section_aware_updater sec entries cfg = Inr (actions, skipped) \<Longrightarrow>
     length actions + skipped = length entries"
  by (auto simp: section_aware_updater_def updater_loop_eq res_simps length_replace_actions rmap_length
      split: if_splits)

lemma replace_actions_in:
  "act \<in> set (replace_actions entries vs) \<Longrightarrow>
     \<exists>kv x. (kv, Some x) \<in> set (zip entries vs) \<and>
       act = \<lparr>pa_op = ''replace'', pa_path = ''/'' @ fst kv, pa_value = x\<rparr>"
  by (force simp: replace_actions_def List.map_filter_def)

lemma rmap_zip: "rmap f xs = Inr ys \<Longrightarrow> (x, y) \<in> set (zip xs ys) \<Longrightarrow> x \<in> set xs \<and> f x = Inr y"
  by (auto simp: rmap_Inr_iff list_all2_iff set_zip_leftD)

lemma updater_action:
  assumes "section_aware_updater sec entries cfg = Inr (actions, skipped)" "act \<in> set actions"
  shows "\<exists>k v x aiven. (k, v) \<in> set entries \<and> dget cfg sec = Some aiven \<and>
    update_value sec aiven (k, v) = Inr (Some x) \<and>
    act = \<lparr>pa_op = ''replace'', pa_path = ''/'' @ k, pa_value = x\<rparr>"
proof -
  from assms obtain aiven vs where a: "dget cfg sec = Some aiven"
    "rmap (update_value sec aiven) entries = Inr vs" "actions = replace_actions entries vs"
    by (auto simp: section_aware_updater_def updater_loop_eq res_simps ditem_Inr split: if_splits)
  with assms(2) show ?thesis
    by (fastforce dest!: replace_actions_in dest: rmap_zip)
qed

text \<open>The values of an update, in terms of the two objects.\<close>

lemma update_value_Some:
  "update_value sec (JObj av) (k, v) = Inr (Some x) \<longleftrightarrow>
     (\<exists>d w os'. v = JObj d \<and> dget av k = Some (JObj w) \<and> w \<noteq> [] \<and>
        entry_changes sec (filter_fields d) (filter_fields w) = Inr (os', True) \<and>
        x = JObj (dupdate (filter_fields w) os'))"
  by (auto simp: update_value_def res_simps get_filtered_Inr split: if_splits)

lemma rolesmapping_changes_Inr:
  "rolesmapping_changes os av = Inr (os', b) \<Longrightarrow>
     os' = with_users os \<and>
     (\<exists>users. dget av ''users'' = Some users \<and>
        (py_in AIVEN_SECURITY_MANAGER users = Inr True \<longrightarrow>
           (\<exists>us'. dget os' ''users'' = Some us' \<and> py_in AIVEN_SECURITY_MANAGER us' = Inr True)))"
  by (auto simp: rolesmapping_changes_def Let_def res_simps ditem_Inr split: if_splits)

lemma rolesmapping_changes_add:
  assumes "dget av ''users'' = Some users" "py_in AIVEN_SECURITY_MANAGER users = Inr True"
    and "dget (with_users os) ''users'' = Some us'" "py_in AIVEN_SECURITY_MANAGER us' = Inr False"
  shows "rolesmapping_changes os av = Inl (AttributeError ''add'')"
  using assms by (simp add: rolesmapping_changes_def ditem_def)

lemma entry_changes_values:
  "entry_changes sec os av = Inr (os', b) \<Longrightarrow> os' = os \<or> os' = with_users os"
  by (auto simp: entry_changes_def dest: rolesmapping_changes_Inr split: if_splits)

lemma with_users_get: "dget os f = Some x \<Longrightarrow> dget (with_users os) f = Some x"
  by (auto simp: with_users_def pd.get_put)

lemma with_users_other: "f \<noteq> ''users'' \<Longrightarrow> dget (with_users os) f = dget os f"
  by (simp add: with_users_def pd.get_put)

lemma with_users_ok: "dict_ok os \<Longrightarrow> dict_ok (with_users os)"
  by (simp add: with_users_def pd.ok_put)

lemma unflagged_get:
  "\<not> flagged names (JObj d) \<longleftrightarrow> (\<forall>f \<in> set names. \<not> truthy (dget_or d f (JBool False)))"
  by (auto simp: flagged_def list_ex_iff)

end
