(* ===== verification/SecurityMain.thy ===== *)
theory SecurityMain
  imports SecurityMigration
begin

text \<open>
  \<open>main\<close> of \<open>avn-migrate-os-security-config.py\<close>: the configuration file, the two connections, the
  download of the five sections, the analysis and the patch calls. The script's effect on
  the Aiven service is the list of its patch calls, in order; the service's reply to a
  \<open>PATCH\<close> is the parameter \<open>send\<close>, which sees the calls made before it. The result says where the
  script ended, with what the summary prints.
\<close>

type_synonym patch_call = "string \<times> patch_action list"

type_synonym service = "patch_call list \<Rightarrow> session \<Rightarrow> string \<Rightarrow> patch_action list \<Rightarrow> response res"

text \<open>\<open>aiven_security.patch(section=..., actions=...)\<close>: a \<open>PATCH\<close> of the section's path.\<close>

definition aiven_patch ::
  "service \<Rightarrow> patch_call list \<Rightarrow> session \<Rightarrow> string \<Rightarrow> patch_action list \<Rightarrow> response res" where
  "aiven_patch send calls s sec actions = send calls s (s_api s @ ''/'' @ sec) actions"

record counts =
  additions :: nat
  updates :: nat
  unchanged :: nat

datatype ending =
    HelpPrinted
  | SourceFailed exn
  | TargetFailed exn
  | DownloadFailed string exn
  | NothingToMigrate
  | AddRejected string
  | AddFailed string exn
  | UpdateRejected string
  | UpdateFailed string exn
  | Completed "(string, counts) dict"
  | Uncaught exn

text \<open>\<open>try: ... except Exception as e: return\<close>\<close>

definition handled :: "(exn \<Rightarrow> ending) \<Rightarrow> exn \<Rightarrow> ending" where
  "handled k e = (if is_Exception e then k e else Uncaught e)"

section \<open>The migration loop\<close>

text \<open>
  One of the two \<open>try\<close> blocks of a section: compute the actions, and if there are any, send
  them as one call. The outcome is the calls made and either the ending or the actions.
\<close>

definition send_actions ::
  "service \<Rightarrow> session \<Rightarrow> string \<Rightarrow> (string \<Rightarrow> ending) \<Rightarrow> (string \<Rightarrow> exn \<Rightarrow> ending) \<Rightarrow>
   patch_call list \<Rightarrow> patch_action list res \<Rightarrow> patch_call list \<times> (ending + patch_action list)" where
  "send_actions send s entry rejected failed calls computed =
     (case computed of
        Inl e \<Rightarrow> (calls, Inl (handled (failed entry) e))
      | Inr actions \<Rightarrow>
          (if actions = [] then (calls, Inr actions)
           else (calls @ [(entry, actions)],
             case aiven_patch send calls s entry actions of
               Inl e \<Rightarrow> Inl (handled (failed entry) e)
             | Inr r \<Rightarrow> if resp_ok r then Inr actions else Inl (rejected entry))))"

definition migrate_section ::
  "service \<Rightarrow> session \<Rightarrow> (string, json) dict \<Rightarrow> string \<Rightarrow> section_plan \<Rightarrow> patch_call list \<Rightarrow>
   patch_call list \<times> (ending + counts)" where
  "migrate_section send s aiven_config entry plan calls =
     (case send_actions send s entry AddRejected AddFailed calls (simple_adder entry (to_add plan)) of
        (calls, Inl e) \<Rightarrow> (calls, Inl e)
      | (calls, Inr adds) \<Rightarrow>
          (case section_aware_updater entry (to_update plan) aiven_config of
             Inl e \<Rightarrow> (calls, Inl (handled (UpdateFailed entry) e))
           | Inr (upds, skipped) \<Rightarrow>
               (case send_actions send s entry UpdateRejected UpdateFailed calls (Inr upds) of
                  (calls, Inl e) \<Rightarrow> (calls, Inl e)
                | (calls, Inr _) \<Rightarrow>
                    (calls, Inr \<lparr>additions = length adds, updates = length upds, unchanged = skipped\<rparr>))))"

fun migrate_sections ::
  "service \<Rightarrow> session \<Rightarrow> (string, json) dict \<Rightarrow> (string, section_plan) dict \<Rightarrow>
   (string, counts) dict \<Rightarrow> patch_call list \<Rightarrow> patch_call list \<times> ending" where
  "migrate_sections send s aiven_config [] counts calls = (calls, Completed counts)"
| "migrate_sections send s aiven_config ((entry, plan) # actions) counts calls =
     (case migrate_section send s aiven_config entry plan calls of
        (calls, Inl e) \<Rightarrow> (calls, e)
      | (calls, Inr c) \<Rightarrow> migrate_sections send s aiven_config actions (dset counts entry c) calls)"

section \<open>The script\<close>

text \<open>
  The configuration file: \<open>open\<close> and \<open>json.load\<close> are the result \<open>config\<close>. When they raise,
  the script prints the exception and goes on with \<open>config\<close> unbound, so that its next use
  raises \<open>UnboundLocalError\<close>, inside the \<open>try\<close> of the first connection.
\<close>

definition config_value :: "json res \<Rightarrow> string \<Rightarrow> string \<Rightarrow> json res" where
  "config_value config part key =
     (case config of
        Inl _ \<Rightarrow> Inl (UnboundLocalError ''config'')
      | Inr c \<Rightarrow> rbind (py_item c part) (\<lambda>p. py_item p key))"

definition connect_source :: "network \<Rightarrow> json res \<Rightarrow> session res" where
  "connect_source net config =
     rbind (config_value config ''source'' ''host'') (\<lambda>host.
     rbind (config_value config ''source'' ''port'') (\<lambda>port.
     rbind (config_value config ''source'' ''certificate'') (\<lambda>crt.
     rbind (config_value config ''source'' ''key'') (\<lambda>key.
       OpendistroSecurity_init net host port crt key))))"

definition connect_target :: "network \<Rightarrow> json res \<Rightarrow> session res" where
  "connect_target net config =
     rbind (config_value config ''target'' ''host'') (\<lambda>host.
     rbind (config_value config ''target'' ''port'') (\<lambda>port.
     rbind (config_value config ''target'' ''password'') (\<lambda>password.
       AivenForOpensearchSecurity_init net host port password)))"

fun download ::
  "(string \<Rightarrow> json res) \<Rightarrow> (string \<Rightarrow> json res) \<Rightarrow> string list \<Rightarrow> (string, json) dict \<Rightarrow> (string, json) dict \<Rightarrow>
   ending + (string, json) dict \<times> (string, json) dict" where
  "download get_od get_av [] od av = Inr (od, av)"
| "download get_od get_av (entry # entries) od av =
     (case get_od entry of
        Inl e \<Rightarrow> Inl (handled (DownloadFailed entry) e)
      | Inr o_sec \<Rightarrow>
          (case get_av entry of
             Inl e \<Rightarrow> Inl (handled (DownloadFailed entry) e)
           | Inr a_sec \<Rightarrow> download get_od get_av entries (dset od entry o_sec) (dset av entry a_sec)))"

definition migrate ::
  "(string set \<Rightarrow> string list) \<Rightarrow> service \<Rightarrow> session \<Rightarrow> (string, json) dict \<Rightarrow> (string, json) dict \<Rightarrow>
   patch_call list \<times> ending" where
  "migrate enum send aiven_security opendistro aiven =
     (case analyze_security_configurations enum opendistro aiven of
        Inl e \<Rightarrow> ([], Uncaught e)
      | Inr actions \<Rightarrow>
          if actions = [] then ([], NothingToMigrate)
          else migrate_sections send aiven_security aiven actions [] [])"

definition run_script ::
  "(string set \<Rightarrow> string list) \<Rightarrow> (byte list \<Rightarrow> json res) \<Rightarrow> network \<Rightarrow> service \<Rightarrow> json res \<Rightarrow>
   patch_call list \<times> ending" where
  "run_script enum loads net send config =
     (case connect_source net config of
        Inl e \<Rightarrow> ([], handled SourceFailed e)
      | Inr source \<Rightarrow>
          (case connect_target net config of
             Inl e \<Rightarrow> ([], handled TargetFailed e)
           | Inr target \<Rightarrow>
               (case download (opendistro_get loads net source) (aiven_get net target)
                        SECURITY_CONFIG_SECTIONS [] [] of
                  Inl e \<Rightarrow> ([], e)
                | Inr (opendistro, aiven) \<Rightarrow> migrate enum send target opendistro aiven)))"

definition main ::
  "(string set \<Rightarrow> string list) \<Rightarrow> (byte list \<Rightarrow> json res) \<Rightarrow> network \<Rightarrow> service \<Rightarrow> string \<Rightarrow> json res \<Rightarrow>
   patch_call list \<times> ending" where
  "main enum loads net send config_arg config =
     (if config_arg = [] then ([], HelpPrinted)
      else case config of
        Inl e \<Rightarrow> if is_Exception e then run_script enum loads net send config else ([], Uncaught e)
      | Inr _ \<Rightarrow> run_script enum loads net send config)"

section \<open>The calls of a section\<close>

definition accepted :: "service \<Rightarrow> session \<Rightarrow> patch_call list \<Rightarrow> nat \<Rightarrow> bool" where
  "accepted send s calls i =
     (case aiven_patch send (take i calls) s (fst (calls ! i)) (snd (calls ! i)) of Inl _ \<Rightarrow> False | Inr r \<Rightarrow> resp_ok r)"

lemma accepted_append: "i < length calls \<Longrightarrow> accepted send s (calls @ extra) i = accepted send s calls i"
  by (simp add: accepted_def nth_append)

definition calls_of :: "string \<Rightarrow> patch_action list \<Rightarrow> patch_call list" where
  "calls_of entry acts = (if acts = [] then [] else [(entry, acts)])"

text \<open>What a step of the script did to the calls: the accepted ones so far, or one last one.\<close>

definition extends ::
  "service \<Rightarrow> session \<Rightarrow> patch_call list \<Rightarrow> patch_call list \<Rightarrow> bool \<Rightarrow> bool" where
  "extends send s calls calls' finished \<longleftrightarrow>
     (\<exists>extra. calls' = calls @ extra \<and>
        (\<forall>i. length calls \<le> i \<and> i + (if finished then 0 else 1) < length calls' \<longrightarrow> accepted send s calls' i))"

lemma extends_trans:
  assumes "extends send s c0 c1 True" "extends send s c1 c2 b"
  shows "extends send s c0 c2 b"
proof -
  obtain m1 m2 where m: "c1 = c0 @ m1" "c2 = c1 @ m2"
    and a1: "\<And>i. length c0 \<le> i \<Longrightarrow> i < length c1 \<Longrightarrow> accepted send s c1 i"
    and a2: "\<And>i. length c1 \<le> i \<Longrightarrow> i + (if b then 0 else 1) < length c2 \<Longrightarrow> accepted send s c2 i"
    using assms by (auto simp: extends_def)
  have "accepted send s c2 i" if "length c0 \<le> i" "i + (if b then 0 else 1) < length c2" for i
    using that a1 [of i] a2 [of i] accepted_append [of i c1 send s m2] m
    by (cases "i < length c1") auto
  then show ?thesis using m by (auto simp: extends_def)
qed

lemma extends_refl: "extends send s calls calls b"
  by (auto simp: extends_def)

lemma send_actions_ok:
  "send_actions send s entry rej fl calls computed = (calls', Inr acts) \<Longrightarrow>
     computed = Inr acts \<and> calls' = calls @ calls_of entry acts \<and> extends send s calls calls' True"
  by (auto simp: send_actions_def calls_of_def extends_def accepted_def less_Suc_eq
      split: sum.splits if_splits)

lemma send_actions_end:
  "send_actions send s entry rej fl calls computed = (calls', Inl e) \<Longrightarrow>
     extends send s calls calls' False \<and>
     (calls' = calls \<or> (\<exists>acts. computed = Inr acts \<and> calls' = calls @ [(entry, acts)])) \<and>
     (e = rej entry \<or> (\<exists>x. e = handled (fl entry) x))"
  by (auto simp: send_actions_def extends_def split: sum.splits if_splits)

lemma migrate_section_ok:
  assumes "migrate_section send s cfg entry plan calls = (calls', Inr c)"
  shows "\<exists>adds upds skipped. simple_adder entry (to_add plan) = Inr adds \<and>
    section_aware_updater entry (to_update plan) cfg = Inr (upds, skipped) \<and>
    calls' = calls @ calls_of entry adds @ calls_of entry upds \<and> extends send s calls calls' True \<and>
    c = \<lparr>additions = length adds, updates = length upds, unchanged = skipped\<rparr>"
  using assms unfolding migrate_section_def
  by (auto split: prod.splits sum.splits dest!: send_actions_ok intro: extends_trans)

definition call_of_plan ::
  "(string, json) dict \<Rightarrow> string \<Rightarrow> section_plan \<Rightarrow> patch_call \<Rightarrow> bool" where
  "call_of_plan cfg entry plan call \<longleftrightarrow> fst call = entry \<and>
     (simple_adder entry (to_add plan) = Inr (snd call) \<or>
      (\<exists>skipped. section_aware_updater entry (to_update plan) cfg = Inr (snd call, skipped)))"

lemma calls_of_plan:
  "simple_adder entry (to_add plan) = Inr acts \<Longrightarrow> c \<in> set (calls_of entry acts) \<Longrightarrow>
     call_of_plan cfg entry plan c"
  "section_aware_updater entry (to_update plan) cfg = Inr (acts, n) \<Longrightarrow> c \<in> set (calls_of entry acts) \<Longrightarrow>
     call_of_plan cfg entry plan c"
  by (auto simp: calls_of_def call_of_plan_def split: if_splits)

lemma migrate_section_end:
  assumes "migrate_section send s cfg entry plan calls = (calls', Inl e)"
  shows "extends send s calls calls' False \<and>
    (\<exists>extra. calls' = calls @ extra \<and> (\<forall>c \<in> set extra. call_of_plan cfg entry plan c)) \<and>
    (\<forall>cs. e \<noteq> Completed cs)"
proof (cases "send_actions send s entry AddRejected AddFailed calls (simple_adder entry (to_add plan))")
  case (Pair c1 r1)
  show ?thesis
  proof (cases r1)
    case (Inl e1)
    with Pair assms have "c1 = calls'" "e1 = e"
      by (simp_all add: migrate_section_def)
    with send_actions_end [OF Pair [unfolded Inl]] show ?thesis
      by (auto simp: call_of_plan_def handled_def split: if_splits)
  next
    case (Inr adds)
    note s1 = send_actions_ok [OF Pair [unfolded Inr]]
    show ?thesis
    proof (cases "section_aware_updater entry (to_update plan) cfg")
      case (Inl x)
      with Pair Inr assms have "c1 = calls'" "e = handled (UpdateFailed entry) x"
        by (simp_all add: migrate_section_def)
      with s1 show ?thesis
        by (auto simp: extends_def handled_def intro: calls_of_plan)
    next
      case Inr2: (Inr us)
      obtain upds skipped where us: "us = (upds, skipped)" by (cases us)
      obtain c2 r2 where s2: "send_actions send s entry UpdateRejected UpdateFailed c1 (Inr upds) = (c2, r2)"
        by (metis surj_pair)
      from assms Pair Inr Inr2 us s2 have "r2 = Inl e" "c2 = calls'"
        by (auto simp: migrate_section_def split: sum.splits)
      with s2 have s2: "send_actions send s entry UpdateRejected UpdateFailed c1 (Inr upds) = (calls', Inl e)"
        by simp
      note e2 = send_actions_end [OF s2]
      from s1 e2 have "extends send s calls calls' False"
        by (blast intro: extends_trans)
      moreover from e2 Inr2 us s1 have
        "\<exists>extra. calls' = calls @ extra \<and> (\<forall>c \<in> set extra. call_of_plan cfg entry plan c)"
        by (auto simp: call_of_plan_def calls_of_def split: if_splits)
      ultimately show ?thesis using e2
        by (auto simp: handled_def split: if_splits)
    qed
  qed
qed

section \<open>The calls of a run\<close>

definition is_completed :: "ending \<Rightarrow> bool" where
  "is_completed r = (case r of Completed _ \<Rightarrow> True | _ \<Rightarrow> False)"

lemma is_completed_simps [simp]: "is_completed (Completed cs)" "\<not> (\<exists>cs. r = Completed cs) \<Longrightarrow> \<not> is_completed r"
  by (auto simp: is_completed_def split: ending.splits)

lemma migrate_sections_calls:
  "migrate_sections send s cfg acts cs calls = (calls', r) \<Longrightarrow>
     extends send s calls calls' (is_completed r) \<and>
     (\<exists>extra. calls' = calls @ extra \<and>
        (\<forall>c \<in> set extra. \<exists>(e, plan) \<in> set acts. call_of_plan cfg e plan c))"
proof (induction acts arbitrary: cs calls)
  case Nil
  then show ?case by (auto simp: extends_refl)
next
  case (Cons ep acts)
  obtain e plan where ep: "ep = (e, plan)" by (cases ep)
  obtain c1 r1 where step: "migrate_section send s cfg e plan calls = (c1, r1)" by (metis surj_pair)
  show ?case
  proof (cases r1)
    case (Inl x)
    with Cons.prems ep step have "c1 = calls'" "x = r" by simp_all
    with migrate_section_end [OF step [unfolded Inl]] ep show ?thesis by auto
  next
    case (Inr c)
    with Cons.prems ep step
    have rest: "migrate_sections send s cfg acts (dset cs e c) c1 = (calls', r)" by simp
    from migrate_section_ok [OF step [unfolded Inr]]
    have e1: "extends send s calls c1 True"
      and x1: "\<exists>extra. c1 = calls @ extra \<and> (\<forall>c \<in> set extra. call_of_plan cfg e plan c)"
      by (auto intro: calls_of_plan)
    from Cons.IH [OF rest] have e2: "extends send s c1 calls' (is_completed r)"
      and x2: "\<exists>extra. calls' = c1 @ extra \<and>
        (\<forall>c \<in> set extra. \<exists>(e, plan) \<in> set acts. call_of_plan cfg e plan c)"
      by auto
    from x1 x2 ep have "\<exists>extra. calls' = calls @ extra \<and>
        (\<forall>c \<in> set extra. \<exists>(e, plan) \<in> set (ep # acts). call_of_plan cfg e plan c)"
      by fastforce
    with extends_trans [OF e1 e2] show ?thesis by blast
  qed
qed

type_synonym section_result = "string \<times> patch_action list \<times> patch_action list \<times> nat"

definition result_counts :: "section_result \<Rightarrow> string \<times> counts" where
  "result_counts x = (case x of (e, adds, upds, skipped) \<Rightarrow>
     (e, \<lparr>additions = length adds, updates = length upds, unchanged = skipped\<rparr>))"

definition result_calls :: "section_result \<Rightarrow> patch_call list" where
  "result_calls x = (case x of (e, adds, upds, skipped) \<Rightarrow> calls_of e adds @ calls_of e upds)"

definition result_of :: "(string, json) dict \<Rightarrow> section_result \<Rightarrow> string \<times> section_plan \<Rightarrow> bool" where
  "result_of cfg x ep = (case x of (e, adds, upds, skipped) \<Rightarrow>
     e = fst ep \<and> simple_adder e (to_add (snd ep)) = Inr adds \<and>
     section_aware_updater e (to_update (snd ep)) cfg = Inr (upds, skipped))"

lemma result_simps [simp]:
  "result_counts (e, adds, upds, skipped) =
     (e, \<lparr>additions = length adds, updates = length upds, unchanged = skipped\<rparr>)"
  "result_calls (e, adds, upds, skipped) = calls_of e adds @ calls_of e upds"
  "result_of cfg (e, adds, upds, skipped) (e', plan) \<longleftrightarrow> e = e' \<and>
     simple_adder e (to_add plan) = Inr adds \<and> section_aware_updater e (to_update plan) cfg = Inr (upds, skipped)"
  by (simp_all add: result_counts_def result_calls_def result_of_def)

lemma migrate_sections_completed:
  "migrate_sections send s cfg acts cs0 calls = (calls', Completed cs) \<Longrightarrow>
     distinct (map fst acts) \<Longrightarrow> list_all (\<lambda>ep. dget cs0 (fst ep) = None) acts \<Longrightarrow>
     \<exists>rs. cs = cs0 @ map result_counts rs \<and> calls' = calls @ concat (map result_calls rs) \<and>
       list_all2 (result_of cfg) rs acts"
proof (induction acts arbitrary: cs0 calls)
  case Nil
  then show ?case by auto
next
  case (Cons ep acts)
  obtain e plan where ep: "ep = (e, plan)" by (cases ep)
  from Cons.prems ep obtain c1 c where step: "migrate_section send s cfg e plan calls = (c1, Inr c)"
    and rest: "migrate_sections send s cfg acts (dset cs0 e c) c1 = (calls', Completed cs)"
    by (auto split: prod.splits sum.splits dest!: migrate_section_end)
  obtain adds upds skipped where x: "simple_adder e (to_add plan) = Inr adds"
    "section_aware_updater e (to_update plan) cfg = Inr (upds, skipped)"
    "c1 = calls @ calls_of e adds @ calls_of e upds"
    "c = \<lparr>additions = length adds, updates = length upds, unchanged = skipped\<rparr>"
    using migrate_section_ok [OF step] by auto
  have new: "dset cs0 e c = cs0 @ [(e, c)]" using Cons.prems(3) ep by (simp add: dset_new)
  have "list_all (\<lambda>ep. dget (dset cs0 e c) (fst ep) = None) acts"
    using Cons.prems(2,3) ep by (auto simp: list_all_iff pd.get_put image_iff)
  then obtain rs where "cs = dset cs0 e c @ map result_counts rs"
    "calls' = c1 @ concat (map result_calls rs)" "list_all2 (result_of cfg) rs acts"
    using Cons.IH [OF rest] Cons.prems(2) by auto
  with x new ep show ?case
    by (intro exI [of _ "(e, adds, upds, skipped) # rs"])
       simp
qed

section \<open>Plans and calls\<close>

lemma plan_for_objects:
  assumes "section_ok od sec" "plan_for od av sec plan"
  shows "all_objects (to_add plan)" "all_objects (to_update plan)"
proof -
  have "is_obj v" if "dget (section_of od sec) k = Some v" for k v
    using assms(1) dget_Some_in [OF that] by (auto simp: section_ok_def all_objects_def list_all_iff)
  with assms(2) show "all_objects (to_add plan)" "all_objects (to_update plan)"
    unfolding plan_for_def plan_exact_def all_objects_def list_all_iff
    by (metis dget_in_ok prod.collapse)+
qed

text \<open>Where an action of a planned call comes from.\<close>

lemma call_of_plan_action:
  assumes "section_ok od sec" "plan_for od av sec plan" "call_of_plan cfg sec plan call"
    "act \<in> set (snd call)"
  shows "\<exists>k v. pa_path act = ''/'' @ k \<and>
    (pa_op act = ''add'' \<and> dget (to_add plan) k = Some v \<and> act = add_action (k, v) \<or>
     pa_op act = ''replace'' \<and> dget (to_update plan) k = Some v \<and>
       (\<exists>aiven x. dget cfg sec = Some aiven \<and> update_value sec aiven (k, v) = Inr (Some x) \<and> pa_value act = x))"
proof -
  have ok: "dict_ok (to_add plan)" "dict_ok (to_update plan)"
    using assms(2) by (simp_all add: plan_for_def plan_exact_def)
  from assms(3) consider
      "simple_adder sec (to_add plan) = Inr (snd call)"
    | skipped where "section_aware_updater sec (to_update plan) cfg = Inr (snd call, skipped)"
    by (auto simp: call_of_plan_def)
  then show ?thesis
  proof cases
    case 1
    then have "snd call = map add_action (to_add plan)"
      using plan_for_objects(1) [OF assms(1,2)] by (simp add: simple_adder_total)
    with assms(4) obtain k v where kv: "(k, v) \<in> set (to_add plan)" "act = add_action (k, v)"
      by auto
    moreover from kv(1) have "dget (to_add plan) k = Some v"
      by (rule dget_in_ok [OF ok(1)])
    ultimately show ?thesis by (auto simp: add_action_def)
  next
    case 2
    from updater_action [OF this assms(4)] show ?thesis
      using dget_in_ok [OF ok(2)] by fastforce
  qed
qed

lemma plan_for_iff:
  assumes "plan_for od av sec plan"
  shows "dget (to_add plan) k = Some v \<longleftrightarrow>
      dget (section_of od sec) k = Some v \<and> \<not> flagged [''reserved'', ''static''] v \<and>
      k \<notin> untouchables_of sec \<and> dget (section_of av sec) k = None"
    and "dget (to_update plan) k = Some v \<longleftrightarrow>
      dget (section_of od sec) k = Some v \<and> \<not> flagged [''reserved'', ''static''] v \<and>
      k \<notin> untouchables_of sec \<and>
      (\<exists>w. dget (section_of av sec) k = Some w \<and> \<not> flagged [''reserved'', ''static'', ''hidden''] w)"
  using assms unfolding plan_for_def plan_exact_def movable_def by auto

lemma migrate_calls:
  assumes "set_order enum" "config_ok od" "config_ok av" "migrate enum send s od av = (calls, r)"
  shows "extends send s [] calls (is_completed r)"
    and "c \<in> set calls \<Longrightarrow> \<exists>plan. fst c \<in> set SECURITY_CONFIG_SECTIONS \<and> section_ok od (fst c) \<and>
      plan_for od av (fst c) plan \<and> call_of_plan av (fst c) plan c"
proof -
  obtain acts where acts: "analyze_security_configurations enum od av = Inr acts"
    "map fst acts = SECURITY_CONFIG_SECTIONS" "list_all (\<lambda>(sec, plan). plan_for od av sec plan) acts"
    using analyze_exact [OF assms(1-3)] by blast
  then have "acts \<noteq> []" by (auto simp: SECURITY_CONFIG_SECTIONS_def)
  with acts(1) assms(4) have run: "migrate_sections send s av acts [] [] = (calls, r)"
    by (simp add: migrate_def)
  from migrate_sections_calls [OF this] show "extends send s [] calls (is_completed r)" by simp
  assume "c \<in> set calls"
  with migrate_sections_calls [OF run] obtain e plan where "(e, plan) \<in> set acts" "call_of_plan av e plan c"
    by auto
  moreover from this have "e \<in> set SECURITY_CONFIG_SECTIONS"
    using acts(2) by (metis fst_conv image_eqI list.set_map)
  ultimately show "\<exists>plan. fst c \<in> set SECURITY_CONFIG_SECTIONS \<and> section_ok od (fst c) \<and>
      plan_for od av (fst c) plan \<and> call_of_plan av (fst c) plan c"
    using acts(3) assms(2) by (auto simp: list_all_iff config_ok_def call_of_plan_def)
qed

lemma call_of_plan_carries:
  assumes "section_ok od sec" "section_ok av sec" "plan_for od av sec plan" "call_of_plan av sec plan call"
    "act \<in> set (snd call)"
  shows "\<exists>k v d. pa_path act = ''/'' @ k \<and> dget (section_of od sec) k = Some (JObj v) \<and> pa_value act = JObj d \<and>
    \<not> flagged [''reserved'', ''static'', ''hidden''] (JObj d) \<and>
    (\<forall>f x. f \<notin> {''reserved'', ''static'', ''hidden''} \<and> dget v f = Some x \<longrightarrow> dget d f = Some x)"
proof -
  obtain k v where act: "pa_path act = ''/'' @ k"
    "act = add_action (k, v) \<and> dget (to_add plan) k = Some v \<or>
     dget (to_update plan) k = Some v \<and>
       (\<exists>x. update_value sec (JObj (section_of av sec)) (k, v) = Inr (Some x) \<and> pa_value act = x)"
    using call_of_plan_action [OF assms(1,3,4,5)] assms(2) by (auto simp: section_ok_def)
  then have od: "dget (section_of od sec) k = Some v"
    using plan_for_iff [OF assms(3)] by blast
  have "is_obj v" using dget_Some_in [OF od] assms(1) by (auto simp: section_ok_def all_objects_def list_all_iff)
  then obtain vd where v: "v = JObj vd" by (auto simp: is_obj_iff)
  have okv: "dict_ok vd"
    using dget_Some_in [OF od] assms(1) v by (fastforce simp: section_ok_def list_all_iff)
  from act(2) show ?thesis
  proof
    assume "act = add_action (k, v) \<and> dget (to_add plan) k = Some v"
    with act(1) od v show ?thesis
      using filter_fields_unflagged [of vd]
      by (auto simp: add_action_def the_obj_def filter_fields_get)
  next
    assume "dget (to_update plan) k = Some v \<and>
       (\<exists>x. update_value sec (JObj (section_of av sec)) (k, v) = Inr (Some x) \<and> pa_value act = x)"
    then obtain w os' where u: "entry_changes sec (filter_fields vd) (filter_fields w) = Inr (os', True)"
      "pa_value act = JObj (dupdate (filter_fields w) os')"
      using v by (auto simp: update_value_Some)
    from entry_changes_values [OF u(1)] okv have os: "dict_ok os'"
      "\<And>f. f \<noteq> ''users'' \<Longrightarrow> dget os' f = dget (filter_fields vd) f"
      "\<And>f x. dget (filter_fields vd) f = Some x \<Longrightarrow> dget os' f = Some x"
      by (auto simp: with_users_ok filter_fields_ok with_users_other intro: with_users_get)
    have "\<not> flagged [''reserved'', ''static'', ''hidden''] (JObj (dupdate (filter_fields w) os'))"
      by (simp add: unflagged_get dget_or_def dget_dupdate_ok [OF os(1)] os(2) filter_fields_get)
    with act(1) od v u(2) os(3) show ?thesis
      by (auto simp: dget_dupdate_ok [OF os(1)] filter_fields_get)
  qed
qed

lemma sum_list_calls_other:
  "e \<notin> fst ` set rs \<Longrightarrow>
     filter (\<lambda>c. fst c = e) (concat (map result_calls rs)) = []"
  by (induction rs) (auto simp: result_calls_def calls_of_def filter_empty_conv split: prod.splits)

lemma sum_list_calls:
  "distinct (map fst rs) \<Longrightarrow> (e, adds, upds, skipped) \<in> set rs \<Longrightarrow>
     sum_list (map (\<lambda>c. length (snd c)) (filter (\<lambda>c. fst c = e) (concat (map result_calls rs)))) =
       length adds + length upds"
proof (induction rs)
  case Nil
  then show ?case by simp
next
  case (Cons r rs)
  obtain e1 a1 u1 n1 where r: "r = (e1, a1, u1, n1)" by (cases r)
  have own: "filter (\<lambda>c. fst c = e) (calls_of e x) = calls_of e x"
    "e \<noteq> e' \<Longrightarrow> filter (\<lambda>c. fst c = e) (calls_of e' x) = []"
    "sum_list (map (\<lambda>c. length (snd c)) (calls_of e x)) = length x" for e e' x
    by (simp_all add: calls_of_def)
  show ?case
  proof (cases "e1 = e")
    case True
    with Cons.prems r have "(e, adds, upds, skipped) = r" "e \<notin> fst ` set rs"
      by (auto simp: image_iff)
    with r show ?thesis by (simp add: sum_list_calls_other own)
  next
    case False
    with Cons r show ?thesis by (simp add: own)
  qed
qed

lemma card_dict: "dict_ok d \<Longrightarrow> card {k. dget d k \<noteq> None} = length d"
proof -
  assume "dict_ok d"
  moreover have "{k. dget d k \<noteq> None} = set (map fst d)"
    by (rule set_eqI) (simp only: in_names_iff mem_Collect_eq set_map)
  ultimately show ?thesis
    by (metis dict_ok_def distinct_card length_map)
qed

section \<open>A run that cannot complete\<close>

lemma migrate_section_updater_raises:
  assumes "section_aware_updater e (to_update plan) cfg = Inl x"
    and "migrate_section send s cfg e plan calls = (calls', r)"
  shows "\<exists>y. r = Inl y \<and> \<not> is_completed y"
  using assms by (auto simp: migrate_section_def handled_def is_completed_def send_actions_def
      split: prod.splits sum.splits if_splits ending.splits)

lemma migrate_sections_append:
  "migrate_sections send s cfg (pre @ post) cs calls =
     (case migrate_sections send s cfg pre cs calls of
        (calls', Completed cs') \<Rightarrow> migrate_sections send s cfg post cs' calls'
      | r \<Rightarrow> r)"
proof (induction pre arbitrary: cs calls)
  case Nil
  then show ?case by simp
next
  case (Cons ep pre)
  obtain e plan where ep: "ep = (e, plan)" by (cases ep)
  obtain c1 r1 where step: "migrate_section send s cfg e plan calls = (c1, r1)" by (metis surj_pair)
  show ?case
  proof (cases r1)
    case (Inl x)
    with migrate_section_end [OF step [unfolded Inl]] ep step show ?thesis
      by (auto split: ending.splits)
  next
    case (Inr c)
    with ep step Cons.IH show ?thesis by simp
  qed
qed

end
