(* ===== verification/SecurityProps.thy ===== *)
theory SecurityProps
  imports SecurityMain "HOL-Library.List_Lexorder" "HOL-Library.Char_ord"
begin

text \<open>
  The properties of the security migration, and a run on small configurations on which each is
  applied. Sets are iterated in sorted order there, which is one of the orders Python may
  choose.
\<close>

section \<open>Properties\<close>

text \<open>C1. For configurations whose sections are objects of objects, the analysis never raises and plans the five
  sections in order. A plan holds entries of Opendistro only, with their Opendistro values, and for the entries that are not
  hidden in Opendistro it is exact: an entry is planned if and only if it
  is not reserved or static in Opendistro, not reserved, static or hidden in Aiven and not
  predefined as untouchable; it is added when Aiven lacks it and updated when Aiven has it. (What becomes of the
  hidden ones is said below.)\<close>

theorem analysis_exact:
  assumes "set_order enum" "config_ok opendistro" "config_ok aiven"
  shows "\<exists>acts. analyze_security_configurations enum opendistro aiven = Inr acts \<and>
    map fst acts = SECURITY_CONFIG_SECTIONS \<and>
    (\<forall>(sec, plan) \<in> set acts. \<forall>k v.
       (dget (to_add plan) k = Some v \<or> dget (to_update plan) k = Some v \<longrightarrow> dget (section_of opendistro sec) k = Some v) \<and>
       (dget (section_of opendistro sec) k = Some v \<and> \<not> flagged [''hidden''] v \<longrightarrow>
          (dget (to_add plan) k = Some v \<longleftrightarrow>
             \<not> flagged [''reserved'', ''static''] v \<and> k \<notin> untouchables_of sec \<and> dget (section_of aiven sec) k = None) \<and>
          (dget (to_update plan) k = Some v \<longleftrightarrow>
             \<not> flagged [''reserved'', ''static''] v \<and> k \<notin> untouchables_of sec \<and>
             (\<exists>w. dget (section_of aiven sec) k = Some w \<and> \<not> flagged [''reserved'', ''static'', ''hidden''] w))))"
proof -
  obtain acts where acts: "analyze_security_configurations enum opendistro aiven = Inr acts"
    "map fst acts = SECURITY_CONFIG_SECTIONS"
    "list_all (\<lambda>(sec, plan). plan_for opendistro aiven sec plan) acts"
    using analyze_exact [OF assms] by blast
  show ?thesis
    using acts plan_for_iff by (intro exI [of _ acts]) (fastforce simp: list_all_iff)
qed

text \<open>C3. However a run of the migration ends, every action it sent adds an entry that Aiven
  lacks or replaces one that Aiven has, under the entry's own path, and the entry is
  neither reserved or static in Opendistro, nor reserved, static or hidden in Aiven, nor
  predefined as untouchable (such as the user os-sec-admin).\<close>

theorem protected_entries_untouched:
  assumes "set_order enum" "config_ok opendistro" "config_ok aiven"
    and "migrate enum send s opendistro aiven = (calls, r)"
    and "(sec, acts) \<in> set calls" "act \<in> set acts"
  shows "\<exists>k v. pa_path act = ''/'' @ k \<and> dget (section_of opendistro sec) k = Some v \<and>
    \<not> flagged [''reserved'', ''static''] v \<and> k \<notin> untouchables_of sec \<and>
    (pa_op act = ''add'' \<and> dget (section_of aiven sec) k = None \<or>
     pa_op act = ''replace'' \<and> (\<exists>w. dget (section_of aiven sec) k = Some w \<and>
       \<not> flagged [''reserved'', ''static'', ''hidden''] w))"
proof -
  obtain plan where p: "section_ok opendistro sec" "plan_for opendistro aiven sec plan"
    "call_of_plan aiven sec plan (sec, acts)"
    using migrate_calls(2) [OF assms(1-5)] by auto
  from call_of_plan_action [OF p] assms(6) plan_for_iff [OF p(2)] show ?thesis
    by fastforce
qed

lemma results_names: "list_all2 (result_of cfg) rs acts \<Longrightarrow> map fst rs = map fst acts"
  by (induction rule: list_all2_induct) (auto simp: result_of_def)

lemma results_counts_names: "map fst (map result_counts rs) = map fst rs"
  by (induction rs) (auto simp: result_counts_def)

lemma results_in:
  "list_all2 (result_of cfg) rs acts \<Longrightarrow> (e, adds, upds, skipped) \<in> set rs \<Longrightarrow>
     \<exists>plan. (e, plan) \<in> set acts \<and> simple_adder e (to_add plan) = Inr adds \<and>
       section_aware_updater e (to_update plan) cfg = Inr (upds, skipped)"
  by (induction rule: list_all2_induct) (auto simp: result_of_def)

lemma plan_names:
  assumes "plan_for od av sec plan"
  shows "{k. dget (to_add plan) k \<noteq> None} = {k. \<exists>v. dget (section_of od sec) k = Some v \<and>
      movable (section_of av sec) (untouchables_of sec) k v \<and> dget (section_of av sec) k = None}"
    and "{k. dget (to_update plan) k \<noteq> None} = {k. \<exists>v. dget (section_of od sec) k = Some v \<and>
      movable (section_of av sec) (untouchables_of sec) k v \<and> dget (section_of av sec) k \<noteq> None}"
  using assms by (auto simp: plan_for_def plan_exact_def)

lemma completed_results:
  assumes "set_order enum" "config_ok od" "config_ok av" "migrate enum send s od av = (calls, Completed cs)"
  shows "\<exists>rs. cs = map result_counts rs \<and> calls = concat (map result_calls rs) \<and>
    map fst rs = SECURITY_CONFIG_SECTIONS \<and>
    (\<forall>(sec, adds, upds, skipped) \<in> set rs. \<exists>plan. plan_for od av sec plan \<and>
       length adds = length (to_add plan) \<and> length upds + skipped = length (to_update plan))"
proof -
  obtain acts where acts: "analyze_security_configurations enum od av = Inr acts"
    "map fst acts = SECURITY_CONFIG_SECTIONS" "list_all (\<lambda>(sec, plan). plan_for od av sec plan) acts"
    using analyze_exact [OF assms(1-3)] by blast
  then have "acts \<noteq> []" by (auto simp: SECURITY_CONFIG_SECTIONS_def)
  with acts(1) assms(4) have run: "migrate_sections send s av acts [] [] = (calls, Completed cs)"
    by (simp add: migrate_def)
  have dist: "distinct (map fst acts)" by (simp add: acts(2) SECURITY_CONFIG_SECTIONS_def)
  obtain rs where rs: "cs = map result_counts rs" "calls = concat (map result_calls rs)"
    "list_all2 (result_of av) rs acts"
    using migrate_sections_completed [OF run dist] by (auto simp: list_all_iff)
  have "\<exists>plan. plan_for od av sec plan \<and>
       length adds = length (to_add plan) \<and> length upds + skipped = length (to_update plan)"
    if r: "(sec, adds, upds, skipped) \<in> set rs" for sec adds upds skipped
    using results_in [OF rs(3) r] acts(3)
    by (fastforce simp: list_all_iff simple_adder_def dest: rmap_length updater_counts)
  with rs results_names [OF rs(3)] acts(2) show ?thesis
    by (intro exI [of _ rs]) auto
qed

text \<open>C7. When the migration completes, every call it sent was accepted, and the summary is right:
  it lists the sections in order, and for each the additions are the movable entries Aiven
  lacks, the updated and the unchanged ones together are those Aiven has, and as many
  actions were sent for the section as it reports.\<close>

theorem completed_summary:
  assumes "set_order enum" "config_ok opendistro" "config_ok aiven"
    and "migrate enum send s opendistro aiven = (calls, Completed cs)"
  shows "(\<forall>i < length calls. accepted send s calls i) \<and> map fst cs = SECURITY_CONFIG_SECTIONS \<and>
    (\<forall>(sec, c) \<in> set cs.
       additions c = card {k. \<exists>v. dget (section_of opendistro sec) k = Some v \<and>
         movable (section_of aiven sec) (untouchables_of sec) k v \<and> dget (section_of aiven sec) k = None} \<and>
       updates c + unchanged c = card {k. \<exists>v. dget (section_of opendistro sec) k = Some v \<and>
         movable (section_of aiven sec) (untouchables_of sec) k v \<and> dget (section_of aiven sec) k \<noteq> None} \<and>
       sum_list (map (\<lambda>call. length (snd call)) (filter (\<lambda>call. fst call = sec) calls)) =
         additions c + updates c)"
proof -
  obtain rs where rs: "cs = map result_counts rs" "calls = concat (map result_calls rs)"
    "map fst rs = SECURITY_CONFIG_SECTIONS"
    "\<forall>(sec, adds, upds, skipped) \<in> set rs. \<exists>plan. plan_for opendistro aiven sec plan \<and>
       length adds = length (to_add plan) \<and> length upds + skipped = length (to_update plan)"
    using completed_results [OF assms] by blast
  have dist: "distinct (map fst rs)" by (simp add: rs(3) SECURITY_CONFIG_SECTIONS_def)
  have "\<forall>i < length calls. accepted send s calls i"
    using migrate_calls(1) [OF assms(1-4)] by (simp add: extends_def)
  moreover have "map fst cs = SECURITY_CONFIG_SECTIONS"
    by (simp only: rs(1,3) results_counts_names)
  moreover have "additions c = card {k. \<exists>v. dget (section_of opendistro sec) k = Some v \<and>
         movable (section_of aiven sec) (untouchables_of sec) k v \<and> dget (section_of aiven sec) k = None} \<and>
       updates c + unchanged c = card {k. \<exists>v. dget (section_of opendistro sec) k = Some v \<and>
         movable (section_of aiven sec) (untouchables_of sec) k v \<and> dget (section_of aiven sec) k \<noteq> None} \<and>
       sum_list (map (\<lambda>call. length (snd call)) (filter (\<lambda>call. fst call = sec) calls)) =
         additions c + updates c"
    if "(sec, c) \<in> set cs" for sec c
  proof -
    from that obtain adds upds skipped where r: "(sec, adds, upds, skipped) \<in> set rs"
      "c = \<lparr>additions = length adds, updates = length upds, unchanged = skipped\<rparr>"
      by (auto simp: rs(1) result_counts_def)
    then obtain plan where p: "plan_for opendistro aiven sec plan" "length adds = length (to_add plan)"
      "length upds + skipped = length (to_update plan)"
      using rs(4) by fastforce
    then have "card {k. dget (to_add plan) k \<noteq> None} = length adds"
      "card {k. dget (to_update plan) k \<noteq> None} = length upds + skipped"
      by (simp_all only: card_dict plan_for_def plan_exact_def)
    then show ?thesis
      using r(2) sum_list_calls [OF dist r(1)] unfolding plan_names [OF p(1)] rs(2) by simp
  qed
  ultimately show ?thesis by blast
qed

text \<open>The additions of a completed run, entry by entry.\<close>

lemma completed_additions:
  assumes "set_order enum" "config_ok od" "config_ok av" "migrate enum send s od av = (calls, Completed cs)"
    and "sec \<in> set SECURITY_CONFIG_SECTIONS" "dget (section_of od sec) k = Some v" "\<not> flagged [''reserved'', ''static''] v"
    and "k \<notin> untouchables_of sec" "dget (section_of av sec) k = None"
  shows "\<exists>acts. (sec, acts) \<in> set calls \<and> add_action (k, v) \<in> set acts"
proof -
  obtain acts where acts: "analyze_security_configurations enum od av = Inr acts"
    "map fst acts = SECURITY_CONFIG_SECTIONS" "list_all (\<lambda>(sec, plan). plan_for od av sec plan) acts"
    using analyze_exact [OF assms(1-3)] by blast
  then have "acts \<noteq> []" by (auto simp: SECURITY_CONFIG_SECTIONS_def)
  with acts(1) assms(4) have run: "migrate_sections send s av acts [] [] = (calls, Completed cs)"
    by (simp add: migrate_def)
  have dist: "distinct (map fst acts)" by (simp add: acts(2) SECURITY_CONFIG_SECTIONS_def)
  obtain rs where rs: "calls = concat (map result_calls rs)" "list_all2 (result_of av) rs acts"
    using migrate_sections_completed [OF run dist] by (auto simp: list_all_iff)
  from assms(5) results_names [OF rs(2)] acts(2) obtain x where "x \<in> set rs" "fst x = sec"
    by (metis (no_types, lifting) imageE list.set_map)
  then obtain adds upds skipped where x: "(sec, adds, upds, skipped) \<in> set rs" by (metis prod.collapse)
  from results_in [OF rs(2) x] obtain plan where p: "(sec, plan) \<in> set acts" "simple_adder sec (to_add plan) = Inr adds" by blast
  then have pf: "plan_for od av sec plan" using acts(3) by (auto simp: list_all_iff)
  have "section_ok od sec" using assms(2,5) by (simp add: config_ok_def list_all_iff)
  from simple_adder_total [OF plan_for_objects(1) [OF this pf]] p(2) have adds: "adds = map add_action (to_add plan)" by simp
  have "dget (to_add plan) k = Some v" using plan_for_iff(1) [OF pf] assms(6-9) by blast
  then have "(k, v) \<in> set (to_add plan)" by (rule dget_Some_in)
  then have "add_action (k, v) \<in> set adds" by (force simp: adds)
  moreover from this x have "(sec, adds) \<in> set calls"
    by (force simp: rs(1) calls_of_def intro!: bexI [of _ "(sec, adds, upds, skipped)"])
  ultimately show ?thesis by blast
qed

text \<open>C2. Entries that are hidden in Opendistro are migrated, although the README says that they are not: in a completed run each
  of them that is not reserved, static or untouchable and that Aiven lacks was added, with its flag cleared, so that the
  hidden entry has become a visible one.\<close>

theorem hidden_entries_sent:
  assumes "set_order enum" "config_ok opendistro" "config_ok aiven"
    and "migrate enum send s opendistro aiven = (calls, Completed cs)"
    and "sec \<in> set SECURITY_CONFIG_SECTIONS" "dget (section_of opendistro sec) k = Some (JObj d)" "flagged [''hidden''] (JObj d)"
    and "\<not> flagged [''reserved'', ''static''] (JObj d)" "k \<notin> untouchables_of sec" "dget (section_of aiven sec) k = None"
  shows "\<exists>acts v. (sec, acts) \<in> set calls \<and> \<lparr>pa_op = ''add'', pa_path = ''/'' @ k, pa_value = JObj v\<rparr> \<in> set acts \<and>
    dget v ''hidden'' = Some (JBool False)"
proof -
  from completed_additions [OF assms(1-6,8-10)] obtain acts where "(sec, acts) \<in> set calls" "add_action (k, JObj d) \<in> set acts" by blast
  moreover have "add_action (k, JObj d) = \<lparr>pa_op = ''add'', pa_path = ''/'' @ k, pa_value = JObj (filter_fields d)\<rparr>"
    by (simp add: add_action_def the_obj_def)
  moreover have "dget (filter_fields d) ''hidden'' = Some (JBool False)"
    using assms(7) by (auto simp: filter_fields_get flagged_def dget_or_def split: option.splits)
  ultimately show ?thesis by metis
qed

text \<open>C8. Every object the migration sends carries the Opendistro entry: each of its fields with
  its value, but for \<open>reserved\<close>, \<open>static\<close> and \<open>hidden\<close>, none of which is set in the object sent.\<close>

theorem sent_values_carry_source:
  assumes "set_order enum" "config_ok opendistro" "config_ok aiven"
    and "migrate enum send s opendistro aiven = (calls, r)"
    and "(sec, acts) \<in> set calls" "act \<in> set acts"
  shows "\<exists>k v d. pa_path act = ''/'' @ k \<and> dget (section_of opendistro sec) k = Some (JObj v) \<and>
    pa_value act = JObj d \<and> \<not> flagged [''reserved'', ''static'', ''hidden''] (JObj d) \<and>
    (\<forall>f x. f \<notin> {''reserved'', ''static'', ''hidden''} \<and> dget v f = Some x \<longrightarrow> dget d f = Some x)"
proof -
  obtain plan where p: "sec \<in> set SECURITY_CONFIG_SECTIONS" "section_ok opendistro sec"
    "plan_for opendistro aiven sec plan" "call_of_plan aiven sec plan (sec, acts)"
    using migrate_calls(2) [OF assms(1-5)] by auto
  have "section_ok aiven sec" using assms(3) p(1) by (auto simp: config_ok_def list_all_iff)
  from call_of_plan_carries [OF p(2) this p(3,4)] assms(6) show ?thesis by simp
qed

text \<open>C22. No run takes a role away from os-sec-admin: a replacement sent for a role mapping whose
  users in Aiven include os-sec-admin has users that include it.\<close>

theorem manager_stays_mapped:
  assumes "set_order enum" "config_ok opendistro" "config_ok aiven"
    and "migrate enum send s opendistro aiven = (calls, r)"
    and "(''rolesmapping'', acts) \<in> set calls" "act \<in> set acts"
    and "pa_op act = ''replace''" "pa_path act = ''/'' @ k"
    and "dget (section_of aiven ''rolesmapping'') k = Some (JObj w)"
    and "dget w ''users'' = Some users" "py_in AIVEN_SECURITY_MANAGER users = Inr True"
  shows "\<exists>d users'. pa_value act = JObj d \<and> dget d ''users'' = Some users' \<and>
    py_in AIVEN_SECURITY_MANAGER users' = Inr True"
proof -
  let ?sec = "''rolesmapping''"
  obtain plan where p: "section_ok opendistro ?sec" "plan_for opendistro aiven ?sec plan"
    "call_of_plan aiven ?sec plan (?sec, acts)"
    using migrate_calls(2) [OF assms(1-5)] by auto
  have av: "section_ok aiven ?sec" using assms(3) by (simp add: config_ok_def SECURITY_CONFIG_SECTIONS_def)
  obtain k' where "pa_path act = ''/'' @ k'" "\<exists>v x aiven_sec. dget (to_update plan) k' = Some v \<and>
      dget aiven ?sec = Some aiven_sec \<and> update_value ?sec aiven_sec (k', v) = Inr (Some x) \<and> pa_value act = x"
    using call_of_plan_action [OF p, of act] assms(6,7) by auto
  then obtain v x aiven_sec where
    "dget (to_update plan) k = Some v" "dget aiven ?sec = Some aiven_sec"
    "update_value ?sec aiven_sec (k, v) = Inr (Some x)" "pa_value act = x"
    using assms(8) by auto
  with av assms(9) obtain d os' where u: "v = JObj d" "dget (to_update plan) k = Some (JObj d)"
    "rolesmapping_changes (filter_fields d) (filter_fields w) = Inr (os', True)"
    "pa_value act = JObj (dupdate (filter_fields w) os')"
    by (auto simp: section_ok_def update_value_Some entry_changes_def)
  have "dget (section_of opendistro ?sec) k = Some (JObj d)"
    using u(2) plan_for_iff [OF p(2)] by blast
  from dget_Some_in [OF this] p(1) have "dict_ok d"
    by (fastforce simp: section_ok_def list_all_iff)
  then have "dict_ok os'"
    using rolesmapping_changes_Inr [OF u(3)] by (simp add: with_users_ok filter_fields_ok)
  moreover have "dget (filter_fields w) ''users'' = Some users"
    using assms(10) by (simp add: filter_fields_get)
  ultimately show ?thesis
    using rolesmapping_changes_Inr [OF u(3)] u(4) assms(11)
    by (auto simp: dget_dupdate_ok)
qed

lemma rmap_raises: "x \<in> set xs \<Longrightarrow> f x = Inl e \<Longrightarrow> \<exists>e'. rmap f xs = Inl e'"
  by (induction xs) (auto simp: rbind_def split: sum.splits)

lemma updater_raises:
  assumes "dget entries k = Some v" "dget cfg sec = Some aiven" "update_value sec aiven (k, v) = Inl e"
  shows "\<exists>x. section_aware_updater sec entries cfg = Inl x"
proof -
  have "entries \<noteq> []" using assms(1) by auto
  moreover obtain x where "rmap (update_value sec aiven) entries = Inl x"
    using rmap_raises [of "(k, v)" entries "update_value sec aiven"] dget_Some_in [OF assms(1)] assms(3) by blast
  ultimately show ?thesis
    using assms(2) by (simp add: section_aware_updater_def updater_loop_eq ditem_def)
qed

lemma updater_Inl:
  assumes "section_aware_updater sec entries cfg = Inl e" "dget cfg sec = Some aiven"
  shows "\<exists>kv \<in> set entries. update_value sec aiven kv = Inl e"
proof -
  have "rmap f xs = Inl e \<Longrightarrow> \<exists>x \<in> set xs. f x = Inl e" for f :: "string \<times> json \<Rightarrow> json option res" and xs
    by (induction xs) (auto simp: rbind_eq_Inl)
  with assms show ?thesis
    by (auto simp: section_aware_updater_def updater_loop_eq ditem_def rbind_eq_Inl split: if_splits)
qed

text \<open>When every call was accepted, a section that ends the script raised in its updater.\<close>

lemma send_actions_refused:
  "send_actions send s entry rej fl calls (Inr acts) = (calls', Inl e) \<Longrightarrow> \<exists>i<length calls'. \<not> accepted send s calls' i"
  by (rule exI [of _ "length calls"]) (auto simp: send_actions_def accepted_def split: sum.splits if_splits)

lemma migrate_section_accepted_end:
  assumes "migrate_section send s cfg entry plan calls = (calls', Inl e)" "\<forall>i<length calls'. accepted send s calls' i"
    and "simple_adder entry (to_add plan) = Inr adds"
  shows "\<exists>x. section_aware_updater entry (to_update plan) cfg = Inl x \<and> e = handled (UpdateFailed entry) x"
proof -
  obtain c1 r1 where s1: "send_actions send s entry AddRejected AddFailed calls (Inr adds) = (c1, r1)" by (metis surj_pair)
  show ?thesis
  proof (cases r1)
    case (Inl y)
    with s1 assms have "c1 = calls'" by (simp add: migrate_section_def)
    with send_actions_refused [OF s1 [unfolded Inl]] assms(2) show ?thesis by auto
  next
    case (Inr y)
    show ?thesis
    proof (cases "section_aware_updater entry (to_update plan) cfg")
      case (Inl x)
      with s1 Inr assms show ?thesis by (simp add: migrate_section_def)
    next
      case u: (Inr us)
      obtain upds skipped where us: "us = (upds, skipped)" by (cases us)
      obtain c2 r2 where s2: "send_actions send s entry UpdateRejected UpdateFailed c1 (Inr upds) = (c2, r2)" by (metis surj_pair)
      with s1 Inr u us assms have "r2 = Inl e" "c2 = calls'" by (auto simp: migrate_section_def split: sum.splits)
      with send_actions_refused [of send s entry UpdateRejected UpdateFailed c1 upds c2 e] s2 assms(2) show ?thesis by auto
    qed
  qed
qed

text \<open>Every mapping of a role has a list of users, which Opendistro may leave out, and no role is empty in Aiven.\<close>

definition mappings_readable :: "(string, json) dict \<Rightarrow> (string, json) dict \<Rightarrow> bool" where
  "mappings_readable opendistro aiven \<longleftrightarrow>
     (\<forall>k d. dget (section_of opendistro ''rolesmapping'') k = Some (JObj d) \<longrightarrow> (\<exists>us. dget_or d ''users'' (JList []) = JList us)) \<and>
     (\<forall>k w. dget (section_of aiven ''rolesmapping'') k = Some (JObj w) \<longrightarrow> (\<exists>us. dget w ''users'' = Some (JList us))) \<and>
     (\<forall>k. dget (section_of aiven ''roles'') k \<noteq> Some (JObj []))"

text \<open>What an entry of a plan is, and the exceptions of an update.\<close>

lemma planned_update:
  assumes "section_ok opendistro sec" "section_ok aiven sec" "plan_for opendistro aiven sec plan" "kv \<in> set (to_update plan)"
  obtains k d w where "kv = (k, JObj d)" "dget (section_of opendistro sec) k = Some (JObj d)" "dget (section_of aiven sec) k = Some (JObj w)"
proof -
  obtain k v where kv: "kv = (k, v)" by force
  have "dict_ok (to_update plan)" using assms(3) by (simp add: plan_for_def plan_exact_def)
  from dget_in_ok [OF this] assms(4) kv have "dget (to_update plan) k = Some v" by simp
  then obtain w where v: "dget (section_of opendistro sec) k = Some v" "dget (section_of aiven sec) k = Some w"
    using plan_for_iff [OF assms(3)] by blast
  then have "is_obj v" "is_obj w"
    using dget_Some_in [OF v(1)] dget_Some_in [OF v(2)] assms(1,2) by (auto simp: section_ok_def all_objects_def list_all_iff)
  with that kv v show thesis by (auto simp: is_obj_iff)
qed

lemma update_value_raises:
  assumes "dget av k = Some (JObj w)" "w \<noteq> []" "update_value sec (JObj av) (k, JObj d) = Inl e"
  shows "sec = ''rolesmapping'' \<and> rolesmapping_changes (filter_fields d) (filter_fields w) = Inl e"
  using assms by (auto simp: update_value_def get_filtered_for_migration_def py_get_def dget_or_def entry_changes_def
      inplace_filter_non_migratable_fields_def rbind_eq_Inl split: if_splits)

lemma rolesmapping_changes_raises:
  assumes "dget_or d ''users'' (JList []) = JList us" "dget w ''users'' = Some (JList us')"
    and "rolesmapping_changes (filter_fields d) (filter_fields w) = Inl e"
  shows "e = AttributeError ''add''"
proof -
  have "dget (with_users (filter_fields d)) ''users'' = Some (JList us)"
    using assms(1) by (auto simp: with_users_def pd.get_put filter_fields_get dget_or_def split: option.splits)
  moreover have "dget (filter_fields w) ''users'' = Some (JList us')" using assms(2) by (simp add: filter_fields_get)
  ultimately show ?thesis
    using assms(3) by (auto simp: rolesmapping_changes_def ditem_def py_in_def rbind_eq_Inl Let_def split: if_splits)
qed

lemma manager_update_raises:
  assumes "plan_for opendistro aiven ''rolesmapping'' plan"
    and "dget (section_of opendistro ''rolesmapping'') k = Some (JObj d)"
    and "\<not> flagged [''reserved'', ''static''] (JObj d)" "k \<noteq> ''manage_snapshots''"
    and "dget (section_of aiven ''rolesmapping'') k = Some (JObj w)"
    and "\<not> flagged [''reserved'', ''static'', ''hidden''] (JObj w)"
    and "dget w ''users'' = Some users" "py_in AIVEN_SECURITY_MANAGER users = Inr True"
    and "dget_or d ''users'' (JList []) = JList us" "JStr AIVEN_SECURITY_MANAGER \<notin> set us"
    and "dget aiven ''rolesmapping'' = Some (JObj (section_of aiven ''rolesmapping''))"
  shows "\<exists>x. section_aware_updater ''rolesmapping'' (to_update plan) aiven = Inl x"
proof -
  have "k \<notin> untouchables_of ''rolesmapping''"
    using assms(4) by (simp add: untouchables_of_def PREDEFINED_UNTOUCHABLES_def)
  then have upd: "dget (to_update plan) k = Some (JObj d)"
    using assms(2,3,5,6) by (simp add: plan_for_iff [OF assms(1)])
  have "w \<noteq> []" using assms(7) by auto
  moreover have "dget (filter_fields w) ''users'' = Some users"
    using assms(7) by (simp add: filter_fields_get)
  moreover have "dget (with_users (filter_fields d)) ''users'' = Some (JList us)"
    using assms(9) by (auto simp: with_users_def pd.get_put filter_fields_get dget_or_def split: option.splits)
  ultimately have "update_value ''rolesmapping'' (JObj (section_of aiven ''rolesmapping'')) (k, JObj d) = Inl (AttributeError ''add'')"
    using rolesmapping_changes_add [of "filter_fields w" users "filter_fields d" "JList us"] assms(5,8,10)
    by (simp add: update_value_def get_filtered_for_migration_def py_get_def dget_or_def
        inplace_filter_non_migratable_fields_def entry_changes_def py_in_def)
  from updater_raises [OF upd assms(11) this] show ?thesis .
qed

text \<open>C31. Where Aiven maps os-sec-admin to a role and the Opendistro mapping of that role has a
  list of users without it, or none, the migration cannot complete, whatever the service
  replies, and the action groups, the tenants and the internal users are never sent. When the mappings can be read and the
  service accepts every call that is made, it is \<open>AttributeError\<close> that ends it, in the update of the role mappings: the statement
  that is to keep os-sec-admin calls \<open>add\<close> on a list.\<close>

theorem manager_mapping_aborts:
  assumes "set_order enum" "config_ok opendistro" "config_ok aiven"
    and "dget (section_of opendistro ''rolesmapping'') k = Some (JObj d)"
    and "\<not> flagged [''reserved'', ''static''] (JObj d)" "k \<noteq> ''manage_snapshots''"
    and "dget (section_of aiven ''rolesmapping'') k = Some (JObj w)"
    and "\<not> flagged [''reserved'', ''static'', ''hidden''] (JObj w)"
    and "dget w ''users'' = Some users" "py_in AIVEN_SECURITY_MANAGER users = Inr True"
    and "dget_or d ''users'' (JList []) = JList us" "JStr AIVEN_SECURITY_MANAGER \<notin> set us"
    and "migrate enum send s opendistro aiven = (calls, r)"
  shows "\<not> is_completed r \<and> (\<forall>call \<in> set calls. fst call \<in> {''roles'', ''rolesmapping''}) \<and>
    (mappings_readable opendistro aiven \<and> (\<forall>i<length calls. accepted send s calls i) \<longrightarrow>
       r = UpdateFailed ''rolesmapping'' (AttributeError ''add''))"
proof -
  let ?sec = "''rolesmapping''"
  obtain acts where acts: "analyze_security_configurations enum opendistro aiven = Inr acts"
    "map fst acts = SECURITY_CONFIG_SECTIONS" "list_all (\<lambda>(sec, plan). plan_for opendistro aiven sec plan) acts"
    using analyze_exact [OF assms(1-3)] by blast
  then obtain p1 p2 rest where a: "acts = (''roles'', p1) # (?sec, p2) # rest"
    by (auto simp: SECURITY_CONFIG_SECTIONS_def map_eq_Cons_conv)
  with acts(1) assms(13) have run: "migrate_sections send s aiven acts [] [] = (calls, r)"
    by (simp add: migrate_def)
  have ok: "section_ok opendistro ''roles''" "section_ok aiven ''roles''" "section_ok opendistro ?sec" "section_ok aiven ?sec"
    using assms(2,3) by (simp_all add: config_ok_def SECURITY_CONFIG_SECTIONS_def)
  have av: "dget aiven ''roles'' = Some (JObj (section_of aiven ''roles''))" "dget aiven ?sec = Some (JObj (section_of aiven ?sec))"
    using ok(2,4) by (simp_all add: section_ok_def)
  have plans: "plan_for opendistro aiven ''roles'' p1" "plan_for opendistro aiven ?sec p2" using acts(3) a by simp_all
  note adds = simple_adder_total [OF plan_for_objects(1) [OF ok(1) plans(1)]] simple_adder_total [OF plan_for_objects(1) [OF ok(3) plans(2)]]
  obtain x where raises: "section_aware_updater ?sec (to_update p2) aiven = Inl x"
    using manager_update_raises [OF plans(2) assms(4-12) av(2)] by blast
  have add_error: "x = AttributeError ''add''" if "mappings_readable opendistro aiven"
  proof -
    from updater_Inl [OF raises av(2)] obtain kv where kv: "kv \<in> set (to_update p2)"
      "update_value ?sec (JObj (section_of aiven ?sec)) kv = Inl x" by blast
    obtain k d w where e: "kv = (k, JObj d)" "dget (section_of opendistro ?sec) k = Some (JObj d)" "dget (section_of aiven ?sec) k = Some (JObj w)"
      using planned_update [OF ok(3,4) plans(2) kv(1)] .
    with that obtain us us' where u: "dget_or d ''users'' (JList []) = JList us" "dget w ''users'' = Some (JList us')"
      unfolding mappings_readable_def by blast
    then have "w \<noteq> []" by auto
    from update_value_raises [OF e(3) this] kv(2) e(1) rolesmapping_changes_raises [OF u] show ?thesis by blast
  qed
  have roles_ok: "section_aware_updater ''roles'' (to_update p1) aiven \<noteq> Inl y" if "mappings_readable opendistro aiven" for y
  proof
    assume "section_aware_updater ''roles'' (to_update p1) aiven = Inl y"
    from updater_Inl [OF this av(1)] obtain kv where kv: "kv \<in> set (to_update p1)"
      "update_value ''roles'' (JObj (section_of aiven ''roles'')) kv = Inl y" by blast
    obtain k d w where e: "kv = (k, JObj d)" "dget (section_of aiven ''roles'') k = Some (JObj w)"
      using planned_update [OF ok(1,2) plans(1) kv(1)] by metis
    with that have "w \<noteq> []" by (auto simp: mappings_readable_def)
    from update_value_raises [OF e(2) this kv(2) [unfolded e(1)]] show False by simp
  qed
  obtain c1 r1 where s1: "migrate_section send s aiven ''roles'' p1 [] = (c1, r1)" by (metis surj_pair)
  have c1: "\<forall>call \<in> set c1. fst call = ''roles''"
    using migrate_section_end [of send s aiven "''roles''" p1 "[]"] migrate_section_ok [of send s aiven "''roles''" p1 "[]"] s1
    by (cases r1) (fastforce simp: call_of_plan_def calls_of_def split: if_splits)+
  show ?thesis
  proof (cases r1)
    case (Inl y)
    then have same: "calls = c1" "r = y" using run s1 a by simp_all
    note e = migrate_section_end [OF s1 [unfolded Inl]] migrate_section_accepted_end [OF s1 [unfolded Inl] _ adds(1)]
    then show ?thesis using same c1 roles_ok by (auto simp: is_completed_def split: ending.splits)
  next
    case (Inr c)
    obtain c2 r2 where s2: "migrate_section send s aiven ?sec p2 c1 = (c2, r2)" by (metis surj_pair)
    obtain y where y: "r2 = Inl y" "\<not> is_completed y"
      using migrate_section_updater_raises [OF raises s2] by blast
    then have same: "calls = c2" "r = y" using run s1 s2 a Inr by simp_all
    note e = migrate_section_end [OF s2 [unfolded y(1)]] migrate_section_accepted_end [OF s2 [unfolded y(1)] _ adds(2)]
    have "r = UpdateFailed ?sec (AttributeError ''add'')"
      if "mappings_readable opendistro aiven" "\<forall>i<length calls. accepted send s calls i"
      using e(2) that raises add_error same by (auto simp: handled_def is_Exception_def)
    moreover have "\<forall>call \<in> set calls. fst call \<in> {''roles'', ?sec}"
      using e(1) same c1 by (fastforce simp: call_of_plan_def)
    ultimately show ?thesis using y same by simp
  qed
qed

text \<open>C16. Whatever the service replies, no call follows one that failed or was rejected: every
  call but the last was accepted, and all were when the migration completes.\<close>

theorem stops_at_first_failure:
  assumes "migrate enum send s opendistro aiven = (calls, r)"
  shows "(\<forall>i. Suc i < length calls \<longrightarrow> accepted send s calls i) \<and>
    (is_completed r \<longrightarrow> (\<forall>i. i < length calls \<longrightarrow> accepted send s calls i))"
proof (cases "calls = []")
  case False
  with assms obtain acts where "migrate_sections send s aiven acts [] [] = (calls, r)"
    by (auto simp: migrate_def split: sum.splits if_splits)
  from migrate_sections_calls [OF this] show ?thesis
    by (cases "is_completed r") (auto simp: extends_def)
qed simp

text \<open>Reading a section of the Opendistro configuration decodes the stored document: for the
  Base64 text of bytes that hold a JSON object, the result is that object without its
  \<open>_meta\<close>, provided \<open>_meta\<close> is there and says version 2 and the type asked for; otherwise
  the script raises.\<close>

theorem opendistro_get_document:
  assumes "get_json net s (s_api s @ ''/'' @ entry) = Inr (JObj reply)"
    and "dget reply ''_id'' = Some (JStr entry)" "dget reply ''_source'' = Some (JObj src)"
    and "dget src entry = Some (JStr (b64encode bs))" "loads bs = Inr (JObj doc)"
  shows "opendistro_get loads net s entry =
    (case dget_or doc ''_meta'' JNull of
       JNull \<Rightarrow> Inl (ValueError ''Missing _meta'')
     | JObj meta \<Rightarrow>
         (if \<not> py_eq (dget_or meta ''config_version'' (JInt 0)) (JInt 2)
            then Inl (ValueError ''Unsupported config_version'')
          else if dget_or meta ''type'' (JStr []) \<noteq> JStr entry
            then Inl (ValueError ''Invalid type in _meta'')
          else Inr (JObj (ddel doc ''_meta'')))
     | _ \<Rightarrow> Inl (AttributeError ''get''))"
  using assms
  by (auto simp: opendistro_get_def py_get_def dget_or_def decode_document_def b64decode_encode
      py_pop_def check_meta_def split: json.splits option.splits)

text \<open>When the configuration file cannot be read the script goes on with \<open>config\<close> unbound,
  reports a failed connection to Opendistro, and sends nothing.\<close>

theorem unreadable_config:
  assumes "is_Exception e" "config_arg \<noteq> []"
  shows "main enum loads net send config_arg (Inl e) =
    ([], SourceFailed (UnboundLocalError ''config''))"
  using assms
  by (simp add: main_def run_script_def connect_source_def config_value_def handled_def is_Exception_def)

section \<open>A run\<close>

text \<open>A run of the migration on small configurations, on which the properties are applied.\<close>

definition demo_role :: json where
  "demo_role = JObj [(''static'', JBool False), (''hidden'', JBool True), (''cluster'', JList [JStr ''read''])]"

definition demo_opendistro :: "(string, json) dict" where
  "demo_opendistro =
     [(''roles'', JObj [(''analyst'', demo_role)]),
      (''rolesmapping'', JObj [(''all_access'', JObj [(''users'', JList [JStr ''alice'', JStr ''os-sec-admin''])])]),
      (''actiongroups'', JObj []), (''tenants'', JObj []),
      (''internalusers'', JObj [(''os-sec-admin'', JObj [(''hash'', JStr ''x'')])])]"

definition demo_aiven :: "(string, json) dict" where
  "demo_aiven =
     [(''roles'', JObj [(''admin'', JObj [(''reserved'', JBool True)])]),
      (''rolesmapping'', JObj [(''all_access'', JObj [(''users'', JList [JStr ''os-sec-admin''])])]),
      (''actiongroups'', JObj []), (''tenants'', JObj []), (''internalusers'', JObj [])]"

definition demo_unmapped :: "(string, json) dict" where
  "demo_unmapped =
     [(''roles'', JObj [(''analyst'', demo_role)]),
      (''rolesmapping'', JObj [(''all_access'', JObj [(''users'', JList [JStr ''alice''])])]),
      (''actiongroups'', JObj []), (''tenants'', JObj []),
      (''internalusers'', JObj [(''bob'', JObj [(''hash'', JStr ''x'')])])]"

definition demo_session :: session where
  "demo_session = \<lparr>s_host = JStr ''h'', s_port = JInt 9200, s_api = ''/_plugins/_security/api'',
     s_auth = BasicAuth (JStr AIVEN_SECURITY_MANAGER) (JStr ''pw''), s_verify = False\<rparr>"

definition demo_service :: service where
  "demo_service calls s path acts = Inr \<lparr>status_code = 200, resp_ok = True, resp_json = Inr JNull\<rparr>"

definition demo_add :: patch_action where
  "demo_add = \<lparr>pa_op = ''add'', pa_path = ''/analyst'',
     pa_value = JObj [(''cluster'', JList [JStr ''read'']), (''hidden'', JBool False)]\<rparr>"

definition demo_replace :: patch_action where
  "demo_replace = \<lparr>pa_op = ''replace'', pa_path = ''/all_access'',
     pa_value = JObj [(''users'', JList [JStr ''alice'', JStr ''os-sec-admin''])]\<rparr>"

definition demo_calls :: "patch_call list" where
  "demo_calls = [(''roles'', [demo_add]), (''rolesmapping'', [demo_replace])]"

definition demo_counts :: "(string, counts) dict" where
  "demo_counts =
     [(''roles'', \<lparr>additions = 1, updates = 0, unchanged = 0\<rparr>),
      (''rolesmapping'', \<lparr>additions = 0, updates = 1, unchanged = 0\<rparr>),
      (''actiongroups'', \<lparr>additions = 0, updates = 0, unchanged = 0\<rparr>),
      (''tenants'', \<lparr>additions = 0, updates = 0, unchanged = 0\<rparr>),
      (''internalusers'', \<lparr>additions = 0, updates = 0, unchanged = 0\<rparr>)]"

lemma set_order_sorted: "set_order sorted_list_of_set"
  by (simp add: set_order_def)

lemma config_ok_demo: "config_ok demo_opendistro" "config_ok demo_aiven" "config_ok demo_unmapped"
  by code_simp+

lemma demo_run:
  "migrate sorted_list_of_set demo_service demo_session demo_opendistro demo_aiven =
     (demo_calls, Completed demo_counts)"
  by code_simp

lemma demo_unmapped_run:
  "migrate sorted_list_of_set demo_service demo_session demo_unmapped demo_aiven =
     ([(''roles'', [demo_add])], UpdateFailed ''rolesmapping'' (AttributeError ''add''))"
  by code_simp

lemmas demo_ok = set_order_sorted config_ok_demo(1,2)

theorem analysis_exact_witness:
  "\<exists>acts. analyze_security_configurations sorted_list_of_set demo_opendistro demo_aiven = Inr acts \<and>
     map fst acts = SECURITY_CONFIG_SECTIONS"
  using analysis_exact [OF demo_ok] by blast

theorem protected_entries_untouched_witness:
  "\<exists>k v. pa_path demo_replace = ''/'' @ k \<and> dget (section_of demo_opendistro ''rolesmapping'') k = Some v \<and>
     k \<notin> untouchables_of ''rolesmapping''"
  using protected_entries_untouched [OF demo_ok demo_run, of "''rolesmapping''" "[demo_replace]" demo_replace]
  by (auto simp: demo_calls_def)

theorem completed_summary_witness: "map fst demo_counts = SECURITY_CONFIG_SECTIONS"
  using completed_summary [OF demo_ok demo_run] by blast

theorem hidden_entries_sent_witness:
  "\<exists>acts v. (''roles'', acts) \<in> set demo_calls \<and> \<lparr>pa_op = ''add'', pa_path = ''/'' @ ''analyst'', pa_value = JObj v\<rparr> \<in> set acts \<and>
    dget v ''hidden'' = Some (JBool False)"
proof -
  have facts: "dget (section_of demo_opendistro ''roles'') ''analyst'' = Some demo_role" "flagged [''hidden''] demo_role"
    "\<not> flagged [''reserved'', ''static''] demo_role" "dget (section_of demo_aiven ''roles'') ''analyst'' = None"
    by code_simp+
  show ?thesis
    by (rule hidden_entries_sent [OF demo_ok demo_run _ facts(1,2,3) [unfolded demo_role_def] _ facts(4)])
      (simp_all add: SECURITY_CONFIG_SECTIONS_def untouchables_of_def PREDEFINED_UNTOUCHABLES_def)
qed

theorem sent_values_carry_source_witness:
  "\<exists>k v d. pa_path demo_add = ''/'' @ k \<and> dget (section_of demo_opendistro ''roles'') k = Some (JObj v) \<and>
     pa_value demo_add = JObj d \<and> \<not> flagged [''reserved'', ''static'', ''hidden''] (JObj d)"
  using sent_values_carry_source [OF demo_ok demo_run, of "''roles''" "[demo_add]" demo_add]
  by (auto simp: demo_calls_def)

theorem manager_stays_mapped_witness:
  "\<exists>d users'. pa_value demo_replace = JObj d \<and> dget d ''users'' = Some users' \<and>
     py_in AIVEN_SECURITY_MANAGER users' = Inr True"
proof -
  have w: "dget (section_of demo_aiven ''rolesmapping'') ''all_access'' =
      Some (JObj [(''users'', JList [JStr ''os-sec-admin''])])"
    and u: "py_in AIVEN_SECURITY_MANAGER (JList [JStr ''os-sec-admin'']) = Inr True"
    by code_simp+
  show ?thesis
    by (rule manager_stays_mapped [OF demo_ok demo_run _ _ _ _ w _ u, where acts = "[demo_replace]"])
       (simp_all add: demo_calls_def demo_replace_def)
qed

lemma demo_readable: "mappings_readable demo_unmapped demo_aiven"
proof -
  have s: "section_of demo_unmapped ''rolesmapping'' = [(''all_access'', JObj [(''users'', JList [JStr ''alice''])])]"
    "section_of demo_aiven ''rolesmapping'' = [(''all_access'', JObj [(''users'', JList [JStr ''os-sec-admin''])])]"
    "section_of demo_aiven ''roles'' = [(''admin'', JObj [(''reserved'', JBool True)])]"
    by code_simp+
  show ?thesis
    unfolding mappings_readable_def s by (auto simp: dget_def dget_or_def split: if_splits)
qed

theorem manager_mapping_aborts_witness:
  "\<not> is_completed (UpdateFailed ''rolesmapping'' (AttributeError ''add'')) \<and> mappings_readable demo_unmapped demo_aiven"
proof -
  have facts: "dget (section_of demo_unmapped ''rolesmapping'') ''all_access'' =
      Some (JObj [(''users'', JList [JStr ''alice''])])"
    "dget (section_of demo_aiven ''rolesmapping'') ''all_access'' =
      Some (JObj [(''users'', JList [JStr ''os-sec-admin''])])"
    "py_in AIVEN_SECURITY_MANAGER (JList [JStr ''os-sec-admin'']) = Inr True"
    "\<not> flagged [''reserved'', ''static''] (JObj [(''users'', JList [JStr ''alice''])])"
    "\<not> flagged [''reserved'', ''static'', ''hidden''] (JObj [(''users'', JList [JStr ''os-sec-admin''])])"
    by code_simp+
  show ?thesis
    using manager_mapping_aborts [OF set_order_sorted config_ok_demo(3,2) facts(1,4) _ facts(2,5) _ facts(3) _ _
        demo_unmapped_run, where us = "[JStr ''alice'']"] demo_readable
    by (simp add: dget_or_def AIVEN_SECURITY_MANAGER_def)
qed

theorem stops_at_first_failure_witness:
  "accepted demo_service demo_session demo_calls 0"
  using stops_at_first_failure [OF demo_run] by (simp add: demo_calls_def)

definition demo_document :: "byte list \<Rightarrow> json res" where
  "demo_document bs = (if bs = [123, 125] then
     Inr (JObj [(''r'', JObj []), (''_meta'', JObj [(''type'', JStr ''roles''), (''config_version'', JInt 2)])])
   else Inl (JSONDecodeError ''document''))"

definition demo_network :: network where
  "demo_network s path = Inr \<lparr>status_code = 200, resp_ok = True,
     resp_json = Inr (JObj [(''_id'', JStr ''roles''),
       (''_source'', JObj [(''roles'', JStr (b64encode [123, 125]))])])\<rparr>"

theorem opendistro_get_document_witness:
  "opendistro_get demo_document demo_network demo_session ''roles'' = Inr (JObj [(''r'', JObj [])])"
proof -
  have r: "get_json demo_network demo_session (s_api demo_session @ ''/'' @ ''roles'') =
      Inr (JObj [(''_id'', JStr ''roles''), (''_source'', JObj [(''roles'', JStr (b64encode [123, 125]))])])"
    by (simp add: get_json_def demo_network_def)
  have l: "demo_document [123, 125] =
      Inr (JObj [(''r'', JObj []), (''_meta'', JObj [(''type'', JStr ''roles''), (''config_version'', JInt 2)])])"
    by (simp add: demo_document_def)
  have src: "dget [(''roles'', JStr (b64encode [123, 125]))] ''roles'' = Some (JStr (b64encode [123, 125]))"
    by (simp only: dget_Cons if_True refl)
  have reply: "dget [(''_id'', JStr ''roles''), (''_source'', JObj [(''roles'', JStr (b64encode [123, 125]))])] ''_id'' =
      Some (JStr ''roles'')"
    "dget [(''_id'', JStr ''roles''), (''_source'', JObj [(''roles'', JStr (b64encode [123, 125]))])] ''_source'' =
      Some (JObj [(''roles'', JStr (b64encode [123, 125]))])"
    by simp_all
  show ?thesis
    using opendistro_get_document [where loads = demo_document and net = demo_network and s = demo_session and
        entry = "''roles''" and bs = "[123, 125]", OF r reply src l] by (simp add: dget_or_def ddel_def)
qed

theorem unreadable_config_witness:
  "main sorted_list_of_set demo_document demo_network demo_service ''conf.json'' (Inl (OSError ''open'')) =
     ([], SourceFailed (UnboundLocalError ''config''))"
  by (rule unreadable_config) (simp_all add: is_Exception_def)

end
