(* ===== verification/IsmPolicies.thy ===== *)
theory IsmPolicies
  imports Http
begin

text \<open>
  \<open>avn-re-apply-ism-policies.py\<close> (\<open>solutions/reapply-ism-policies\<close>): reading the assignments of index
  state management policies from the cluster state, and posting each again. The script's
  effect is the list of its posts, an index with the policy; the service's reply to a post
  is the parameter \<open>post\<close>, which sees the posts made before it. The two summaries count
  posts per policy in dictionaries whose keys are the policy ids of the cluster state.
\<close>

type_synonym assignment = "string \<times> json"

type_synonym ism_service = "assignment list \<Rightarrow> session \<Rightarrow> string \<Rightarrow> json \<Rightarrow> response res"

definition ISM_SECURITY_MANAGER :: string where
  "ISM_SECURITY_MANAGER = ''os-sec-admin''"

section \<open>The client\<close>

definition AivenForOpensearchIsm_init :: "network \<Rightarrow> json \<Rightarrow> json \<Rightarrow> json \<Rightarrow> json \<Rightarrow> session res" where
  "AivenForOpensearchIsm_init net host port user password =
     test_connection net
       \<lparr>s_host = host, s_port = port, s_api = [], s_auth = BasicAuth user password, s_verify = False\<rparr>"

text \<open>\<open>try: ... except Exception:\<close>, with the value the handler goes on with.\<close>

definition recover :: "'a \<Rightarrow> 'a res \<Rightarrow> 'a res" where
  "recover x r = (case r of Inl e \<Rightarrow> if is_Exception e then Inr x else Inl e | Inr y \<Rightarrow> Inr y)"

definition already_applied :: "network \<Rightarrow> session \<Rightarrow> bool res" where
  "already_applied net s =
     rbind (net s ''/_plugins/_ism/explain'') (\<lambda>r.
       recover True
         (if status_code r = 200 then
            rbind (resp_json r) (\<lambda>data.
            rbind (py_item data ''total_managed_indices'') (\<lambda>n. Inr (\<not> py_eq n (JInt 0))))
          else Inr True))"

definition policy_of :: "json \<Rightarrow> json res" where
  "policy_of policy =
     rbind (py_get policy ''managed_index_metadata'' (JObj [])) (\<lambda>m. py_get m ''policy_id'' JNull)"

fun collect_assignments ::
  "(string, json) dict \<Rightarrow> (string, json) dict \<Rightarrow> (string, json) dict res" where
  "collect_assignments [] assignments = Inr assignments"
| "collect_assignments ((index, policy) # indices) assignments =
     rbind (policy_of policy) (\<lambda>policy_id.
       collect_assignments indices (dset assignments index policy_id))"

definition METADATA_PATH :: string where
  "METADATA_PATH = ''/_cluster/state/metadata/*?expand_wildcards=all&filter_path=metadata.indices.*.managed_index_metadata.policy_id''"

definition retrieve_assignments_from_cluster_metadata ::
  "network \<Rightarrow> session \<Rightarrow> (string, json) dict res" where
  "retrieve_assignments_from_cluster_metadata net s =
     rbind (net s METADATA_PATH) (\<lambda>r.
       recover []
         (if status_code r \<noteq> 200 then Inr []
          else rbind (resp_json r) (\<lambda>data.
               rbind (py_item data ''metadata'') (\<lambda>m.
               rbind (py_item m ''indices'') (\<lambda>i.
               rbind (py_items i) (\<lambda>indices. collect_assignments indices []))))))"

definition add_policy ::
  "ism_service \<Rightarrow> assignment list \<Rightarrow> session \<Rightarrow> string \<Rightarrow> json \<Rightarrow> unit res" where
  "add_policy post posts s index policy_id =
     rbind (post posts s (''/_plugins/_ism/add/'' @ index) (JObj [(''policy_id'', policy_id)]))
       raise_for_status"

section \<open>The counters\<close>

fun bump :: "(json \<times> nat) list \<Rightarrow> json \<Rightarrow> (json \<times> nat) list" where
  "bump [] k = [(k, 1)]"
| "bump ((k', n) # d) k = (if py_eq k' k then (k', n + 1) # d else (k', n) # bump d k)"

definition count_policy :: "(json \<times> nat) list \<Rightarrow> json \<Rightarrow> (json \<times> nat) list res" where
  "count_policy d k = (if hashable k then Inr (bump d k) else Inl (TypeError ''unhashable''))"

record tally =
  posts :: "assignment list"
  applied :: "(json \<times> nat) list"
  failed :: "(json \<times> nat) list"

section \<open>The script\<close>

datatype ism_ending =
    IsmHelpPrinted
  | IsmConnectFailed exn
  | NoAssignments
  | Reapplied "(json \<times> nat) list" "(json \<times> nat) list"
  | IsmUncaught exn

text \<open>One round of the loop: post, then count; any exception of the two counts as a failure.\<close>

definition reapply_one :: "ism_service \<Rightarrow> session \<Rightarrow> assignment \<Rightarrow> tally \<Rightarrow> tally \<times> exn option" where
  "reapply_one post s a t =
     (let (index, policy_id) = a;
          t' = t\<lparr>posts := posts t @ [a]\<rparr>
      in case rbind (add_policy post (posts t) s index policy_id) (\<lambda>_. count_policy (applied t) policy_id) of
           Inr d \<Rightarrow> (t'\<lparr>applied := d\<rparr>, None)
         | Inl e \<Rightarrow>
             (if \<not> is_Exception e then (t', Some e)
              else case count_policy (failed t) policy_id of
                Inr d \<Rightarrow> (t'\<lparr>failed := d\<rparr>, None)
              | Inl e' \<Rightarrow> (t', Some e')))"

fun reapply :: "ism_service \<Rightarrow> session \<Rightarrow> assignment list \<Rightarrow> tally \<Rightarrow> tally \<times> exn option" where
  "reapply post s [] t = (t, None)"
| "reapply post s (a # assignments) t =
     (case reapply_one post s a t of
        (t', Some e) \<Rightarrow> (t', Some e)
      | (t', None) \<Rightarrow> reapply post s assignments t')"

text \<open>
  The configuration: either the object itself or its \<open>target\<close>, which is used with the
  security manager's name. The user is \<open>None\<close> when the configuration names it.
\<close>

definition ism_target :: "json \<Rightarrow> (json \<times> json) res" where
  "ism_target config =
     rbind (py_in ''target'' config) (\<lambda>b.
       if b then rbind (py_item config ''target'') (\<lambda>t. Inr (t, JStr ISM_SECURITY_MANAGER))
       else Inr (config, JNull))"

definition ism_connect :: "network \<Rightarrow> json \<Rightarrow> json \<Rightarrow> session res" where
  "ism_connect net config user =
     rbind (py_item config ''host'') (\<lambda>host.
     rbind (py_item config ''port'') (\<lambda>port.
     rbind (if truthy user then Inr user else py_item config ''user'') (\<lambda>user.
     rbind (py_item config ''password'') (\<lambda>password.
       AivenForOpensearchIsm_init net host port user password))))"

text \<open>The part of the script after the connection, with the warning it prints.\<close>

definition ism_run ::
  "network \<Rightarrow> ism_service \<Rightarrow> session \<Rightarrow> bool \<Rightarrow> bool \<times> assignment list \<times> ism_ending" where
  "ism_run net post s force =
     (case (if force then Inr False else already_applied net s) of
        Inl e \<Rightarrow> (False, [], IsmUncaught e)
      | Inr warned \<Rightarrow>
          (case retrieve_assignments_from_cluster_metadata net s of
             Inl e \<Rightarrow> (warned, [], IsmUncaught e)
           | Inr assignments \<Rightarrow>
               (if assignments = [] then (warned, [], NoAssignments)
                else case reapply post s assignments \<lparr>posts = [], applied = [], failed = []\<rparr> of
                  (t, None) \<Rightarrow> (warned, posts t, Reapplied (applied t) (failed t))
                | (t, Some e) \<Rightarrow> (warned, posts t, IsmUncaught e))))"

definition ism_main ::
  "network \<Rightarrow> ism_service \<Rightarrow> string \<Rightarrow> bool \<Rightarrow> json res \<Rightarrow> bool \<times> assignment list \<times> ism_ending" where
  "ism_main net post config_arg force config =
     (if config_arg = [] then (False, [], IsmHelpPrinted)
      else case config of
        Inl e \<Rightarrow> (False, [], IsmUncaught (if is_Exception e then UnboundLocalError ''config'' else e))
      | Inr c \<Rightarrow>
          (case ism_target c of
             Inl e \<Rightarrow> (False, [], IsmUncaught e)
           | Inr (target, user) \<Rightarrow>
               (case ism_connect net target user of
                  Inl e \<Rightarrow> (False, [], if is_Exception e then IsmConnectFailed e else IsmUncaught e)
                | Inr s \<Rightarrow> ism_run net post s force)))"

section \<open>Facts\<close>

text \<open>Equality of hashable values is an equivalence.\<close>

lemma py_eq_scalar:
  "hashable v \<Longrightarrow> hashable w \<Longrightarrow>
     py_eq v w \<longleftrightarrow> v = w \<or> (as_num v \<noteq> None \<and> as_num v = as_num w)"
  by (cases v; cases w) (auto simp: hashable_def split: if_splits)

lemma py_eq_scalar_equiv:
  assumes "hashable u" "hashable v" "hashable w"
  shows "py_eq v v" "py_eq u v \<Longrightarrow> py_eq v u" "py_eq u v \<Longrightarrow> py_eq v w \<Longrightarrow> py_eq u w"
  using assms by (simp_all add: py_eq_scalar) metis+

definition dcount :: "(json \<times> nat) list \<Rightarrow> json \<Rightarrow> nat" where
  "dcount d k = sum_list (map snd (filter (\<lambda>kn. py_eq (fst kn) k) d))"

definition total :: "(json \<times> nat) list \<Rightarrow> nat" where
  "total d = sum_list (map snd d)"

definition keys_ok :: "(json \<times> nat) list \<Rightarrow> bool" where
  "keys_ok d = list_all (\<lambda>kn. hashable (fst kn)) d"

lemma total_bump: "total (bump d k) = total d + 1"
  by (induction d k rule: bump.induct) (auto simp: total_def)

lemma keys_ok_bump: "keys_ok d \<Longrightarrow> hashable k \<Longrightarrow> keys_ok (bump d k)"
  by (induction d k rule: bump.induct) (auto simp: keys_ok_def)

lemma dcount_bump:
  "keys_ok d \<Longrightarrow> hashable k \<Longrightarrow> hashable p \<Longrightarrow>
     dcount (bump d k) p = dcount d p + (if py_eq k p then 1 else 0)"
proof (induction d k rule: bump.induct)
  case (1 k)
  then show ?case by (simp add: dcount_def)
next
  case (2 k' n d k)
  have h: "hashable k'" using "2.prems"(1) by (simp add: keys_ok_def)
  show ?case
  proof (cases "py_eq k' k")
    case True
    then have "py_eq k' p = py_eq k p"
      using py_eq_scalar_equiv [OF h "2.prems"(2,3)] py_eq_scalar_equiv [OF "2.prems"(2) h "2.prems"(3)]
        py_eq_scalar_equiv(2) [OF h "2.prems"(2,2)] by blast
    with True show ?thesis by (simp add: dcount_def)
  next
    case False
    with 2 show ?thesis by (simp add: dcount_def keys_ok_def)
  qed
qed

text \<open>Was the post of number \<open>i\<close> accepted?\<close>

definition post_ok :: "ism_service \<Rightarrow> session \<Rightarrow> assignment list \<Rightarrow> nat \<Rightarrow> bool" where
  "post_ok post s ps i =
     (add_policy post (take i ps) s (fst (ps ! i)) (snd (ps ! i)) = Inr ())"

definition posts_for :: "(nat \<Rightarrow> bool) \<Rightarrow> assignment list \<Rightarrow> json \<Rightarrow> nat" where
  "posts_for P ps p = length (filter (\<lambda>i. P i \<and> py_eq (snd (ps ! i)) p) [0..<length ps])"

text \<open>What the tally says of the posts made so far.\<close>

definition tally_inv :: "ism_service \<Rightarrow> session \<Rightarrow> tally \<Rightarrow> bool" where
  "tally_inv post s t \<longleftrightarrow>
     total (applied t) + total (failed t) = length (posts t) \<and>
     keys_ok (applied t) \<and> keys_ok (failed t) \<and>
     (\<forall>p. hashable p \<longrightarrow>
        dcount (applied t) p = posts_for (post_ok post s (posts t)) (posts t) p \<and>
        dcount (failed t) p = posts_for (\<lambda>i. \<not> post_ok post s (posts t) i) (posts t) p)"

lemma post_ok_append: "i < length ps \<Longrightarrow> post_ok post s (ps @ qs) i = post_ok post s ps i"
  by (simp add: post_ok_def nth_append)

lemma posts_for_snoc:
  assumes "\<And>i. i < length ps \<Longrightarrow> Q i = P i"
  shows "posts_for Q (ps @ [a]) p = posts_for P ps p + (if Q (length ps) \<and> py_eq (snd a) p then 1 else 0)"
proof -
  have "filter (\<lambda>i. Q i \<and> py_eq (snd ((ps @ [a]) ! i)) p) [0..<length ps] =
      filter (\<lambda>i. P i \<and> py_eq (snd (ps ! i)) p) [0..<length ps]"
    by (rule filter_cong) (auto simp: assms nth_append)
  then show ?thesis by (simp add: posts_for_def)
qed

lemma reapply_one_inv:
  assumes "tally_inv post s t" "reapply_one post s a t = (t', None)"
  shows "tally_inv post s t' \<and> posts t' = posts t @ [a]"
proof -
  obtain index policy where a: "a = (index, policy)" by (cases a)
  let ?ok = "post_ok post s (posts t @ [a])"
  have last: "?ok (length (posts t)) \<longleftrightarrow> add_policy post (posts t) s index policy = Inr ()"
    by (simp add: post_ok_def a)
  have snoc: "posts_for ?ok (posts t @ [a]) p =
      posts_for (post_ok post s (posts t)) (posts t) p + (if ?ok (length (posts t)) \<and> py_eq policy p then 1 else 0)"
    "posts_for (\<lambda>i. \<not> ?ok i) (posts t @ [a]) p =
      posts_for (\<lambda>i. \<not> post_ok post s (posts t) i) (posts t) p + (if \<not> ?ok (length (posts t)) \<and> py_eq policy p then 1 else 0)" for p
    using posts_for_snoc [of "posts t" ?ok "post_ok post s (posts t)" a p]
      posts_for_snoc [of "posts t" "\<lambda>i. \<not> ?ok i" "\<lambda>i. \<not> post_ok post s (posts t) i" a p]
    by (simp_all add: post_ok_append a)
  show ?thesis
  proof (cases "add_policy post (posts t) s index policy")
    case (Inl e)
    with assms(2) a have "hashable policy" "t' = t\<lparr>posts := posts t @ [a], failed := bump (failed t) policy\<rparr>"
      by (auto simp: reapply_one_def count_policy_def Let_def split: if_splits)
    with assms(1) last Inl show ?thesis
      by (auto simp: tally_inv_def total_bump keys_ok_bump dcount_bump snoc)
  next
    case (Inr u)
    with assms(2) a have "hashable policy" "t' = t\<lparr>posts := posts t @ [a], applied := bump (applied t) policy\<rparr>"
      by (auto simp: reapply_one_def count_policy_def is_Exception_def Let_def split: if_splits)
    with assms(1) last Inr show ?thesis
      by (auto simp: tally_inv_def total_bump keys_ok_bump dcount_bump snoc)
  qed
qed

lemma reapply_inv:
  "tally_inv post s t \<Longrightarrow> reapply post s assignments t = (t', None) \<Longrightarrow>
     tally_inv post s t' \<and> posts t' = posts t @ assignments"
proof (induction assignments arbitrary: t)
  case Nil
  then show ?case by simp
next
  case (Cons a assignments)
  then obtain t1 where t1: "reapply_one post s a t = (t1, None)" "reapply post s assignments t1 = (t', None)"
    by (auto split: prod.splits option.splits)
  with reapply_one_inv [OF Cons.prems(1) t1(1)] Cons.IH [OF _ t1(2)] show ?case by simp
qed

lemma reapply_one_posts: "reapply_one post s a t = (t', e) \<Longrightarrow> posts t' = posts t @ [a]"
  by (auto simp: reapply_one_def Let_def split: sum.splits if_splits prod.splits)

lemma reapply_prefix:
  "reapply post s assignments t = (t', e) \<Longrightarrow> \<exists>xs rest. assignments = xs @ rest \<and> posts t' = posts t @ xs"
proof (induction assignments arbitrary: t)
  case (Cons a assignments)
  obtain t1 e1 where t1: "reapply_one post s a t = (t1, e1)" by force
  show ?case
  proof (cases e1)
    case None
    with Cons.prems t1 have "reapply post s assignments t1 = (t', e)" by simp
    then obtain xs rest where "assignments = xs @ rest" "posts t' = posts t1 @ xs"
      using Cons.IH [of t1] by blast
    with reapply_one_posts [OF t1] show ?thesis by (intro exI [of _ "a # xs"] exI [of _ rest]) simp
  next
    case (Some e')
    with Cons.prems t1 reapply_one_posts [OF t1] show ?thesis
      by (intro exI [of _ "[a]"] exI [of _ assignments]) simp
  qed
qed simp

lemma recover_Inr: "recover x r = Inr y \<longleftrightarrow> r = Inr y \<or> (\<exists>e. r = Inl e \<and> is_Exception e \<and> y = x)"
  by (auto simp: recover_def split: sum.splits)

lemma collect_assignments_keys:
  "collect_assignments indices d = Inr r \<Longrightarrow> dict_ok d \<Longrightarrow> dict_ok r"
  by (induction indices d rule: collect_assignments.induct) (auto simp: res_simps pd.ok_put)

lemma collect_assignments_spec:
  "collect_assignments indices d = Inr r \<Longrightarrow> dict_ok indices \<Longrightarrow>
     dget r k = (case dget indices k of None \<Rightarrow> dget d k | Some p \<Rightarrow> (case policy_of p of Inr v \<Rightarrow> Some v | Inl _ \<Rightarrow> None))"
proof (induction indices d rule: collect_assignments.induct)
  case (2 index policy indices d)
  then obtain v where "policy_of policy = Inr v" "collect_assignments indices (dset d index v) = Inr r"
    by (auto simp: res_simps)
  with 2 show ?case by (auto simp: pd.get_put split: option.splits)
qed simp

lemma retrieve_dict_ok:
  "retrieve_assignments_from_cluster_metadata net s = Inr d \<Longrightarrow> dict_ok d"
  unfolding retrieve_assignments_from_cluster_metadata_def rbind_eq_Inr recover_Inr
  by (auto simp: rbind_eq_Inr dest: collect_assignments_keys split: if_splits)

lemma collect_assignments_map:
  "dict_ok (indices :: (string, json) dict) \<Longrightarrow> list_all (\<lambda>(k, p). policy_of p = Inr (f p)) indices \<Longrightarrow>
     list_all (\<lambda>(k, p). dget d k = None) indices \<Longrightarrow>
     collect_assignments indices d = Inr (d @ map (\<lambda>(k, p). (k, f p)) indices)"
proof (induction indices arbitrary: d)
  case (Cons kp indices)
  obtain k p where kp: "kp = (k, p)" by (cases kp)
  have "dget (d @ [(k, f p)]) k' = None" if "(k', p') \<in> set indices" for k' p'
    using that Cons.prems kp
    by (auto simp: list_all_iff dget_def map_add_def split: option.splits)
       (metis dget_def dget_eq_None fst_conv image_eqI)
  then have "list_all (\<lambda>(k', p'). dget (d @ [(k, f p)]) k' = None) indices"
    by (auto simp: list_all_iff)
  with Cons kp show ?case by (simp add: dset_new)
qed simp

section \<open>Properties\<close>

text \<open>C23. A run that ends with its summaries has posted every assignment of the cluster state once,
  in order, and no index twice; the two summaries together count the posts, and per policy the
  first counts the accepted and the second the failed posts of that policy.\<close>

theorem reapply_counts:
  assumes "ism_run net post s force = (warned, ps, Reapplied ap fa)"
  shows "retrieve_assignments_from_cluster_metadata net s = Inr ps \<and> distinct (map fst ps) \<and>
    total ap + total fa = length ps \<and>
    (\<forall>p. hashable p \<longrightarrow>
       dcount ap p = posts_for (post_ok post s ps) ps p \<and>
       dcount fa p = posts_for (\<lambda>i. \<not> post_ok post s ps i) ps p)"
proof -
  let ?t0 = "\<lparr>posts = [], applied = [], failed = []\<rparr>"
  from assms obtain assignments t where r: "retrieve_assignments_from_cluster_metadata net s = Inr assignments"
    "reapply post s assignments ?t0 = (t, None)" "ps = posts t" "ap = applied t" "fa = failed t"
    by (auto simp: ism_run_def split: sum.splits if_splits prod.splits option.splits)
  have "tally_inv post s ?t0"
    by (simp add: tally_inv_def total_def keys_ok_def dcount_def posts_for_def)
  from reapply_inv [OF this r(2)] r retrieve_dict_ok [OF r(1)] show ?thesis
    by (simp add: tally_inv_def dict_ok_def)
qed

text \<open>The guard against re-applying policies does not guard: when the check succeeds, a run without
  \<open>--force\<close> posts what a run with \<open>--force\<close> posts and ends as it does, also where it has
  printed that the policies appear to be already applied.\<close>

theorem force_only_silences:
  assumes "already_applied net s = Inr b"
  shows "snd (ism_run net post s False) = snd (ism_run net post s True) \<and>
    fst (ism_run net post s False) = b"
  using assms by (auto simp: ism_run_def split: sum.splits prod.splits option.splits)

text \<open>The assignments posted are the policy ids that the cluster metadata holds, index by index; an index
  whose entry has none is kept, with the policy \<open>None\<close>.\<close>

theorem assignments_of_metadata:
  assumes "net s METADATA_PATH = Inr r" "status_code r = 200"
    and "resp_json r = Inr (JObj data)" "dget data ''metadata'' = Some (JObj meta)"
    and "dget meta ''indices'' = Some (JObj (map (\<lambda>(k, m). (k, JObj [(''managed_index_metadata'', JObj m)])) indices))"
    and "distinct (map fst indices)"
  shows "retrieve_assignments_from_cluster_metadata net s =
    Inr (map (\<lambda>(k, m). (k, dget_or m ''policy_id'' JNull)) indices)"
proof -
  let ?js = "map (\<lambda>(k, m). (k, JObj [(''managed_index_metadata'', JObj m)])) indices"
  let ?f = "\<lambda>p. case p of JObj [(_, JObj m)] \<Rightarrow> dget_or m ''policy_id'' JNull | _ \<Rightarrow> JNull"
  have "collect_assignments ?js [] = Inr ([] @ map (\<lambda>(k, p). (k, ?f p)) ?js)"
  proof (rule collect_assignments_map)
    show "dict_ok ?js" using assms(6) by (simp add: dict_ok_def comp_def case_prod_unfold)
    show "list_all (\<lambda>(k, p). policy_of p = Inr (?f p)) ?js"
      by (auto simp: list_all_iff policy_of_def py_get_def dget_or_def)
  qed (simp add: list_all_iff)
  moreover have "map (\<lambda>(k, p). (k, ?f p)) ?js = map (\<lambda>(k, m). (k, dget_or m ''policy_id'' JNull)) indices"
    by auto
  ultimately show ?thesis
    using assms(1-5) by (simp add: retrieve_assignments_from_cluster_metadata_def py_item_def ditem_def recover_def)
qed

text \<open>Nothing is posted unless the configuration was read, the connection test passed and assignments
  were found; then the posts are a prefix of the assignments found, also when the run ends with an
  uncaught exception.\<close>

theorem ism_main_posts:
  assumes "ism_main net post config_arg force config = (warned, ps, ending)" "ps \<noteq> []"
  shows "\<exists>c target user s assignments rest.
    config = Inr c \<and> ism_target c = Inr (target, user) \<and> ism_connect net target user = Inr s \<and>
    retrieve_assignments_from_cluster_metadata net s = Inr assignments \<and> assignments = ps @ rest"
proof -
  from assms obtain c target user s where c: "config = Inr c" "ism_target c = Inr (target, user)"
      "ism_connect net target user = Inr s" "ism_run net post s force = (warned, ps, ending)"
    by (auto simp: ism_main_def split: sum.splits if_splits)
  from c(4) assms(2) obtain assignments t e where
      "retrieve_assignments_from_cluster_metadata net s = Inr assignments"
      "reapply post s assignments \<lparr>posts = [], applied = [], failed = []\<rparr> = (t, e)" "ps = posts t"
    by (auto simp: ism_run_def split: sum.splits if_splits prod.splits option.splits)
  with c reapply_prefix [OF this(2)] show ?thesis by auto
qed

text \<open>The handler of an unreadable configuration falls through to the unbound variable.\<close>

lemma ism_unreadable_config:
  "is_Exception e \<Longrightarrow> config_arg \<noteq> [] \<Longrightarrow>
     ism_main net post config_arg force (Inl e) = (False, [], IsmUncaught (UnboundLocalError ''config''))"
  by (simp add: ism_main_def)

section \<open>A run\<close>

definition ism_session :: session where
  "ism_session = \<lparr>s_host = JStr ''h'', s_port = JInt 9200, s_api = [],
     s_auth = BasicAuth (JStr ISM_SECURITY_MANAGER) (JStr ''pw''), s_verify = False\<rparr>"

definition ism_metadata :: "(string \<times> (string, json) dict) list" where
  "ism_metadata = [(''logs-1'', [(''policy_id'', JStr ''hot'')]), (''logs-2'', [(''policy_id'', JStr ''hot'')]),
     (''old'', [(''policy_id'', JStr ''cold'')])]"

definition ism_network :: network where
  "ism_network s path = Inr \<lparr>status_code = 200, resp_ok = True, resp_json = Inr
     (if path = METADATA_PATH then
        JObj [(''metadata'', JObj [(''indices'',
          JObj (map (\<lambda>(k, m). (k, JObj [(''managed_index_metadata'', JObj m)])) ism_metadata))])]
      else JObj [(''total_managed_indices'', JInt 3)])\<rparr>"

definition ism_service_demo :: ism_service where
  "ism_service_demo ps s path body =
     Inr \<lparr>status_code = 200, resp_ok = (path \<noteq> ''/_plugins/_ism/add/logs-2''), resp_json = Inr JNull\<rparr>"

definition ism_posts :: "assignment list" where
  "ism_posts = [(''logs-1'', JStr ''hot''), (''logs-2'', JStr ''hot''), (''old'', JStr ''cold'')]"

lemma ism_demo_run:
  "ism_run ism_network ism_service_demo ism_session False =
     (True, ism_posts, Reapplied [(JStr ''hot'', 1), (JStr ''cold'', 1)] [(JStr ''hot'', 1)])"
  by code_simp

theorem reapply_counts_witness: "total [(JStr ''hot'', 1), (JStr ''cold'', 1)] + total [(JStr ''hot'', 1)] = length ism_posts"
  using reapply_counts [OF ism_demo_run] by blast

theorem force_only_silences_witness:
  "snd (ism_run ism_network ism_service_demo ism_session False) =
     snd (ism_run ism_network ism_service_demo ism_session True)"
proof -
  have "already_applied ism_network ism_session = Inr True" by code_simp
  from force_only_silences [OF this] show ?thesis by blast
qed

theorem assignments_of_metadata_witness:
  "retrieve_assignments_from_cluster_metadata ism_network ism_session = Inr ism_posts"
proof -
  let ?indices = "JObj (map (\<lambda>(k, m). (k, JObj [(''managed_index_metadata'', JObj m)])) ism_metadata)"
  let ?r = "\<lparr>status_code = 200, resp_ok = True, resp_json = Inr (JObj [(''metadata'', JObj [(''indices'', ?indices)])])\<rparr>"
  have "ism_network ism_session METADATA_PATH = Inr ?r" by (simp add: ism_network_def)
  moreover have "distinct (map fst ism_metadata)" by (simp add: ism_metadata_def)
  ultimately have "retrieve_assignments_from_cluster_metadata ism_network ism_session =
      Inr (map (\<lambda>(k, m). (k, dget_or m ''policy_id'' JNull)) ism_metadata)"
    by (intro assignments_of_metadata [where r = ?r and data = "[(''metadata'', JObj [(''indices'', ?indices)])]"
          and meta = "[(''indices'', ?indices)]"]) simp_all
  then show ?thesis by (simp add: ism_metadata_def ism_posts_def dget_or_def)
qed

definition ism_config :: json where
  "ism_config = JObj [(''target'', JObj [(''host'', JStr ''h''), (''port'', JInt 9200), (''password'', JStr ''pw'')])]"

theorem ism_main_posts_witness:
  "\<exists>rest. ism_posts = ism_posts @ rest"
proof -
  have "ism_main ism_network ism_service_demo ''conf.json'' False (Inr ism_config) =
      (True, ism_posts, Reapplied [(JStr ''hot'', 1), (JStr ''cold'', 1)] [(JStr ''hot'', 1)])"
    by code_simp
  from ism_main_posts [OF this] show ?thesis by (auto simp: ism_posts_def)
qed

end
