(* ===== verification/IndexCompare.thy ===== *)
theory IndexCompare
  imports PyJson "HOL-Library.Sublist"
begin

text \<open>
  \<open>compare_migration_validation_data.py\<close>: the comparison of what was recorded of the indices before
  and after a migration, index by index, with a severity from 0 (identical) to 5 (missing), and the
  tables of the report. The comparison reads the second file only at the names of the first.
\<close>

record index_counts =
  checked :: nat
  sev0 :: nat
  sev1 :: nat
  sev2 :: nat
  sev3 :: nat
  sev4 :: nat
  sev5 :: nat
  mismatched :: "(string \<times> nat) list"

definition no_counts :: index_counts where
  "no_counts = \<lparr>checked = 0, sev0 = 0, sev1 = 0, sev2 = 0, sev3 = 0, sev4 = 0, sev5 = 0, mismatched = []\<rparr>"

text \<open>\<open>a or b\<close> where either side may raise.\<close>

definition por :: "bool res \<Rightarrow> bool res \<Rightarrow> bool res" where
  "por a b = rbind a (\<lambda>p. if p then Inr True else b)"

text \<open>\<open>data1[key] != data2[key]\<close>\<close>

definition differs :: "json \<Rightarrow> json \<Rightarrow> string \<Rightarrow> bool res" where
  "differs data1 data2 key =
     rbind (py_item data1 key) (\<lambda>v. rbind (py_item data2 key) (\<lambda>w. Inr (\<not> py_eq v w)))"

definition major_mismatch :: "json \<Rightarrow> json \<Rightarrow> bool res" where
  "major_mismatch data1 data2 =
     por (differs data1 data2 ''has_write_alias'')
       (por (differs data1 data2 ''ism_policy'') (differs data1 data2 ''aliases''))"

definition doc_count_mismatch :: "json \<Rightarrow> json \<Rightarrow> bool res" where
  "doc_count_mismatch data1 data2 =
     por (differs data1 data2 ''document_count'') (differs data1 data2 ''document_count2'')"

definition compare_index :: "json \<Rightarrow> string \<times> json \<Rightarrow> index_counts \<Rightarrow> index_counts res" where
  "compare_index json2 item c =
     (let (index_name, data1) = item; c = c\<lparr>checked := checked c + 1\<rparr> in
      rbind (py_get json2 ''indices'' (JObj [])) (\<lambda>indices2.
      rbind (py_get indices2 index_name JNull) (\<lambda>data2.
        if \<not> truthy data2 then
          Inr (c\<lparr>sev5 := sev5 c + 1, mismatched := mismatched c @ [(index_name, 5)]\<rparr>)
        else
          rbind (major_mismatch data1 data2) (\<lambda>major.
            if major then
              Inr (c\<lparr>sev4 := sev4 c + 1, mismatched := mismatched c @ [(index_name, 4)]\<rparr>)
            else
              rbind (doc_count_mismatch data1 data2) (\<lambda>docs.
                if docs then
                  rbind (py_item data1 ''document_count_delta'') (\<lambda>delta.
                    if truthy delta then
                      Inr (c\<lparr>sev1 := sev1 c + 1, mismatched := mismatched c @ [(index_name, 1)]\<rparr>)
                    else
                      rbind (py_item data1 ''has_write_alias'') (\<lambda>alias.
                        if truthy alias then
                          Inr (c\<lparr>sev2 := sev2 c + 1, mismatched := mismatched c @ [(index_name, 2)]\<rparr>)
                        else
                          Inr (c\<lparr>sev3 := sev3 c + 1, mismatched := mismatched c @ [(index_name, 3)]\<rparr>)))
                else Inr (c\<lparr>sev0 := sev0 c + 1\<rparr>))))))"

fun compare_loop :: "json \<Rightarrow> (string, json) dict \<Rightarrow> index_counts \<Rightarrow> index_counts res" where
  "compare_loop json2 [] c = Inr c"
| "compare_loop json2 (item # items) c = rbind (compare_index json2 item c) (compare_loop json2 items)"

definition compare_indices :: "json \<Rightarrow> json \<Rightarrow> index_counts res" where
  "compare_indices json1 json2 =
     rbind (py_get json1 ''indices'' (JObj [])) (\<lambda>indices1.
     rbind (py_items indices1) (\<lambda>items. compare_loop json2 items no_counts))"

section \<open>The report\<close>

text \<open>A row of the results table: the item, its severity, the number (empty on the ruler) and the explanation.\<close>

definition results_rows :: "index_counts \<Rightarrow> (string \<times> string \<times> nat option \<times> string) list" where
  "results_rows c =
     [(''Total indices'', '''', Some (checked c), ''Number of indices''),
      (''Perfect Matches'', ''0'', Some (sev0 c), ''No issues''),
      (''Indices with issues'', ''>0'', Some (sev1 c + sev2 c + sev3 c + sev4 c + sev5 c), ''Issues or possible issues''),
      (''---------------'', ''-'', None, ''-------------------------''),
      (''Probably ok'', ''1'', Some (sev1 c), ''Diff nb docs, but indexing was ongoing''),
      (''Probably ok'', ''2'', Some (sev2 c), ''Diff nb docs, on index with write alias''),
      (''Check Issues'', ''3'', Some (sev3 c), ''Diff nb docs, no indexing found, no write alias''),
      (''Major Issues'', ''4'', Some (sev4 c), ''Diff in ISM, aliases''),
      (''Missing index'', ''5'', Some (sev5 c), ''Index was not restored'')]"

text \<open>The second table numbers the indices with issues from 0; there is none when the list is empty.\<close>

fun issue_rows :: "nat \<Rightarrow> (string \<times> nat) list \<Rightarrow> (nat \<times> string \<times> nat) list" where
  "issue_rows i [] = []"
| "issue_rows i ((index_name, severity) # ms) = (i, index_name, severity) # issue_rows (i + 1) ms"

type_synonym report = "(string \<times> string \<times> nat option \<times> string) list \<times> (nat \<times> string \<times> nat) list"

definition compare_json_files :: "json res \<Rightarrow> json res \<Rightarrow> report res" where
  "compare_json_files file1 file2 =
     rbind file1 (\<lambda>json1. rbind file2 (\<lambda>json2.
     rbind (compare_indices json1 json2) (\<lambda>c.
       Inr (results_rows c, if mismatched c \<noteq> [] then issue_rows 0 (mismatched c) else []))))"

section \<open>What a comparison should say\<close>

text \<open>What the collector records of an index, and the dictionary it writes.\<close>

record index_info =
  aliases :: json
  document_count :: json
  ism_policy :: json
  document_count2 :: json
  delta :: bool
  write_alias :: bool

definition info_dict :: "index_info \<Rightarrow> (string, json) dict" where
  "info_dict i =
     [(''aliases'', aliases i), (''document_count'', document_count i), (''ism_policy'', ism_policy i),
      (''document_count2'', document_count2 i), (''document_count_delta'', JBool (delta i)),
      (''has_write_alias'', JBool (write_alias i))]"

definition info_json :: "index_info \<Rightarrow> json" where
  "info_json i = JObj (info_dict i)"

definition same_setup :: "index_info \<Rightarrow> index_info \<Rightarrow> bool" where
  "same_setup i j \<longleftrightarrow>
     write_alias i = write_alias j \<and> py_eq (ism_policy i) (ism_policy j) \<and> py_eq (aliases i) (aliases j)"

definition same_docs :: "index_info \<Rightarrow> index_info \<Rightarrow> bool" where
  "same_docs i j \<longleftrightarrow>
     py_eq (document_count i) (document_count j) \<and> py_eq (document_count2 i) (document_count2 j)"

text \<open>The severity of an index given what was recorded after the migration, as the report explains it.\<close>

definition severity :: "index_info \<Rightarrow> index_info option \<Rightarrow> nat" where
  "severity i after =
     (case after of
        None \<Rightarrow> 5
      | Some j \<Rightarrow>
          if \<not> same_setup i j then 4
          else if same_docs i j then 0
          else if delta i then 1
          else if write_alias i then 2
          else 3)"

definition recorded :: "(string \<times> index_info) list \<Rightarrow> json" where
  "recorded is = JObj [(''indices'', JObj (map (\<lambda>(k, i). (k, info_json i)) is))]"

definition severities :: "(string, index_info) dict \<Rightarrow> (string, index_info) dict \<Rightarrow> (string \<times> nat) list" where
  "severities before after = map (\<lambda>(k, i). (k, severity i (dget after k))) before"

definition count_sev :: "nat \<Rightarrow> (string \<times> nat) list \<Rightarrow> nat" where
  "count_sev n ss = length (filter (\<lambda>(_, m). m = n) ss)"

text \<open>The counters that a list of severities amounts to.\<close>

definition tally_of :: "(string \<times> nat) list \<Rightarrow> index_counts" where
  "tally_of ss =
     \<lparr>checked = length ss, sev0 = count_sev 0 ss, sev1 = count_sev 1 ss, sev2 = count_sev 2 ss,
      sev3 = count_sev 3 ss, sev4 = count_sev 4 ss, sev5 = count_sev 5 ss,
      mismatched = filter (\<lambda>(_, m). m \<noteq> 0) ss\<rparr>"

text \<open>One index counted with its severity.\<close>

definition add_sev :: "string \<times> nat \<Rightarrow> index_counts \<Rightarrow> index_counts" where
  "add_sev kn c =
     (let n = snd kn in
      \<lparr>checked = checked c + 1,
       sev0 = sev0 c + of_bool (n = 0), sev1 = sev1 c + of_bool (n = 1), sev2 = sev2 c + of_bool (n = 2),
       sev3 = sev3 c + of_bool (n = 3), sev4 = sev4 c + of_bool (n = 4), sev5 = sev5 c + of_bool (n = 5),
       mismatched = mismatched c @ (if n = 0 then [] else [kn])\<rparr>)"

section \<open>Facts\<close>

lemma por_simps [res_simps]:
  "por (Inl e) b = Inl e"
  "por (Inr p) b = (if p then Inr True else b)"
  by (simp_all add: por_def)

lemma compare_index_counts:
  assumes "compare_index json2 (k, data1) c = Inr c'"
  shows "\<exists>n \<le> 5. c' = add_sev (k, n) c"
proof -
  have "c' = add_sev (k, 0) c \<or> c' = add_sev (k, 1) c \<or> c' = add_sev (k, 2) c \<or>
      c' = add_sev (k, 3) c \<or> c' = add_sev (k, 4) c \<or> c' = add_sev (k, 5) c"
    using assms
    by (auto simp: compare_index_def Let_def rbind_eq_Inr add_sev_def split: if_splits)
  then show ?thesis by (elim disjE) (rule exI, rule conjI [rotated], assumption, simp)+
qed

lemma compare_loop_counts:
  "compare_loop json2 items c = Inr c' \<Longrightarrow>
     \<exists>ss. map fst ss = map fst items \<and> list_all (\<lambda>(_, n). n \<le> 5) ss \<and> c' = fold add_sev ss c"
proof (induction items arbitrary: c)
  case (Cons item items)
  obtain k data1 where item: "item = (k, data1)" by force
  from Cons.prems obtain c1 where c1: "compare_index json2 item c = Inr c1" "compare_loop json2 items c1 = Inr c'"
    by (auto simp: res_simps)
  from compare_index_counts c1(1) item obtain n where n: "n \<le> 5" "c1 = add_sev (k, n) c" by blast
  from Cons.IH [OF c1(2)] obtain ss where ss: "map fst ss = map fst items" "list_all (\<lambda>(_, n). n \<le> 5) ss" "c' = fold add_sev ss c1"
    by blast
  from n ss item show ?case by (intro exI [of _ "(k, n) # ss"]) simp
qed simp

lemma add_sev_tally: "add_sev kn (tally_of ss) = tally_of (ss @ [kn])"
  by (cases kn) (simp add: add_sev_def tally_of_def count_sev_def Let_def)

lemma fold_add_sev: "fold add_sev ss (tally_of rs) = tally_of (rs @ ss)"
  by (induction ss arbitrary: rs) (simp_all add: add_sev_tally)

lemma no_counts_tally: "no_counts = tally_of []"
  by (simp add: no_counts_def tally_of_def count_sev_def)

lemma compare_indices_counts:
  assumes "compare_indices json1 json2 = Inr c"
  shows "\<exists>d items ss. json1 = JObj d \<and> dget_or d ''indices'' (JObj []) = JObj items \<and>
    map fst ss = map fst items \<and> list_all (\<lambda>(_, n). n \<le> 5) ss \<and> c = tally_of ss"
proof -
  from assms obtain d items where d: "json1 = JObj d" "dget_or d ''indices'' (JObj []) = JObj items"
      "compare_loop json2 items no_counts = Inr c"
    by (auto simp: compare_indices_def rbind_eq_Inr py_get_Inr py_items_Inr)
  from compare_loop_counts [OF d(3)] d(1,2) show ?thesis
    by (auto simp: no_counts_tally fold_add_sev)
qed

lemma tally_sums:
  assumes "list_all (\<lambda>(_, n). n \<le> 5) ss"
  shows "sev0 (tally_of ss) + sev1 (tally_of ss) + sev2 (tally_of ss) + sev3 (tally_of ss) +
      sev4 (tally_of ss) + sev5 (tally_of ss) = checked (tally_of ss)"
    and "sev1 (tally_of ss) + sev2 (tally_of ss) + sev3 (tally_of ss) + sev4 (tally_of ss) + sev5 (tally_of ss) =
      length (mismatched (tally_of ss))"
  using assms
proof (induction ss)
  case Nil
  { case 1 show ?case by (simp add: tally_of_def count_sev_def) }
  { case 2 show ?case by (simp add: tally_of_def count_sev_def) }
next
  case (Cons kn ss)
  { case 1
    then have n: "snd kn \<in> {0, 1, 2, 3, 4, 5}" by auto
    with 1 Cons(1) show ?case by (auto simp: tally_of_def count_sev_def) }
  { case 2
    then have n: "snd kn \<in> {0, 1, 2, 3, 4, 5}" by auto
    with 2 Cons(2) show ?case by (auto simp: tally_of_def count_sev_def) }
qed

lemma dget_map_snd: "dget (map (\<lambda>(k, i). (k, f i)) d) k = map_option f (dget d k)"
  by (induction d) auto

lemma info_items [simp]:
  "py_item (info_json i) ''aliases'' = Inr (aliases i)"
  "py_item (info_json i) ''document_count'' = Inr (document_count i)"
  "py_item (info_json i) ''ism_policy'' = Inr (ism_policy i)"
  "py_item (info_json i) ''document_count2'' = Inr (document_count2 i)"
  "py_item (info_json i) ''document_count_delta'' = Inr (JBool (delta i))"
  "py_item (info_json i) ''has_write_alias'' = Inr (JBool (write_alias i))"
  "truthy (info_json i)"
  by (simp_all add: info_json_def info_dict_def py_item_def ditem_def)

lemma py_eq_JBool [simp]: "py_eq (JBool b) (JBool c) \<longleftrightarrow> b = c"
  by auto

lemma major_mismatch_info: "major_mismatch (info_json i) (info_json j) = Inr (\<not> same_setup i j)"
  by (simp add: major_mismatch_def differs_def res_simps same_setup_def del: py_eq.simps)

lemma doc_count_mismatch_info: "doc_count_mismatch (info_json i) (info_json j) = Inr (\<not> same_docs i j)"
  by (simp add: doc_count_mismatch_def differs_def res_simps same_docs_def del: py_eq.simps)

lemma compare_index_info:
  "compare_index (recorded after) (k, info_json i) c = Inr (add_sev (k, severity i (dget after k)) c)"
proof (cases "dget after k")
  case None
  then show ?thesis
    by (simp add: compare_index_def recorded_def py_get_def dget_or_def dget_map_snd severity_def add_sev_def)
next
  case (Some j)
  then show ?thesis
    by (simp add: compare_index_def recorded_def py_get_def dget_or_def dget_map_snd severity_def add_sev_def
        major_mismatch_info doc_count_mismatch_info)
qed

lemma compare_loop_info:
  "compare_loop (recorded after) (map (\<lambda>(k, i). (k, info_json i)) before) c =
     Inr (fold add_sev (severities before after) c)"
  by (induction before arbitrary: c) (auto simp: compare_index_info severities_def)

lemma compare_loop_lookup:
  assumes "\<And>k. k \<in> fst ` set items \<Longrightarrow> dget ixs k = dget ixs' k"
    and "dget d2 ''indices'' = Some (JObj ixs)" "dget d2' ''indices'' = Some (JObj ixs')"
  shows "compare_loop (JObj d2) items c = compare_loop (JObj d2') items c"
  using assms(1)
proof (induction items arbitrary: c)
  case (Cons item items)
  obtain k data1 where item: "item = (k, data1)" by force
  have indices: "py_get (JObj d2) ''indices'' (JObj []) = Inr (JObj ixs)"
      "py_get (JObj d2') ''indices'' (JObj []) = Inr (JObj ixs')"
    using assms(2,3) by (simp_all add: py_get_def dget_or_def)
  have "py_get (JObj ixs) k JNull = py_get (JObj ixs') k JNull"
    using Cons.prems [of k] item by (simp add: py_get_def dget_or_def)
  then have "compare_index (JObj d2) item c = compare_index (JObj d2') item c" for c
    by (simp only: compare_index_def item Let_def prod.case indices rbind_simps)
  with Cons show ?case by (simp add: rbind_def split: sum.split)
qed simp

lemma issue_rows_fst: "map fst (issue_rows i ms) = [i..<i + length ms]"
  by (induction i ms rule: issue_rows.induct) (simp_all add: upt_rec [of i for i])

lemma issue_rows_snd: "map snd (issue_rows i ms) = ms"
  by (induction i ms rule: issue_rows.induct) simp_all

section \<open>Properties\<close>

text \<open>C10. Two recordings are compared without an exception, and the counters and the list of mismatches are
  those of the severities the report explains, index by index.\<close>

theorem compare_exact:
  "compare_indices (recorded before) (recorded after) = Inr (tally_of (severities before after))"
  using compare_loop_info [of after before no_counts]
  by (simp add: compare_indices_def recorded_def py_get_def dget_or_def no_counts_tally fold_add_sev)

text \<open>Whatever the two files hold, a report that is printed is consistent: the six severities add up to the
  number of indices, the row of the indices with issues is the length of the second table,
  whose rows are numbered from 0, and its names are names of the first file in their order.\<close>

theorem report_consistent:
  assumes "compare_json_files (Inr json1) (Inr json2) = Inr (rows, issues)"
  shows "\<exists>c. rows = results_rows c \<and>
    checked c = sev0 c + sev1 c + sev2 c + sev3 c + sev4 c + sev5 c \<and>
    sev1 c + sev2 c + sev3 c + sev4 c + sev5 c = length issues \<and>
    map fst issues = [0..<length issues] \<and>
    (\<exists>d items. json1 = JObj d \<and> dget_or d ''indices'' (JObj []) = JObj items \<and> checked c = length items \<and>
       subseq (map (\<lambda>(_, name, _). name) issues) (map fst items))"
proof -
  from assms obtain c where c: "compare_indices json1 json2 = Inr c" "rows = results_rows c" "issues = issue_rows 0 (mismatched c)"
    by (auto simp: compare_json_files_def res_simps split: if_splits)
  from compare_indices_counts [OF c(1)] obtain d items ss where ss: "json1 = JObj d" "dget_or d ''indices'' (JObj []) = JObj items"
      "map fst ss = map fst items" "list_all (\<lambda>(_, n). n \<le> 5) ss" "c = tally_of ss" by blast
  have len: "length issues = length (mismatched c)"
    using issue_rows_snd [of 0 "mismatched c"] c(3) by (metis length_map)
  have fst: "map fst issues = [0..<length issues]"
    using issue_rows_fst [of 0 "mismatched c"] c(3) len by simp
  have "map (\<lambda>(_, name, _). name) issues = map fst (map snd issues)"
    by (simp add: case_prod_unfold)
  also have "\<dots> = map fst (filter (\<lambda>(_, m). m \<noteq> 0) ss)"
    using issue_rows_snd [of 0 "mismatched c"] c(3) ss(5) by (simp add: tally_of_def)
  finally have names: "subseq (map (\<lambda>(_, name, _). name) issues) (map fst items)"
    using subseq_map [OF subseq_filter_left, of fst "\<lambda>(_, m). m \<noteq> 0" ss] ss(3) by simp
  have "checked c = length items" using ss(3,5) by (metis index_counts.select_convs(1) length_map tally_of_def)
  with c(2) ss(1,2,5) len fst names tally_sums [OF ss(4)] show ?thesis
    by (intro exI [of _ c] conjI exI [of _ d] exI [of _ items]) simp_all
qed

text \<open>A file compared with itself is a perfect match: every index has severity 0 and no issue is listed.\<close>

theorem compare_self:
  assumes "dict_ok before"
    and "\<And>k i. (k, i) \<in> set before \<Longrightarrow> list_all json_ok [aliases i, ism_policy i, document_count i, document_count2 i]"
  shows "compare_json_files (Inr (recorded before)) (Inr (recorded before)) =
    Inr (results_rows (tally_of (map (\<lambda>(k, _). (k, 0)) before)), [])"
proof -
  have "severity i (dget before k) = 0" if "(k, i) \<in> set before" for k i
    using assms(2) [OF that] dget_in_ok [OF assms(1) that]
    by (simp add: severity_def same_setup_def same_docs_def py_eq_refl)
  then have "severities before before = map (\<lambda>(k, _). (k, 0)) before"
    by (auto simp: severities_def)
  moreover have "mismatched (tally_of (map (\<lambda>(k, _). (k, 0)) before)) = []"
    by (auto simp: tally_of_def filter_empty_conv)
  ultimately show ?thesis
    by (simp add: compare_json_files_def compare_exact)
qed

text \<open>The comparison never sees an index that only the second file has: two second files that agree on the
  names of the first give the same result, errors included.\<close>

theorem compare_ignores_new_indices:
  assumes "dget d1 ''indices'' = Some (JObj items)"
    and "dget d2 ''indices'' = Some (JObj ixs)" "dget d2' ''indices'' = Some (JObj ixs')"
    and "\<And>k. k \<in> fst ` set items \<Longrightarrow> dget ixs k = dget ixs' k"
  shows "compare_indices (JObj d1) (JObj d2) = compare_indices (JObj d1) (JObj d2')"
  using assms(1) compare_loop_lookup [of items ixs ixs' d2 d2', OF assms(4,2,3)]
  by (simp add: compare_indices_def py_get_def dget_or_def)

section \<open>Runs\<close>

definition demo_before :: "(string \<times> index_info) list" where
  "demo_before =
     [(''logs-1'', \<lparr>aliases = JObj [], document_count = JInt 10, ism_policy = JStr ''hot'', document_count2 = JInt 10,
                   delta = False, write_alias = False\<rparr>),
      (''logs-2'', \<lparr>aliases = JObj [], document_count = JInt 7, ism_policy = JNull, document_count2 = JInt 9,
                   delta = True, write_alias = False\<rparr>),
      (''old'', \<lparr>aliases = JObj [], document_count = JInt 1, ism_policy = JNull, document_count2 = JInt 1,
                delta = False, write_alias = False\<rparr>)]"

definition demo_after :: "(string \<times> index_info) list" where
  "demo_after =
     [(''logs-2'', \<lparr>aliases = JObj [], document_count = JInt 9, ism_policy = JNull, document_count2 = JInt 9,
                   delta = False, write_alias = False\<rparr>),
      (''logs-1'', \<lparr>aliases = JObj [], document_count = JInt 10, ism_policy = JStr ''hot'', document_count2 = JFloat 10,
                   delta = False, write_alias = False\<rparr>)]"

definition demo_index_counts :: index_counts where
  "demo_index_counts = \<lparr>checked = 3, sev0 = 1, sev1 = 1, sev2 = 0, sev3 = 0, sev4 = 0, sev5 = 1,
     mismatched = [(''logs-2'', 1), (''old'', 5)]\<rparr>"

lemma demo_report:
  "compare_json_files (Inr (recorded demo_before)) (Inr (recorded demo_after)) =
     Inr (results_rows demo_index_counts, [(0, ''logs-2'', 1), (1, ''old'', 5)])"
  by code_simp

theorem report_consistent_witness:
  "\<exists>c. results_rows demo_index_counts = results_rows c \<and>
     sev1 c + sev2 c + sev3 c + sev4 c + sev5 c = length [(0::nat, ''logs-2'', 1::nat), (1, ''old'', 5)]"
  using report_consistent [OF demo_report] by blast

theorem compare_self_witness:
  "compare_json_files (Inr (recorded demo_before)) (Inr (recorded demo_before)) =
     Inr (results_rows (tally_of [(''logs-1'', 0), (''logs-2'', 0), (''old'', 0)]), [])"
proof -
  have "dict_ok demo_before" by (simp add: demo_before_def)
  moreover have "list_all json_ok [aliases i, ism_policy i, document_count i, document_count2 i]"
    if "(k, i) \<in> set demo_before" for k i
    using that by (auto simp: demo_before_def)
  ultimately show ?thesis
    using compare_self [of demo_before] by (simp add: demo_before_def)
qed

theorem compare_ignores_new_indices_witness:
  "compare_indices (JObj [(''indices'', JObj [(''logs-1'', JNull)])]) (JObj [(''indices'', JObj [])]) =
   compare_indices (JObj [(''indices'', JObj [(''logs-1'', JNull)])]) (JObj [(''indices'', JObj [(''new'', JInt 1)])])"
  by (rule compare_ignores_new_indices
        [where items = "[(''logs-1'', JNull)]" and ixs = "[]" and ixs' = "[(''new'', JInt 1)]"]) simp_all

end
