(* ===== verification/PyStr.thy ===== *)
theory PyStr
  imports PyPrelude
begin

text \<open>
  What the programs use of Python's strings: \<open>strip\<close>, \<open>split\<close>, \<open>lower\<close>, the conversions between
  integers and decimal strings, \<open>fnmatch\<close> and \<open>urlparse\<close>. A character is a code point below
  256.
\<close>

section \<open>Characters, strip and split\<close>

abbreviation code :: "char \<Rightarrow> int" where
  "code c \<equiv> of_char c"

definition is_space :: "char \<Rightarrow> bool" where
  "is_space c = (let n = code c in (9 \<le> n \<and> n \<le> 13) \<or> (28 \<le> n \<and> n \<le> 32) \<or> n = 133 \<or> n = 160)"

definition is_digit :: "char \<Rightarrow> bool" where
  "is_digit c = (48 \<le> code c \<and> code c \<le> 57)"

definition strip :: "string \<Rightarrow> string" where
  "strip s = rev (dropWhile is_space (rev (dropWhile is_space s)))"

fun split_on :: "char \<Rightarrow> string \<Rightarrow> string list" where
  "split_on c [] = [[]]"
| "split_on c (x # s) =
     (if x = c then [] # split_on c s
      else (case split_on c s of [] \<Rightarrow> [[x]] | w # ws \<Rightarrow> (x # w) # ws))"

definition lower :: "string \<Rightarrow> string" where
  "lower s = map (\<lambda>c. if 65 \<le> code c \<and> code c \<le> 90 then char_of (code c + 32) else c) s"

section \<open>Integers\<close>

definition digit :: "int \<Rightarrow> char" where
  "digit d = ''0123456789'' ! nat d"

function show_nat :: "int \<Rightarrow> string" where
  "show_nat n = (if n < 10 then [digit n] else show_nat (n div 10) @ [digit (n mod 10)])"
  by pat_completeness auto
termination
  by (relation "measure nat") auto

declare show_nat.simps [simp del]

definition show_int :: "int \<Rightarrow> string" where
  "show_int i = (if i < 0 then CHR ''-'' # show_nat (- i) else show_nat i)"

text \<open>The digits of \<open>int(s)\<close>, with single underscores between digits; the flag says that the last one was a digit.\<close>

fun int_body :: "bool \<Rightarrow> int \<Rightarrow> string \<Rightarrow> int option" where
  "int_body prev a [] = (if prev then Some a else None)"
| "int_body prev a (c # s) =
     (if is_digit c then int_body True (10 * a + (code c - 48)) s
      else if c = CHR ''_'' \<and> prev then int_body False a s
      else None)"

definition py_int :: "string \<Rightarrow> int res" where
  "py_int s =
     (let t = strip s;
          neg = (t \<noteq> [] \<and> hd t = CHR ''-'');
          body = (if t \<noteq> [] \<and> hd t \<in> {CHR ''-'', CHR ''+''} then tl t else t)
      in case int_body False 0 body of
           None \<Rightarrow> Inl (ValueError ''int'')
         | Some n \<Rightarrow> Inr (if neg then - n else n))"

section \<open>\<open>fnmatch\<close>\<close>

text \<open>
  A pattern is a sequence of \<open>*\<close>, \<open>?\<close>, single characters and classes \<open>[...]\<close>, where an opening bracket
  that is never closed stands for itself, a closing bracket at the start of a class is in the
  class, and a range whose ends are in the wrong order is empty.
\<close>

datatype glob = AnySeq | AnyChar | Only char | OneOf bool "(int \<times> int) list"

fun ranges :: "string \<Rightarrow> (int \<times> int) list" where
  "ranges (c # m # d # s) =
     (if m = CHR ''-'' then (code c, code d) # ranges s else (code c, code c) # ranges (m # d # s))"
| "ranges (c # s) = (code c, code c) # ranges s"
| "ranges [] = []"

fun until_close :: "string \<Rightarrow> (string \<times> string) option" where
  "until_close [] = None"
| "until_close (c # s) =
     (if c = CHR '']'' then Some ([], s) else map_option (\<lambda>(body, rest). (c # body, rest)) (until_close s))"

definition bracket :: "string \<Rightarrow> (glob \<times> string) option" where
  "bracket s =
     (let neg = (s \<noteq> [] \<and> hd s = CHR ''!'');
          s1 = (if neg then tl s else s);
          closing = (s1 \<noteq> [] \<and> hd s1 = CHR '']'');
          s2 = (if closing then tl s1 else s1)
      in map_option (\<lambda>(body, rest). (OneOf neg (ranges (if closing then CHR '']'' # body else body)), rest))
           (until_close s2))"

lemma until_close_length: "until_close s = Some (body, rest) \<Longrightarrow> length rest < length s"
  by (induction s arbitrary: body rest) (fastforce split: if_splits)+

lemma bracket_length: "bracket s = Some (g, rest) \<Longrightarrow> length rest < length s"
proof -
  assume *: "bracket s = Some (g, rest)"
  let ?s1 = "if s \<noteq> [] \<and> hd s = CHR ''!'' then tl s else s"
  let ?s2 = "if ?s1 \<noteq> [] \<and> hd ?s1 = CHR '']'' then tl ?s1 else ?s1"
  from * obtain body where "until_close ?s2 = Some (body, rest)"
    by (auto simp: bracket_def Let_def)
  from until_close_length [OF this] have "length rest < length ?s2" .
  also have "length ?s2 \<le> length s"
    by simp
  finally show ?thesis .
qed

function glob_parse :: "string \<Rightarrow> glob list" where
  "glob_parse [] = []"
| "glob_parse (c # s) =
     (if c = CHR ''*'' then AnySeq # glob_parse s
      else if c = CHR ''?'' then AnyChar # glob_parse s
      else if c = CHR ''['' then
        (case bracket s of
           None \<Rightarrow> Only c # glob_parse s
         | Some (g, rest) \<Rightarrow> g # glob_parse rest)
      else Only c # glob_parse s)"
  by pat_completeness auto
termination
  by (relation "measure length") (auto dest: bracket_length)

fun glob_match :: "glob list \<Rightarrow> string \<Rightarrow> bool" where
  "glob_match [] s = (s = [])"
| "glob_match (AnySeq # g) [] = glob_match g []"
| "glob_match (AnySeq # g) (c # s) = (glob_match g (c # s) \<or> glob_match (AnySeq # g) s)"
| "glob_match (AnyChar # g) s = (s \<noteq> [] \<and> glob_match g (tl s))"
| "glob_match (Only c # g) s = (s \<noteq> [] \<and> hd s = c \<and> glob_match g (tl s))"
| "glob_match (OneOf neg rs # g) s =
     (s \<noteq> [] \<and> list_ex (\<lambda>(lo, hi). lo \<le> code (hd s) \<and> code (hd s) \<le> hi) rs \<noteq> neg \<and> glob_match g (tl s))"

definition fnmatch :: "string \<Rightarrow> string \<Rightarrow> bool" where
  "fnmatch name pattern = glob_match (glob_parse pattern) name"

section \<open>Facts\<close>

lemma digit_cases: "0 \<le> (d::int) \<Longrightarrow> d < 10 \<Longrightarrow> d \<in> {0, 1, 2, 3, 4, 5, 6, 7, 8, 9}"
  by (simp, presburger)

lemma code_digit [simp]: "0 \<le> d \<Longrightarrow> d < 10 \<Longrightarrow> code (digit d) = 48 + d"
  by (drule (1) digit_cases) (auto simp: digit_def)

lemma is_digit_digit [simp]: "0 \<le> d \<Longrightarrow> d < 10 \<Longrightarrow> is_digit (digit d)"
  by (simp add: is_digit_def)

lemma show_nat_digits: "0 \<le> n \<Longrightarrow> list_all is_digit (show_nat n) \<and> show_nat n \<noteq> []"
proof (induction n rule: show_nat.induct)
  case (1 n)
  then show ?case
    by (subst (1 2) show_nat.simps) auto
qed

lemma int_body_digits:
  "list_all is_digit s \<Longrightarrow>
     int_body b a (s @ t) = int_body (b \<or> s \<noteq> []) (foldl (\<lambda>a c. 10 * a + (code c - 48)) a s) t"
  by (induction s arbitrary: a b) auto

lemma foldl_show_nat: "0 \<le> n \<Longrightarrow> foldl (\<lambda>a c. 10 * a + (code c - 48)) 0 (show_nat n) = n"
proof (induction n rule: show_nat.induct)
  case (1 n)
  then show ?case
    by (subst show_nat.simps) simp
qed

lemma int_body_show_nat: "0 \<le> n \<Longrightarrow> int_body b 0 (show_nat n) = Some n"
  using int_body_digits [of "show_nat n" b 0 "[]"] show_nat_digits [of n] by (simp add: foldl_show_nat)

lemma digit_not_space: "is_digit c \<Longrightarrow> \<not> is_space c"
  by (auto simp: is_digit_def is_space_def Let_def)

lemma dropWhile_hd: "s = [] \<or> \<not> P (hd s) \<Longrightarrow> dropWhile P s = s"
  by (cases s) auto

lemma strip_id: "s = [] \<or> \<not> is_space (hd s) \<and> \<not> is_space (last s) \<Longrightarrow> strip s = s"
  by (auto simp: strip_def dropWhile_hd hd_rev)

lemma strip_digits: "list_all is_digit s \<Longrightarrow> strip s = s"
  by (rule strip_id) (cases s; auto simp: list_all_iff digit_not_space)

text \<open>Reading back what \<open>str\<close> writes.\<close>

lemma py_int_show_nat: "0 \<le> n \<Longrightarrow> py_int (show_nat n) = Inr n"
proof -
  assume n: "0 \<le> n"
  then have d: "list_all is_digit (show_nat n)" "show_nat n \<noteq> []" using show_nat_digits by auto
  then have "is_digit (hd (show_nat n))" by (cases "show_nat n") auto
  then have "hd (show_nat n) \<noteq> CHR ''-''" "hd (show_nat n) \<noteq> CHR ''+''"
    by (auto simp: is_digit_def)
  with n d show ?thesis
    by (simp add: py_int_def Let_def strip_digits int_body_show_nat)
qed

text \<open>Patterns without a special character, the pattern \<open>*\<close> and a prefix followed by \<open>*\<close>.\<close>

definition plain :: "string \<Rightarrow> bool" where
  "plain p \<longleftrightarrow> list_all (\<lambda>c. c \<notin> {CHR ''*'', CHR ''?'', CHR ''[''}) p"

lemma glob_parse_plain: "plain p \<Longrightarrow> glob_parse (p @ q) = map Only p @ glob_parse q"
  by (induction p) (auto simp: plain_def)

lemma glob_match_AnySeq: "glob_match [AnySeq] s"
  by (induction s) auto

lemma glob_match_plain:
  "glob_match (map Only p @ g) s \<longleftrightarrow> (\<exists>t. s = p @ t \<and> glob_match g t)"
proof (induction p arbitrary: s)
  case (Cons c p)
  then show ?case by (cases s) auto
qed simp

lemma fnmatch_plain: "plain p \<Longrightarrow> fnmatch s p \<longleftrightarrow> s = p"
  using glob_parse_plain [of p "[]"] glob_match_plain [of p "[]" s]
  by (auto simp: fnmatch_def)

lemma fnmatch_prefix: "plain p \<Longrightarrow> fnmatch s (p @ ''*'') \<longleftrightarrow> (\<exists>t. s = p @ t)"
  by (simp add: fnmatch_def glob_parse_plain glob_match_plain glob_match_AnySeq)

end
