(* ===== verification/EsClient.thy ===== *)
theory EsClient
  imports PyJson PyStr
begin

text \<open>
  \<open>elasticsearch_client.py\<close> and \<open>pre_snapshot_checks.py\<close> of the Elasticsearch migration: the parsing
  of the host URL (Python's \<open>urlparse\<close>, what the scripts read of it), the configuration handed to
  the Elasticsearch client and the check of the versions the indices were created with. Not
  modelled of \<open>urlparse\<close> are the validation of the address inside brackets and the check of
  non-ASCII host names.
\<close>

section \<open>\<open>urlparse\<close>\<close>

fun partition_at :: "char \<Rightarrow> string \<Rightarrow> string \<times> bool \<times> string" where
  "partition_at c [] = ([], False, [])"
| "partition_at c (x # s) =
     (if x = c then ([], True, s) else (case partition_at c s of (a, b, t) \<Rightarrow> (x # a, b, t)))"

definition after_last :: "char \<Rightarrow> string \<Rightarrow> string" where
  "after_last c s = rev (takeWhile (\<lambda>x. x \<noteq> c) (rev s))"

definition is_alpha :: "char \<Rightarrow> bool" where
  "is_alpha c = ((65 \<le> code c \<and> code c \<le> 90) \<or> (97 \<le> code c \<and> code c \<le> 122))"

definition scheme_char :: "char \<Rightarrow> bool" where
  "scheme_char c = (is_alpha c \<or> is_digit c \<or> c \<in> {CHR ''+'', CHR ''-'', CHR ''.''})"

definition clean_url :: "string \<Rightarrow> string" where
  "clean_url u = filter (\<lambda>c. code c \<notin> {9, 10, 13}) (dropWhile (\<lambda>c. code c \<le> 32) u)"

definition split_scheme :: "string \<Rightarrow> string \<times> string" where
  "split_scheme u =
     (case partition_at (CHR '':'') u of
        (s, found, rest) \<Rightarrow>
          if found \<and> s \<noteq> [] \<and> is_alpha (hd s) \<and> list_all scheme_char s then (lower s, rest) else ([], u))"

definition split_netloc :: "string \<Rightarrow> string res" where
  "split_netloc u =
     (if take 2 u = ''//'' then
        (let n = takeWhile (\<lambda>c. c \<notin> {CHR ''/'', CHR ''?'', CHR ''#''}) (drop 2 u) in
         if (CHR ''['' \<in> set n) \<noteq> (CHR '']'' \<in> set n) then Inl (ValueError ''Invalid IPv6 URL'') else Inr n)
      else Inr [])"

definition hostinfo :: "string \<Rightarrow> string \<times> string" where
  "hostinfo netloc =
     (let info = after_last (CHR ''@'') netloc in
      case partition_at (CHR ''['') info of
        (_, True, bracketed) \<Rightarrow>
          (case partition_at (CHR '']'') bracketed of
             (h, _, rest) \<Rightarrow> (h, snd (snd (partition_at (CHR '':'') rest))))
      | (_, False, _) \<Rightarrow> (case partition_at (CHR '':'') info of (h, _, p) \<Rightarrow> (h, p)))"

record parsed_url =
  u_scheme :: string
  u_hostname :: "string option"
  u_port :: "int option res"

definition url_hostname :: "string \<Rightarrow> string option" where
  "url_hostname h =
     (if h = [] then None
      else case partition_at (CHR ''%'') h of
        (a, b, zone) \<Rightarrow> Some (lower a @ (if b then ''%'' else []) @ zone))"

definition url_port :: "string \<Rightarrow> int option res" where
  "url_port p =
     (if p = [] then Inr None
      else if \<not> list_all is_digit p then Inl (ValueError ''port'')
      else rbind (py_int p) (\<lambda>n. if 0 \<le> n \<and> n \<le> 65535 then Inr (Some n) else Inl (ValueError ''port'')))"

definition urlparse :: "string \<Rightarrow> parsed_url res" where
  "urlparse url =
     (case split_scheme (clean_url url) of
        (s, rest) \<Rightarrow>
          rbind (split_netloc rest) (\<lambda>netloc.
            Inr \<lparr>u_scheme = s, u_hostname = url_hostname (fst (hostinfo netloc)),
                 u_port = url_port (snd (hostinfo netloc))\<rparr>))"

section \<open>The client\<close>

record es_client =
  c_url :: string
  c_auth :: "(string \<times> string) option"
  c_scheme :: string
  c_port :: int
  c_verify_certs :: bool

text \<open>\<open>port = parsed_url.port\<close>, and 9200 when there is none or it is 0.\<close>

definition es_port :: "parsed_url \<Rightarrow> int res" where
  "es_port u =
     rbind (u_port u) (\<lambda>p. Inr (case p of None \<Rightarrow> 9200 | Some n \<Rightarrow> if n = 0 then 9200 else n))"

definition given :: "string option \<Rightarrow> bool" where
  "given s = (case s of None \<Rightarrow> False | Some t \<Rightarrow> t \<noteq> [])"

definition create_es_client :: "string \<Rightarrow> string option \<Rightarrow> string option \<Rightarrow> es_client res" where
  "create_es_client es_host es_user es_password =
     rbind (urlparse es_host) (\<lambda>u.
     rbind (es_port u) (\<lambda>port.
       Inr \<lparr>c_url = u_scheme u @ ''://'' @ (case u_hostname u of None \<Rightarrow> ''None'' | Some h \<Rightarrow> h) @ '':'' @ show_int port,
            c_auth = (if given es_user \<and> given es_password then Some (the es_user, the es_password) else None),
            c_scheme = u_scheme u, c_port = port, c_verify_certs = False\<rparr>))"

section \<open>The checks before the snapshot\<close>

definition created_version :: "json \<Rightarrow> json res" where
  "created_version details =
     rbind (py_item details ''settings'') (\<lambda>s.
     rbind (py_item s ''index'') (\<lambda>i.
     rbind (py_item i ''version'') (\<lambda>v. py_item v ''created'')))"

text \<open>\<open>int(index_version[:3])\<close>: only a string has the slice and the conversion.\<close>

definition version_num :: "json \<Rightarrow> int res" where
  "version_num v = (case v of JStr s \<Rightarrow> py_int (take 3 s) | _ \<Rightarrow> Inl (TypeError ''version''))"

definition unsupported :: "int \<Rightarrow> bool" where
  "unsupported n = ((n > 136 \<and> n < 700) \<or> n > 710)"

text \<open>The issues printed so far; \<open>issues\<close> is set exactly when one is printed.\<close>

fun version_loop :: "(string, json) dict \<Rightarrow> (string \<times> json) list \<Rightarrow> (string \<times> json) list \<times> exn option" where
  "version_loop [] found = (found, None)"
| "version_loop ((index, details) # indices) found =
     (case rbind (created_version details) (\<lambda>v. rbind (version_num v) (\<lambda>n. Inr (v, n))) of
        Inl e \<Rightarrow> (found, Some e)
      | Inr (v, n) \<Rightarrow> version_loop indices (if unsupported n then found @ [(index, v)] else found))"

definition is_es_exception :: "exn \<Rightarrow> bool" where
  "is_es_exception e = (case e of ServiceError _ \<Rightarrow> True | _ \<Rightarrow> False)"

definition check_indices_version :: "(string, json) dict res \<Rightarrow> (string \<times> json) list \<times> exn option" where
  "check_indices_version indices =
     (case indices of
        Inl e \<Rightarrow> ([], if is_es_exception e then None else Some e)
      | Inr d \<Rightarrow> version_loop d [])"

text \<open>The script: the issues printed, and the verdict (are there issues?) or the exception that ends it.\<close>

definition pre_snapshot_main ::
  "(es_client \<Rightarrow> (string, json) dict res) \<Rightarrow> string \<Rightarrow> string option \<Rightarrow> string option \<Rightarrow> (string \<times> json) list \<times> bool res" where
  "pre_snapshot_main indices es_host es_user es_password =
     (case create_es_client es_host es_user es_password of
        Inl e \<Rightarrow> ([], Inl e)
      | Inr es \<Rightarrow>
          (case check_indices_version (indices es) of
             (found, Some e) \<Rightarrow> (found, Inl e)
           | (found, None) \<Rightarrow> (found, Inr (found \<noteq> []))))"

section \<open>Facts\<close>

lemma partition_at_found: "c \<notin> set s \<Longrightarrow> partition_at c (s @ c # t) = (s, True, t)"
  by (induction s) auto

lemma partition_at_missing: "c \<notin> set s \<Longrightarrow> partition_at c s = (s, False, [])"
  by (induction s) auto

lemma after_last_missing: "c \<notin> set s \<Longrightarrow> after_last c s = s"
proof -
  assume "c \<notin> set s"
  then have "takeWhile (\<lambda>x. x \<noteq> c) (rev s) = rev s" by (auto simp: takeWhile_eq_all_conv)
  then show ?thesis by (simp only: after_last_def rev_rev_ident)
qed

text \<open>Names made of lower-case letters, digits, dots and hyphens.\<close>

definition name_char :: "char \<Rightarrow> bool" where
  "name_char c = ((97 \<le> code c \<and> code c \<le> 122) \<or> is_digit c \<or> c \<in> {CHR ''-'', CHR ''.''})"

definition name_ok :: "string \<Rightarrow> bool" where
  "name_ok s \<longleftrightarrow> s \<noteq> [] \<and> list_all name_char s"

lemma name_char_simps:
  assumes "name_char c"
  shows "scheme_char c" "code c > 32" "c \<notin> set '':/?#@[]%''"
    "(if 65 \<le> code c \<and> code c \<le> 90 then char_of (code c + 32) else c) = c"
  using assms by (auto simp: name_char_def scheme_char_def is_alpha_def is_digit_def)

lemma lower_name: "name_ok s \<Longrightarrow> lower s = s"
  unfolding lower_def by (rule map_idI) (auto simp: name_ok_def list_all_iff name_char_simps(4))

lemma clean_url_name: "list_all (\<lambda>c. code c > 32) u \<Longrightarrow> clean_url u = u"
proof -
  assume a: "list_all (\<lambda>c. code c > 32) u"
  then have "dropWhile (\<lambda>c. code c \<le> 32) u = u" by (cases u) auto
  moreover have "filter (\<lambda>c. code c \<notin> {9, 10, 13}) u = u"
    using a by (auto simp: list_all_iff filter_id_conv)
  ultimately show ?thesis by (simp add: clean_url_def)
qed

lemma url_port_show: "0 \<le> p \<Longrightarrow> p \<le> 65535 \<Longrightarrow> url_port (show_nat p) = Inr (Some p)"
  using show_nat_digits [of p] by (simp add: url_port_def py_int_show_nat)

lemma show_nat_3: "100 \<le> (n::int) \<Longrightarrow> n < 1000 \<Longrightarrow> length (show_nat n) = 3"
  by (subst show_nat.simps, subst show_nat.simps, subst show_nat.simps) auto

text \<open>What a URL \<open>scheme://host\<close> with an optional port is parsed to.\<close>

lemma name_ok_no_special: "name_ok s \<Longrightarrow> set s \<inter> set '':/?#@[]%'' = {}"
  using name_char_simps(3) by (auto simp: name_ok_def list_all_iff)

lemma urlparse_name:
  assumes "name_ok s" "is_alpha (hd s)" "name_ok h" "list_all (\<lambda>c. is_digit c \<or> c = CHR '':'') q"
  shows "urlparse (s @ ''://'' @ h @ q) =
    Inr \<lparr>u_scheme = s, u_hostname = url_hostname (fst (hostinfo (h @ q))), u_port = url_port (snd (hostinfo (h @ q)))\<rparr>"
proof -
  let ?u = "s @ ''://'' @ h @ q"
  have q: "c \<in> set q \<Longrightarrow> code c > 32 \<and> c \<notin> set ''/?#@[]%''" for c
    using assms(4) by (auto simp: list_all_iff is_digit_def)
  have "list_all (\<lambda>c. code c > 32) ?u"
    using assms(1,3) q name_char_simps(2) by (auto simp: name_ok_def list_all_iff)
  then have clean: "clean_url ?u = ?u" by (rule clean_url_name)
  have sch: "split_scheme ?u = (s, ''//'' @ h @ q)"
  proof -
    have "partition_at (CHR '':'') ?u = (s, True, ''//'' @ h @ q)"
      using partition_at_found [of "CHR '':''" s "''//'' @ h @ q"] name_ok_no_special [OF assms(1)] by auto
    moreover have "list_all scheme_char s" "s \<noteq> []"
      using assms(1) name_char_simps(1) by (auto simp: name_ok_def list_all_iff)
    ultimately show ?thesis using assms(2) lower_name [OF assms(1)] by (simp add: split_scheme_def)
  qed
  have "\<forall>c \<in> set (h @ q). c \<notin> set ''/?#@[]%''"
    using name_ok_no_special [OF assms(3)] q by auto
  then have tw: "takeWhile (\<lambda>c. c \<notin> {CHR ''/'', CHR ''?'', CHR ''#''}) (h @ q) = h @ q"
      and br: "CHR ''['' \<notin> set (h @ q)" "CHR '']'' \<notin> set (h @ q)"
    by (auto simp: takeWhile_eq_all_conv)
  have "split_netloc (''//'' @ h @ q) = Inr (h @ q)"
  proof -
    have "take 2 (''//'' @ h @ q) = ''//''" "drop 2 (''//'' @ h @ q) = h @ q" by simp_all
    then show ?thesis unfolding split_netloc_def Let_def by (simp only: tw br if_True if_False simp_thms)
  qed
  with clean sch show ?thesis by (simp add: urlparse_def)
qed

lemma hostinfo_name:
  assumes "name_ok h" "list_all is_digit d"
  shows "hostinfo h = (h, [])" "hostinfo (h @ CHR '':'' # d) = (h, d)"
proof -
  have d: "CHR ''@'' \<notin> set d" "CHR ''['' \<notin> set d"
    using assms(2) by (auto simp: list_all_iff is_digit_def)
  have h: "CHR ''@'' \<notin> set h" "CHR ''['' \<notin> set h" "CHR '':'' \<notin> set h"
    using name_ok_no_special [OF assms(1)] by auto
  show "hostinfo h = (h, [])"
    using h by (simp add: hostinfo_def after_last_missing partition_at_missing)
  show "hostinfo (h @ CHR '':'' # d) = (h, d)"
    using h d by (simp add: hostinfo_def after_last_missing partition_at_missing partition_at_found)
qed

lemma url_hostname_name: "name_ok h \<Longrightarrow> url_hostname h = Some h"
  using name_ok_no_special [of h]
  by (auto simp: url_hostname_def partition_at_missing lower_name name_ok_def)

section \<open>Properties\<close>

text \<open>The client is configured with the scheme, host and port of the URL it is given; the port is 9200 when
  the URL has none, the credentials are passed on when both are given, and the URL of the
  client is the given one with its port.\<close>

theorem client_of_url:
  assumes "name_ok s" "is_alpha (hd s)" "name_ok h" "0 < p" "p \<le> 65535"
  shows "create_es_client (s @ ''://'' @ h @ '':'' @ show_nat p) user pw =
      Inr \<lparr>c_url = s @ ''://'' @ h @ '':'' @ show_nat p,
           c_auth = (if given user \<and> given pw then Some (the user, the pw) else None),
           c_scheme = s, c_port = p, c_verify_certs = False\<rparr> \<and>
    create_es_client (s @ ''://'' @ h) user pw = create_es_client (s @ ''://'' @ h @ '':9200'') user pw"
proof -
  have digits: "0 \<le> p \<Longrightarrow> list_all is_digit (show_nat p)" for p using show_nat_digits by blast
  have with_port: "urlparse (s @ ''://'' @ h @ '':'' @ show_nat p) =
      Inr \<lparr>u_scheme = s, u_hostname = Some h, u_port = Inr (Some p)\<rparr>" if "0 \<le> p" "p \<le> 65535" for p
    using urlparse_name [OF assms(1-3), of "'':'' @ show_nat p"] hostinfo_name(2) [OF assms(3) digits [OF that(1)]]
      that digits [OF that(1)] by (simp add: url_hostname_name [OF assms(3)] url_port_show list_all_iff)
  have "urlparse (s @ ''://'' @ h) = Inr \<lparr>u_scheme = s, u_hostname = Some h, u_port = Inr None\<rparr>"
    using urlparse_name [OF assms(1-3), of "[]"] hostinfo_name(1) [OF assms(3), of "[]"]
    by (simp add: url_hostname_name [OF assms(3)] url_port_def)
  moreover have "show_nat 9200 = ''9200''" by code_simp
  ultimately have "create_es_client (s @ ''://'' @ h) user pw = create_es_client (s @ ''://'' @ h @ '':9200'') user pw"
    using with_port [of 9200] by (simp add: create_es_client_def es_port_def)
  moreover have "create_es_client (s @ ''://'' @ h @ '':'' @ show_nat p) user pw =
      Inr \<lparr>c_url = s @ ''://'' @ h @ '':'' @ show_nat p,
           c_auth = (if given user \<and> given pw then Some (the user, the pw) else None),
           c_scheme = s, c_port = p, c_verify_certs = False\<rparr>"
    using with_port [OF _ assms(5)] assms(4) by (simp add: create_es_client_def es_port_def show_int_def)
  ultimately show ?thesis by simp
qed

text \<open>An IPv6 host loses its brackets: the client's URL is not one of that host and port.\<close>

lemma client_of_ipv6_url:
  "create_es_client ''https://[::1]:9200'' None None =
     Inr \<lparr>c_url = ''https://::1:9200'', c_auth = None, c_scheme = ''https'', c_port = 9200, c_verify_certs = False\<rparr>"
  by code_simp

text \<open>The entry of an index created by the version whose identifier starts with the three digits of \<open>v\<close>.\<close>

definition index_created :: "int \<Rightarrow> string \<Rightarrow> json" where
  "index_created v rest =
     JObj [(''settings'', JObj [(''index'', JObj [(''version'', JObj [(''created'', JStr (show_nat v @ rest))])])])]"

definition index_entries :: "(string \<times> int \<times> string) list \<Rightarrow> (string, json) dict" where
  "index_entries xs = map (\<lambda>(k, v, rest). (k, index_created v rest)) xs"

lemma version_loop_entries:
  "list_all (\<lambda>(k, v, rest). 100 \<le> v \<and> v < 1000) xs \<Longrightarrow>
     version_loop (index_entries xs) found =
       (found @ map (\<lambda>(k, v, rest). (k, JStr (show_nat v @ rest))) (filter (\<lambda>(k, v, rest). unsupported v) xs), None)"
proof (induction xs arbitrary: found)
  case (Cons x xs)
  obtain k v rest where x: "x = (k, v, rest)" by (cases x)
  from Cons.prems x have "length (show_nat v) = 3" by (simp add: show_nat_3)
  then have "version_num (JStr (show_nat v @ rest)) = Inr v"
    using Cons.prems x by (simp add: version_num_def py_int_show_nat)
  with Cons x show ?case
    by (simp add: index_entries_def index_created_def created_version_def py_item_def ditem_def)
qed (simp add: index_entries_def)

text \<open>The check before the snapshot prints exactly the indices whose version is neither one of OpenSearch up
  to 136 nor one of Elasticsearch 7.0 to 7.10, and reports issues exactly when there are any; an
  error of the service is reported as no issue.\<close>

theorem pre_snapshot_exact:
  assumes "create_es_client es_host user pw = Inr es"
    and "indices es = Inr (index_entries xs)" "list_all (\<lambda>(k, v, rest). 100 \<le> v \<and> v < 1000) xs"
    and "failing es = Inl (ServiceError m)"
  shows "pre_snapshot_main indices es_host user pw =
      (map (\<lambda>(k, v, rest). (k, JStr (show_nat v @ rest))) (filter (\<lambda>(k, v, rest). unsupported v) xs),
       Inr (\<exists>(k, v, rest) \<in> set xs. \<not> (v \<le> 136 \<or> (700 \<le> v \<and> v \<le> 710)))) \<and>
    pre_snapshot_main failing es_host user pw = ([], Inr False)"
proof -
  have *: "filter (\<lambda>(k, v, rest). unsupported v) xs \<noteq> [] \<longleftrightarrow>
      (\<exists>(k, v, rest) \<in> set xs. \<not> (v \<le> 136 \<or> (700 \<le> v \<and> v \<le> 710)))"
    by (force simp: filter_empty_conv unsupported_def)
  show ?thesis
    unfolding * [symmetric]
    using assms version_loop_entries [OF assms(3), of "[]"]
    by (simp add: pre_snapshot_main_def check_indices_version_def is_es_exception_def)
qed

section \<open>Runs\<close>

theorem client_of_url_witness:
  "create_es_client ''http://localhost'' (Some ''admin'') None = create_es_client ''http://localhost:9200'' (Some ''admin'') None"
  using client_of_url [of "''http''" "''localhost''" 1 "Some ''admin''" None]
  by (simp add: name_ok_def name_char_def is_digit_def is_alpha_def)

theorem pre_snapshot_exact_witness:
  "pre_snapshot_main (\<lambda>_. Inr (index_entries [(''logs'', 710, ''0299''), (''old'', 608, ''2399''), (''os'', 135, ''238227'')]))
     ''http://es'' None None = ([(''old'', JStr ''6082399'')], Inr True)"
proof -
  let ?xs = "[(''logs'', 710, ''0299''), (''old'', 608, ''2399''), (''os'', 135, ''238227'')] :: (string \<times> int \<times> string) list"
  let ?es = "\<lparr>c_url = ''http://es:9200'', c_auth = None, c_scheme = ''http'', c_port = 9200, c_verify_certs = False\<rparr>"
  have client: "create_es_client ''http://es'' None None = Inr ?es" by code_simp
  have "\<forall>x \<in> set ?xs. case x of (k, v, rest) \<Rightarrow> 100 \<le> v \<and> v < 1000" by simp
  then have "pre_snapshot_main (\<lambda>_. Inr (index_entries ?xs)) ''http://es'' None None =
      (map (\<lambda>(k, v, rest). (k, JStr (show_nat v @ rest))) (filter (\<lambda>(k, v, rest). unsupported v) ?xs),
       Inr (\<exists>(k, v, rest) \<in> set ?xs. \<not> (v \<le> 136 \<or> (700 \<le> v \<and> v \<le> 710))))"
    using pre_snapshot_exact [OF client, of "\<lambda>_. Inr (index_entries ?xs)" ?xs "\<lambda>_. Inl (ServiceError ''down'')" "''down''"]
    by (simp add: list_all_iff)
  moreover have "show_nat 608 = ''608''" by code_simp
  ultimately show ?thesis by (simp add: unsupported_def)
qed

end
