(* ===== verification/PyState.thy ===== *)
theory PyState
  imports PyPrelude
begin

text \<open>
  Computations with effects: a run takes a state and gives a result, which may be an exception, and
  the state it leaves. The loops of the form \<open>while True: try: ... except ...: (go on) else: break\<close>,
  which several programs have around what may fail, are the function \<open>retry\<close>; it counts its rounds
  down from a fuel and is \<open>None\<close> when it would still be trying. The interface \<open>attempts\<close> states what
  the body and the handler of such a loop promise, and what the loop promises then.
\<close>

type_synonym ('s, 'a) run = "'s \<Rightarrow> 'a res \<times> 's"

named_theorems run_simps "what a composed run does"

definition aret :: "'a res \<Rightarrow> ('s, 'a) run" where
  "aret r = (\<lambda>s. (r, s))"

definition abind :: "('s, 'a) run \<Rightarrow> ('a \<Rightarrow> ('s, 'b) run) \<Rightarrow> ('s, 'b) run" where
  "abind m f = (\<lambda>s. case m s of (Inl e, s') \<Rightarrow> (Inl e, s') | (Inr x, s') \<Rightarrow> f x s')"

text \<open>\<open>try: ... except\<close>: the handler sees the exception and may let it through.\<close>

definition acatch :: "('s, 'a) run \<Rightarrow> (exn \<Rightarrow> 'a res) \<Rightarrow> ('s, 'a) run" where
  "acatch m h = (\<lambda>s. case m s of (Inl e, s') \<Rightarrow> (h e, s') | (Inr x, s') \<Rightarrow> (Inr x, s'))"

lemma aret_run [simp, run_simps]: "aret r s = (r, s)"
  by (simp add: aret_def)

lemma abind_Inr [run_simps]:
  "abind m f s = (Inr y, s') \<longleftrightarrow> (\<exists>x s1. m s = (Inr x, s1) \<and> f x s1 = (Inr y, s'))"
  by (auto simp: abind_def split: prod.splits sum.splits)

lemma abind_Inl [run_simps]:
  "abind m f s = (Inl e, s') \<longleftrightarrow> m s = (Inl e, s') \<or> (\<exists>x s1. m s = (Inr x, s1) \<and> f x s1 = (Inl e, s'))"
  by (auto simp: abind_def split: prod.splits sum.splits)

lemma abind_eq: "m s = (Inr x, s1) \<Longrightarrow> abind m f s = f x s1"
  by (simp add: abind_def)

lemma abind_raise: "m s = (Inl e, s1) \<Longrightarrow> abind m f s = (Inl e, s1)"
  by (simp add: abind_def)

section \<open>Loops that try again\<close>

text \<open>What the handlers of such a loop do with an exception: go on, leave the loop, or let it through.\<close>

datatype verdict = Again | Leave | Through

fun retry :: "('s, unit) run \<Rightarrow> (exn \<Rightarrow> verdict) \<Rightarrow> ('s \<Rightarrow> 's) \<Rightarrow> nat \<Rightarrow> ('s \<Rightarrow> (unit res \<times> 's) option)" where
  "retry body handler wait 0 s = None"
| "retry body handler wait (Suc n) s =
     (case body s of
        (Inr u, s') \<Rightarrow> Some (Inr u, s')
      | (Inl e, s') \<Rightarrow>
          (case handler e of
             Again \<Rightarrow> retry body handler wait n (wait s')
           | Leave \<Rightarrow> Some (Inr (), s')
           | Through \<Rightarrow> Some (Inl e, s')))"

lemma retry_mono: "retry body handler wait n s = Some r \<Longrightarrow> n \<le> k \<Longrightarrow> retry body handler wait k s = Some r"
proof (induction n arbitrary: s k)
  case (Suc n)
  then obtain k' where "k = Suc k'" by (cases k) auto
  with Suc show ?case by (auto split: prod.splits sum.splits verdict.splits)
qed simp

text \<open>A body that raises, whatever the state, what the handler answers with another round never ends.\<close>

lemma retry_stuck:
  assumes "\<And>s. \<exists>e s'. body s = (Inl e, s') \<and> handler e = Again"
  shows "retry body handler wait n s = None"
proof (induction n arbitrary: s)
  case (Suc n)
  obtain e s' where "body s = (Inl e, s')" "handler e = Again" using assms by blast
  with Suc show ?case by simp
qed simp

text \<open>
  The interface: \<open>rel\<close> relates the state before and after a round that failed and is tried again, and
  \<open>good\<close> the states around a round that ends the loop.
\<close>

locale attempts =
  fixes body :: "('s, unit) run"
    and handler :: "exn \<Rightarrow> verdict"
    and wait :: "'s \<Rightarrow> 's"
    and rel :: "'s \<Rightarrow> 's \<Rightarrow> bool"
    and good :: "'s \<Rightarrow> 's \<Rightarrow> bool"
    and skipped :: "exn \<Rightarrow> 's \<Rightarrow> 's \<Rightarrow> bool"
  assumes rel_refl: "rel s s"
    and rel_trans: "rel s t \<Longrightarrow> rel t s2 \<Longrightarrow> rel s s2"
    and again: "body s = (Inl e, t) \<Longrightarrow> handler e = Again \<Longrightarrow> rel s (wait t)"
    and done_good: "body s = (Inr (), t) \<Longrightarrow> good s t"
    and left_skipped: "body s = (Inl e, t) \<Longrightarrow> handler e = Leave \<Longrightarrow> skipped e s t"
    and never_through: "body s = (Inl e, t) \<Longrightarrow> handler e = Through \<Longrightarrow> \<not> is_Exception e"
begin

text \<open>A loop that ends normally ends with a good round, or one that was left, after failed rounds.\<close>

lemma retry_ends:
  "retry body handler wait n s = Some (Inr u, t) \<Longrightarrow>
     \<exists>s1. rel s s1 \<and> (good s1 t \<or> (\<exists>e. handler e = Leave \<and> skipped e s1 t))"
proof (induction n arbitrary: s)
  case (Suc n)
  show ?case
  proof (cases "body s")
    case (Pair r s')
    show ?thesis
    proof (cases r)
      case (Inr v)
      with Suc.prems Pair have "good s t" using done_good by simp
      then show ?thesis using rel_refl by blast
    next
      case (Inl e)
      show ?thesis
      proof (cases "handler e")
        case Again
        with Suc.prems Pair Inl have "retry body handler wait n (wait s') = Some (Inr u, t)" by simp
        from Suc.IH [OF this] obtain s1 where "rel (wait s') s1" "good s1 t \<or> (\<exists>e. handler e = Leave \<and> skipped e s1 t)"
          by blast
        moreover have "rel s (wait s')" using again Pair Inl Again by blast
        ultimately show ?thesis using rel_trans by blast
      next
        case Leave
        with Suc.prems Pair Inl have "skipped e s t" using left_skipped by simp
        with Leave show ?thesis using rel_refl by blast
      next
        case Through
        with Suc.prems Pair Inl show ?thesis by simp
      qed
    qed
  qed
qed simp

text \<open>Only what is not an \<open>Exception\<close> escapes the loop.\<close>

lemma retry_escapes: "retry body handler wait n s = Some (Inl e, t) \<Longrightarrow> \<not> is_Exception e"
proof (induction n arbitrary: s)
  case (Suc n)
  then show ?case
    using never_through by (auto split: prod.splits sum.splits verdict.splits)
qed simp

end

section \<open>Loops over a stream\<close>

text \<open>
  \<open>for x in stream\<close>: the stream delivers values and may raise instead, which ends the loop, as an
  exception of the body does. A consumer that buffers what it receives keeps the interface
  \<open>buffered\<close>: what is stored and what is pending together are what was received, in order.
\<close>

fun iterate :: "('s \<Rightarrow> 'm \<Rightarrow> exn option \<times> 's) \<Rightarrow> (exn + 'm) list \<Rightarrow> 's \<Rightarrow> exn option \<times> 's" where
  "iterate step [] s = (None, s)"
| "iterate step (Inl e # events) s = (Some e, s)"
| "iterate step (Inr m # events) s =
     (case step s m of
        (Some e, s') \<Rightarrow> (Some e, s')
      | (None, s') \<Rightarrow> iterate step events s')"

definition values_of :: "(exn + 'm) list \<Rightarrow> 'm list" where
  "values_of events = List.map_filter (\<lambda>e. case e of Inl _ \<Rightarrow> None | Inr m \<Rightarrow> Some m) events"

lemma values_of_simps [simp]:
  "values_of [] = []"
  "values_of (Inl e # events) = values_of events"
  "values_of (Inr m # events) = m # values_of events"
  by (simp_all add: values_of_def map_filter_simps)

lemma iterate_keeps:
  assumes "\<And>s m e t. P s \<Longrightarrow> step s m = (e, t) \<Longrightarrow> P t"
  shows "P s \<Longrightarrow> iterate step events s = (e, t) \<Longrightarrow> P t"
proof (induction events arbitrary: s)
  case (Cons ev events)
  show ?case
  proof (cases ev)
    case (Inr m)
    obtain r s1 where r: "step s m = (r, s1)" by force
    with assms [OF Cons.prems(1) r] Cons Inr show ?thesis by (cases r) auto
  qed (use Cons.prems in simp)
qed simp

locale buffered =
  fixes step :: "'s \<Rightarrow> 'm \<Rightarrow> exn option \<times> 's"
    and stored :: "'s \<Rightarrow> 'm list"
    and pending :: "'s \<Rightarrow> 'm list"
  assumes conserve: "step s m = (e, t) \<Longrightarrow> stored t @ pending t = stored s @ pending s @ [m]"
begin

lemma iterate_conserves:
  "iterate step events s = (e, t) \<Longrightarrow>
     \<exists>ms rest. values_of events = ms @ rest \<and> stored t @ pending t = stored s @ pending s @ ms \<and>
       (e = None \<longrightarrow> rest = [])"
proof (induction events arbitrary: s)
  case (Cons ev events)
  show ?case
  proof (cases ev)
    case (Inl x)
    with Cons.prems show ?thesis by - (rule exI [of _ "[]"], rule exI [of _ "values_of events"], auto)
  next
    case (Inr m)
    obtain r s1 where r: "step s m = (r, s1)" by force
    note c = conserve [OF r]
    show ?thesis
    proof (cases r)
      case None
      with Cons.prems Inr r have "iterate step events s1 = (e, t)" by simp
      from Cons.IH [OF this] obtain ms rest where "values_of events = ms @ rest"
          "stored t @ pending t = stored s1 @ pending s1 @ ms" "e = None \<longrightarrow> rest = []" by blast
      with Inr c show ?thesis by - (rule exI [of _ "m # ms"], rule exI [of _ rest], simp)
    next
      case (Some x)
      with Cons.prems Inr r c show ?thesis
        by - (rule exI [of _ "[m]"], rule exI [of _ "values_of events"], auto)
    qed
  qed
qed simp

end

end
