(* ===== verification/IndexCollect.thy ===== *)
theory IndexCollect
  imports IndexCompare EsClient PyState "HOL-Library.List_Lexorder" "HOL-Library.Char_ord"
begin

text \<open>
  \<open>get_migration_validation_data.py\<close>: what is recorded of the indices that match the patterns, in two
  passes. The cluster is a parameter; its answers may change from one request to the next, so
  every request sees the number of requests made before it, which the computations thread. The
  Elasticsearch exceptions are the \<open>ServiceError\<close>s.
\<close>

section \<open>Requests\<close>

record cluster =
  all_indices :: "nat \<Rightarrow> (string, json) dict res"
  index_stats :: "nat \<Rightarrow> string \<Rightarrow> json res"
  ism_explain :: "nat \<Rightarrow> string \<Rightarrow> json res"
  index_alias :: "nat \<Rightarrow> string \<Rightarrow> json res"

type_synonym 'a ask = "(nat, 'a) run"

definition ask :: "(nat \<Rightarrow> 'a res) \<Rightarrow> 'a ask" where
  "ask f = (\<lambda>n. (f n, n + 1))"

definition except_es :: "'a \<Rightarrow> exn \<Rightarrow> 'a res" where
  "except_es x e = (if is_es_exception e then Inr x else Inl e)"

section \<open>The readings\<close>

definition matching :: "string list \<Rightarrow> string list \<Rightarrow> string list" where
  "matching names patterns = concat (map (\<lambda>pattern. filter (\<lambda>index. fnmatch index pattern) names) patterns)"

definition get_matching_indices :: "cluster \<Rightarrow> string list \<Rightarrow> string list ask" where
  "get_matching_indices es patterns =
     acatch (abind (ask (all_indices es)) (\<lambda>all. aret (Inr (matching (dkeys all) patterns)))) (except_es [])"

definition get_index_doc_count :: "cluster \<Rightarrow> string \<Rightarrow> json ask" where
  "get_index_doc_count es index =
     acatch
       (abind (ask (\<lambda>n. index_stats es n index)) (\<lambda>stats. aret
         (rbind (py_item stats ''_all'') (\<lambda>a. rbind (py_item a ''primaries'') (\<lambda>p.
          rbind (py_item p ''docs'') (\<lambda>d. py_item d ''count''))))))
       (except_es JNull)"

definition policy_setting :: "json \<Rightarrow> string \<Rightarrow> string \<Rightarrow> json res" where
  "policy_setting index_settings index key =
     rbind (py_item index_settings index) (\<lambda>s. py_get s key JNull)"

definition get_ism_policy :: "(exn \<Rightarrow> string) \<Rightarrow> cluster \<Rightarrow> string \<Rightarrow> json ask" where
  "get_ism_policy show_exn es index =
     acatch
       (abind (ask (\<lambda>n. ism_explain es n index)) (\<lambda>s. aret
         (rbind (policy_setting s index ''index.plugins.index_state_management.policy_id'') (\<lambda>p.
          rbind (if truthy p then Inr p
                 else policy_setting s index ''index.opendistro.index_state_management.policy_id'') (\<lambda>p.
            Inr (if truthy p then p else JNull))))))
       (\<lambda>e. if is_Exception e then Inr (JStr (''Error retrieving ISM policy ID: '' @ show_exn e)) else Inl e)"

definition get_aliases :: "cluster \<Rightarrow> string \<Rightarrow> json ask" where
  "get_aliases es index =
     acatch
       (abind (ask (\<lambda>n. index_alias es n index)) (\<lambda>a. aret
         (rbind (py_get a index (JObj [])) (\<lambda>x. py_get x ''aliases'' (JObj [])))))
       (except_es JNull)"

text \<open>\<open>dict(sorted(d.items()))\<close>: the keys are distinct, so only they are compared.\<close>

definition dsorted :: "(string, 'v) dict \<Rightarrow> (string, 'v) dict" where
  "dsorted d = sort_key fst d"

definition collect_index_info :: "(exn \<Rightarrow> string) \<Rightarrow> cluster \<Rightarrow> string \<Rightarrow> (string, json) dict ask" where
  "collect_index_info show_exn es index =
     abind (get_aliases es index) (\<lambda>aliases.
     abind (get_ism_policy show_exn es index) (\<lambda>ism_policy.
     abind (get_index_doc_count es index) (\<lambda>document_count.
       aret (Inr (dsorted [(''aliases'', aliases), (''ism_policy'', ism_policy), (''document_count'', document_count)])))))"

section \<open>The two passes\<close>

type_synonym index_data = "(string, (string, json) dict) dict"

fun first_pass :: "(exn \<Rightarrow> string) \<Rightarrow> cluster \<Rightarrow> string list \<Rightarrow> index_data \<Rightarrow> index_data ask" where
  "first_pass show_exn es [] data = aret (Inr data)"
| "first_pass show_exn es (index # indices) data =
     abind (collect_index_info show_exn es index) (\<lambda>info.
       first_pass show_exn es indices (dset data index info))"

text \<open>\<open>any(alias.get("is_write_index", False) for alias in ...)\<close> stops at the first alias that has it.\<close>

fun any_write_index :: "json list \<Rightarrow> bool res" where
  "any_write_index [] = Inr False"
| "any_write_index (alias # as) =
     rbind (py_get alias ''is_write_index'' (JBool False)) (\<lambda>v. if truthy v then Inr True else any_write_index as)"

definition second_info :: "json \<Rightarrow> (string, json) dict \<Rightarrow> (string, json) dict res" where
  "second_info count2 info =
     (let info = dset info ''document_count2'' count2 in
      rbind (ditem info ''document_count2'') (\<lambda>c2.
      rbind (ditem info ''document_count'') (\<lambda>c.
        let info = dset info ''document_count_delta'' (JBool (\<not> py_eq c2 c)) in
        rbind (ditem info ''aliases'') (\<lambda>a.
        rbind (py_values a) (\<lambda>as.
        rbind (any_write_index as) (\<lambda>w. Inr (dset info ''has_write_alias'' (JBool w))))))))"

fun second_pass :: "cluster \<Rightarrow> string list \<Rightarrow> index_data \<Rightarrow> index_data ask" where
  "second_pass es [] data = aret (Inr data)"
| "second_pass es (index # indices) data =
     abind (get_index_doc_count es index) (\<lambda>count2.
     abind (aret (rbind (ditem data index) (second_info count2))) (\<lambda>info.
       second_pass es indices (dset data index info)))"

definition parse_patterns :: "string \<Rightarrow> string list" where
  "parse_patterns arg = map strip (split_on (CHR '','') arg)"

text \<open>What is written to the output file, once nothing has raised. \<open>time.sleep\<close> refuses a negative number.\<close>

definition collect_output ::
  "(exn \<Rightarrow> string) \<Rightarrow> cluster \<Rightarrow> string list \<Rightarrow> int \<Rightarrow> string \<Rightarrow> string \<Rightarrow> json ask" where
  "collect_output show_exn es patterns waitsec es_host now =
     abind (get_matching_indices es patterns) (\<lambda>indices.
     abind (first_pass show_exn es indices []) (\<lambda>data.
     abind (aret (rguard (0 \<le> waitsec) (ValueError ''sleep length must be non-negative''))) (\<lambda>_.
     abind (second_pass es indices data) (\<lambda>data.
       aret (Inr (JObj
         [(''cluster_url'', JStr es_host), (''data_collected_at'', JStr now), (''waitsec'', JStr (show_int waitsec)),
          (''indices'', JObj (map (\<lambda>(k, info). (k, JObj info)) (dsorted data)))]))))))"

definition collect_main ::
  "(exn \<Rightarrow> string) \<Rightarrow> (es_client \<Rightarrow> cluster) \<Rightarrow> string \<Rightarrow>
   string \<Rightarrow> string \<Rightarrow> string \<Rightarrow> string option \<Rightarrow> string option \<Rightarrow> json res" where
  "collect_main show_exn connect now patterns waitsec es_host es_user es_password =
     rbind (py_int waitsec) (\<lambda>waitsec.
     rbind (create_es_client es_host es_user es_password) (\<lambda>client.
       fst (collect_output show_exn (connect client) (parse_patterns patterns) waitsec es_host now 0)))"

section \<open>Facts\<close>

lemma ask_run [simp]: "ask f n = (f n, n + 1)"
  by (simp add: ask_def)

text \<open>The entry of an index after the first and after the second pass.\<close>

definition base_entry :: "(string, json) dict \<Rightarrow> bool" where
  "base_entry d \<longleftrightarrow> (\<exists>a c p. d = [(''aliases'', a), (''document_count'', c), (''ism_policy'', p)])"

definition info_sound :: "index_info \<Rightarrow> bool" where
  "info_sound i \<longleftrightarrow>
     delta i = (\<not> py_eq (document_count2 i) (document_count i)) \<and>
     (\<exists>as. aliases i = JObj as \<and> any_write_index (map snd as) = Inr (write_alias i))"

definition full_entry :: "(string, json) dict \<Rightarrow> bool" where
  "full_entry d \<longleftrightarrow> (\<exists>i. d = info_dict i \<and> info_sound i)"

lemma dsorted_info:
  "dsorted [(''aliases'', a), (''ism_policy'', p), (''document_count'', c)] =
     [(''aliases'', a), (''document_count'', c), (''ism_policy'', p)]"
proof -
  have "''aliases'' < ''document_count''" "''document_count'' < ''ism_policy''" "''aliases'' < ''ism_policy''"
    by (simp_all add: less_char_def)
  then show ?thesis by (simp add: dsorted_def)
qed

lemma collect_index_info_base:
  "collect_index_info show_exn es index n = (Inr info, n') \<Longrightarrow> base_entry info"
  by (auto simp: collect_index_info_def abind_Inr dsorted_info base_entry_def)

lemma first_pass_entries:
  "first_pass show_exn es indices data n = (Inr data', n') \<Longrightarrow>
     (\<forall>(k, d) \<in> set data. base_entry d) \<Longrightarrow> dict_ok data \<Longrightarrow>
     (\<forall>(k, d) \<in> set data'. base_entry d) \<and> dict_ok data' \<and> set (dkeys data') = set (dkeys data) \<union> set indices"
proof (induction indices arbitrary: data n)
  case (Cons index indices)
  then obtain info n1 where i: "collect_index_info show_exn es index n = (Inr info, n1)"
      "first_pass show_exn es indices (dset data index info) n1 = (Inr data', n')"
    by (auto simp: abind_Inr)
  have "set (dset data index info) \<subseteq> insert (index, info) (set data)"
    unfolding dset_def by (induction data) auto
  with Cons.prems(2) collect_index_info_base [OF i(1)] have "\<forall>(k, d) \<in> set (dset data index info). base_entry d"
    by blast
  from Cons.IH [OF i(2) this pd.ok_put [OF Cons.prems(3)]] show ?case
    by (auto simp: pd.set_keys_put)
qed simp

text \<open>The second pass over one index, from either kind of entry.\<close>

lemma dset_simps [simp]:
  "dset [] k v = [(k, v)]"
  "dset ((k', v') # d) k v = (if k' = k then (k, v) # d else (k', v') # dset d k v)"
  by (auto simp: dset_def)

lemma second_info_full:
  assumes "base_entry info \<or> full_entry info" "second_info count2 info = Inr info'"
  shows "full_entry info'"
proof -
  obtain a c p rest where info: "info = (''aliases'', a) # (''document_count'', c) # (''ism_policy'', p) # rest"
      "rest = [] \<or> (\<exists>x y z. rest = [(''document_count2'', x), (''document_count_delta'', y), (''has_write_alias'', z)])"
    using assms(1) by (auto simp: base_entry_def full_entry_def info_dict_def)
  from assms(2) obtain as w where as: "a = JObj as" "any_write_index (map snd as) = Inr w"
    using info by (auto simp: second_info_def Let_def ditem_def rbind_eq_Inr py_values_def split: json.splits)
  have "info' = info_dict \<lparr>aliases = a, document_count = c, ism_policy = p, document_count2 = count2,
      delta = \<not> py_eq count2 c, write_alias = w\<rparr>"
    using assms(2) info as by (auto simp: second_info_def Let_def ditem_def py_values_def info_dict_def)
  with as show ?thesis by (force simp: full_entry_def info_sound_def)
qed

lemma set_dset_ok: "dict_ok d \<Longrightarrow> set (dset d k v) = insert (k, v) {kv \<in> set d. fst kv \<noteq> k}"
  by (induction d) (force simp: dget_eq_None split: if_splits)+

lemma second_pass_entries:
  "second_pass es indices data n = (Inr data', n') \<Longrightarrow>
     (\<forall>(k, d) \<in> set data. full_entry d \<or> base_entry d \<and> k \<in> set indices) \<Longrightarrow> dict_ok data \<Longrightarrow>
     (\<forall>(k, d) \<in> set data'. full_entry d) \<and> dict_ok data' \<and> set (dkeys data') = set (dkeys data) \<union> set indices"
proof (induction indices arbitrary: data n)
  case (Cons index indices)
  then obtain c2 n1 old info where i: "ditem data index = Inr old" "second_info c2 old = Inr info"
      "second_pass es indices (dset data index info) n1 = (Inr data', n')"
    by (auto simp: abind_Inr rbind_eq_Inr)
  from i(1) have "(index, old) \<in> set data" by (simp add: ditem_Inr dget_Some_in)
  with Cons.prems(2) have "base_entry old \<or> full_entry old" by blast
  from second_info_full [OF this i(2)] Cons.prems(2)
  have "\<forall>(k, d) \<in> set (dset data index info). full_entry d \<or> base_entry d \<and> k \<in> set indices"
    by (auto simp: set_dset_ok [OF Cons.prems(3)])
  from Cons.IH [OF i(3) this pd.ok_put [OF Cons.prems(3)]] show ?case
    by (auto simp: pd.set_keys_put)
qed simp

lemma dsorted_facts:
  "set (dsorted d) = set d" "sorted (map fst (dsorted d))" "dict_ok d \<Longrightarrow> sorted_wrt (<) (map fst (dsorted d))"
proof -
  show s: "set (dsorted d) = set d" "sorted (map fst (dsorted d))" by (simp_all add: dsorted_def)
  assume "dict_ok d"
  then have "distinct (map fst (dsorted d))"
    by (simp add: dict_ok_def dsorted_def distinct_map inj_on_def)
  with s(2) show "sorted_wrt (<) (map fst (dsorted d))" by (simp add: strict_sorted_iff)
qed

lemma full_entries_info:
  "(\<forall>(k, d) \<in> set data. full_entry d) \<Longrightarrow>
     \<exists>infos. data = map (\<lambda>(k, i). (k, info_dict i)) infos \<and> (\<forall>(k, i) \<in> set infos. info_sound i)"
proof (induction data)
  case (Cons kd data)
  obtain k d where kd: "kd = (k, d)" by force
  with Cons.prems obtain i where i: "d = info_dict i" "info_sound i" by (auto simp: full_entry_def)
  from Cons obtain infos where "data = map (\<lambda>(k, i). (k, info_dict i)) infos" "\<forall>(k, i) \<in> set infos. info_sound i" by auto
  with kd i show ?case by (intro exI [of _ "(k, i) # infos"]) auto
qed simp

text \<open>The names that match, of the answer to the first request.\<close>

definition matching_names :: "cluster \<Rightarrow> string list \<Rightarrow> string set" where
  "matching_names es patterns =
     (case all_indices es 0 of Inl _ \<Rightarrow> {} | Inr all \<Rightarrow> {k \<in> set (dkeys all). \<exists>p \<in> set patterns. fnmatch k p})"

lemma get_matching_indices_set:
  "get_matching_indices es patterns 0 = (Inr indices, n) \<Longrightarrow> set indices = matching_names es patterns \<and> n = 1"
  by (auto simp: get_matching_indices_def acatch_def abind_def except_es_def matching_def matching_names_def
      split: sum.splits if_splits)

lemma collect_output_entries:
  assumes "collect_output show_exn es patterns waitsec es_host now 0 = (Inr out, n')"
  shows "\<exists>d infos. out = JObj d \<and> dget d ''indices'' = Some (JObj (map (\<lambda>(k, i). (k, info_json i)) infos)) \<and>
    sorted_wrt (<) (map fst infos) \<and> fst ` set infos = matching_names es patterns \<and> (\<forall>(k, i) \<in> set infos. info_sound i)"
proof -
  from assms obtain indices n1 data n2 n3 data' n4 where
      m: "get_matching_indices es patterns 0 = (Inr indices, n1)"
      and p1: "first_pass show_exn es indices [] n1 = (Inr data, n2)"
      and p2: "second_pass es indices data n3 = (Inr data', n4)"
      and out: "out = JObj [(''cluster_url'', JStr es_host), (''data_collected_at'', JStr now),
        (''waitsec'', JStr (show_int waitsec)), (''indices'', JObj (map (\<lambda>(k, info). (k, JObj info)) (dsorted data')))]"
    by (auto simp: collect_output_def abind_Inr)
  from first_pass_entries [OF p1] have d1: "\<forall>(k, d) \<in> set data. base_entry d" "dict_ok data"
      "set (dkeys data) = set indices"
    by (auto simp: dkeys_def)
  then have "\<forall>(k, d) \<in> set data. full_entry d \<or> base_entry d \<and> k \<in> set indices"
    by (force simp: dkeys_def)
  from second_pass_entries [OF p2 this d1(2)] d1(3) have d2: "\<forall>(k, d) \<in> set data'. full_entry d" "dict_ok data'"
      "set (dkeys data') = set indices"
    by auto
  from d2(1) have "\<forall>(k, d) \<in> set (dsorted data'). full_entry d" by (simp add: dsorted_facts(1))
  from full_entries_info [OF this] obtain infos where
      infos: "dsorted data' = map (\<lambda>(k, i). (k, info_dict i)) infos" "\<forall>(k, i) \<in> set infos. info_sound i"
    by blast
  have keys: "map fst infos = map fst (dsorted data')" using infos(1) by (simp add: case_prod_unfold)
  then have "fst ` set infos = set (dkeys data')"
    by (metis dkeys_def dsorted_facts(1) list.set_map)
  with d2(3) get_matching_indices_set [OF m] have "fst ` set infos = matching_names es patterns" by simp
  moreover have "sorted_wrt (<) (map fst infos)" using keys dsorted_facts(3) [OF d2(2)] by simp
  moreover have "map (\<lambda>(k, info). (k, JObj info)) (dsorted data') = map (\<lambda>(k, i). (k, info_json i)) infos"
    by (auto simp: infos(1) info_json_def)
  moreover obtain d where "out = JObj d"
      "dget d ''indices'' = Some (JObj (map (\<lambda>(k, info). (k, JObj info)) (dsorted data')))"
    using out by simp
  ultimately show ?thesis using infos(2) by (intro exI [of _ d] exI [of _ infos]) simp
qed

lemma collect_main_run:
  assumes "collect_main show_exn connect now patterns waitsec es_host user pw = Inr out"
  shows "\<exists>w client n'. py_int waitsec = Inr w \<and> create_es_client es_host user pw = Inr client \<and>
    collect_output show_exn (connect client) (parse_patterns patterns) w es_host now 0 = (Inr out, n')"
  using assms by (auto simp: collect_main_def rbind_eq_Inr intro: prod.collapse) (metis prod.collapse)

lemma compare_recorded:
  assumes "dget d1 ''indices'' = Some (JObj (map (\<lambda>(k, i). (k, info_json i)) before))"
    and "dget d2 ''indices'' = Some (JObj (map (\<lambda>(k, i). (k, info_json i)) after))"
  shows "compare_indices (JObj d1) (JObj d2) = Inr (tally_of (severities before after))"
proof -
  have "compare_loop (JObj d2) (map (\<lambda>(k, i). (k, info_json i)) before) no_counts =
      compare_loop (recorded after) (map (\<lambda>(k, i). (k, info_json i)) before) no_counts"
    unfolding recorded_def by (rule compare_loop_lookup [OF refl assms(2)]) simp
  then show ?thesis
    using assms(1) by (simp add: compare_indices_def py_get_def dget_or_def compare_loop_info no_counts_tally fold_add_sev)
qed

section \<open>Properties\<close>

text \<open>C9. A file that is written records each index that matches one of the patterns exactly once, in the order of
  the names, however often it was matched; its delta flag says whether the two counts differ and its
  write flag whether one of its aliases is a write index.\<close>

theorem collected_entries:
  assumes "collect_main show_exn connect now patterns waitsec es_host user pw = Inr out"
  shows "\<exists>client d infos. create_es_client es_host user pw = Inr client \<and>
    out = JObj d \<and> dget d ''indices'' = Some (JObj (map (\<lambda>(k, i). (k, info_json i)) infos)) \<and>
    sorted_wrt (<) (map fst infos) \<and>
    fst ` set infos = matching_names (connect client) (parse_patterns patterns) \<and>
    (\<forall>(k, i) \<in> set infos. info_sound i)"
proof -
  from collect_main_run [OF assms] obtain w client n' where "create_es_client es_host user pw = Inr client"
      "collect_output show_exn (connect client) (parse_patterns patterns) w es_host now 0 = (Inr out, n')"
    by blast
  with collect_output_entries [OF this(2)] show ?thesis by blast
qed

text \<open>C28. Two files that the collector wrote are always comparable: the comparison raises nothing, and its
  result is that of the severities of the indices of the first file.\<close>

theorem collected_comparable:
  assumes "collect_main show_exn1 connect1 now1 patterns1 waitsec1 es_host1 user1 pw1 = Inr out1"
    and "collect_main show_exn2 connect2 now2 patterns2 waitsec2 es_host2 user2 pw2 = Inr out2"
  shows "\<exists>before after. compare_indices out1 out2 = Inr (tally_of (severities before after)) \<and>
    (\<exists>d. out1 = JObj d \<and> dget d ''indices'' = Some (JObj (map (\<lambda>(k, i). (k, info_json i)) before))) \<and>
    (\<exists>d. out2 = JObj d \<and> dget d ''indices'' = Some (JObj (map (\<lambda>(k, i). (k, info_json i)) after)))"
proof -
  from collect_main_run [OF assms(1)] collect_output_entries obtain d1 before where
    1: "out1 = JObj d1" "dget d1 ''indices'' = Some (JObj (map (\<lambda>(k, i). (k, info_json i)) before))" by blast
  from collect_main_run [OF assms(2)] collect_output_entries obtain d2 after where
    2: "out2 = JObj d2" "dget d2 ''indices'' = Some (JObj (map (\<lambda>(k, i). (k, info_json i)) after))" by blast
  from compare_recorded [OF 1(2) 2(2)] 1 2 show ?thesis by blast
qed

text \<open>A policy that cannot be read becomes an error text, whatever went wrong.\<close>

lemma get_ism_policy_total:
  assumes "\<And>n e. ism_explain es n index = Inl e \<Longrightarrow> is_Exception e"
  shows "\<exists>p n'. get_ism_policy show_exn es index n = (Inr p, n')"
proof -
  have exn: "policy_setting s index k = Inl e \<Longrightarrow> is_Exception e" for s k e
    by (auto simp: policy_setting_def py_item_def ditem_def py_get_def is_Exception_def
        split: json.splits option.splits)
  show ?thesis
    using assms [of n]
    by (auto simp: get_ism_policy_def acatch_def abind_def rbind_eq_Inl dest: exn
        split: sum.splits if_splits)
qed

definition no_aliases :: "(string, json) dict \<Rightarrow> bool" where
  "no_aliases d \<longleftrightarrow> (\<exists>c p. d = [(''aliases'', JNull), (''document_count'', c), (''ism_policy'', p)])"

lemma first_pass_no_aliases:
  assumes "\<And>n i. index_alias es n i = Inl (ServiceError m)"
    and "\<And>n i. \<exists>c n'. get_index_doc_count es i n = (Inr c, n')"
    and "\<And>n i e. ism_explain es n i = Inl e \<Longrightarrow> is_Exception e"
  shows "\<forall>(k, d) \<in> set data. no_aliases d \<Longrightarrow> dict_ok data \<Longrightarrow>
    \<exists>data' n'. first_pass show_exn es indices data n = (Inr data', n') \<and> (\<forall>(k, d) \<in> set data'. no_aliases d)"
proof (induction indices arbitrary: data n)
  case (Cons index indices)
  have "get_aliases es index n = (Inr JNull, n + 1)"
    using assms(1) by (simp add: get_aliases_def acatch_def abind_def except_es_def is_es_exception_def)
  moreover obtain p n1 where "get_ism_policy show_exn es index (n + 1) = (Inr p, n1)"
    using get_ism_policy_total [of es index] assms(3) by blast
  moreover obtain c n2 where "get_index_doc_count es index n1 = (Inr c, n2)"
    using assms(2) by blast
  ultimately obtain info where info: "collect_index_info show_exn es index n = (Inr info, n2)" "no_aliases info"
    by (simp add: collect_index_info_def abind_def dsorted_info no_aliases_def)
  have "\<forall>(k, d) \<in> set (dset data index info). no_aliases d"
    using Cons.prems(1) info(2) by (auto simp: set_dset_ok [OF Cons.prems(2)])
  from Cons.IH [OF this pd.ok_put [OF Cons.prems(2)], of n2] info(1) show ?case
    by (auto simp: abind_def)
qed simp

lemma second_info_no_aliases:
  "no_aliases info \<Longrightarrow> second_info c info = Inl (AttributeError ''values'')"
  by (auto simp: no_aliases_def second_info_def Let_def ditem_def py_values_def)

text \<open>When the aliases cannot be read the collector means to go on with \<open>None\<close>, but the second pass stops with
  an \<open>AttributeError\<close> at the first index, so that nothing is written.\<close>

theorem unreadable_aliases_abort:
  assumes "py_int waitsec = Inr w" "0 \<le> w" "create_es_client es_host user pw = Inr client" "es = connect client"
    and "\<And>n i. index_alias es n i = Inl (ServiceError m)"
    and "\<And>n i. \<exists>c n'. get_index_doc_count es i n = (Inr c, n')"
    and "\<And>n i e. ism_explain es n i = Inl e \<Longrightarrow> is_Exception e"
    and "all_indices es 0 = Inr all" "matching (dkeys all) (parse_patterns patterns) \<noteq> []"
  shows "collect_main show_exn connect now patterns waitsec es_host user pw = Inl (AttributeError ''values'')"
proof -
  from assms(9) obtain index indices where ix: "matching (dkeys all) (parse_patterns patterns) = index # indices"
    by (cases "matching (dkeys all) (parse_patterns patterns)") auto
  then have m: "get_matching_indices es (parse_patterns patterns) 0 = (Inr (index # indices), 1)"
    using assms(8) by (simp add: get_matching_indices_def acatch_def abind_def)
  have "\<exists>data n1. first_pass show_exn es (index # indices) [] 1 = (Inr data, n1) \<and> (\<forall>(k, d) \<in> set data. no_aliases d)"
  proof (rule first_pass_no_aliases [OF assms(5,6)])
    show "ism_explain es n i = Inl e \<Longrightarrow> is_Exception e" for n i e by (rule assms(7))
  qed simp_all
  then obtain data n1 where
    p1: "first_pass show_exn es (index # indices) [] 1 = (Inr data, n1)" "\<forall>(k, d) \<in> set data. no_aliases d"
    by blast
  from first_pass_entries [OF p1(1)] have "index \<in> set (dkeys data)" by simp
  then obtain old where old: "dget data index = Some old" by (auto simp: pd.keys_get)
  with p1(2) have "no_aliases old" by (auto dest: dget_Some_in)
  moreover obtain c n2 where "get_index_doc_count es index n1 = (Inr c, n2)" using assms(6) by blast
  ultimately have "fst (second_pass es (index # indices) data n1) = Inl (AttributeError ''values'')"
    using old by (simp add: abind_def ditem_def second_info_no_aliases)
  then have "fst (collect_output show_exn es (parse_patterns patterns) w es_host now 0) = Inl (AttributeError ''values'')"
    using assms(2) m p1(1) by (auto simp: collect_output_def abind_def split: prod.splits sum.splits)
  then show ?thesis using assms(1,3,4) by (simp add: collect_main_def)
qed

section \<open>Runs\<close>

definition demo_cluster :: cluster where
  "demo_cluster =
     \<lparr>all_indices = (\<lambda>_. Inr [(''logs-2'', JNull), (''old'', JNull), (''logs-1'', JNull)]),
      index_stats = (\<lambda>n i. Inr (JObj [(''_all'', JObj [(''primaries'', JObj [(''docs'',
        JObj [(''count'', if i = ''logs-1'' then JInt (int n) else JInt 5)])])])])),
      ism_explain = (\<lambda>_ i. if i = ''old'' then Inl (ServiceError ''404'')
        else Inr (JObj [(i, JObj [(''index.opendistro.index_state_management.policy_id'', JStr ''hot'')])])),
      index_alias = (\<lambda>_ i. Inr (JObj [(i, JObj [(''aliases'',
        if i = ''logs-2'' then JObj [(''logs'', JObj [(''is_write_index'', JBool True)])] else JObj [])])]))\<rparr>"

definition demo_infos :: "(string \<times> index_info) list" where
  "demo_infos =
     [(''logs-1'', \<lparr>aliases = JObj [], document_count = JInt 9, ism_policy = JStr ''hot'', document_count2 = JInt 12,
                   delta = True, write_alias = False\<rparr>),
      (''logs-2'', \<lparr>aliases = JObj [(''logs'', JObj [(''is_write_index'', JBool True)])], document_count = JInt 5,
                   ism_policy = JStr ''hot'', document_count2 = JInt 5, delta = False, write_alias = True\<rparr>)]"

lemma demo_collect:
  "collect_main (\<lambda>_. ''error'') (\<lambda>_. demo_cluster) ''2024'' ''logs*, logs-1'' ''10'' ''http://es'' None None =
     Inr (JObj [(''cluster_url'', JStr ''http://es''), (''data_collected_at'', JStr ''2024''), (''waitsec'', JStr ''10''),
       (''indices'', JObj (map (\<lambda>(k, i). (k, info_json i)) demo_infos))])"
  by code_simp

theorem collected_entries_witness:
  "\<exists>infos. fst ` set infos = matching_names demo_cluster [''logs*'', ''logs-1''] \<and> (\<forall>(k, i) \<in> set infos. info_sound i) \<and>
     JObj (map (\<lambda>(k, i). (k, info_json i)) infos) = JObj (map (\<lambda>(k, i). (k, info_json i)) demo_infos)"
proof -
  have "parse_patterns ''logs*, logs-1'' = [''logs*'', ''logs-1'']" by code_simp
  with collected_entries [OF demo_collect] show ?thesis by (auto simp del: py_eq.simps) metis
qed

theorem collected_comparable_witness:
  "\<exists>out before after. compare_indices out out = Inr (tally_of (severities before after))"
  using collected_comparable [OF demo_collect demo_collect] by blast

definition forbidden_cluster :: cluster where
  "forbidden_cluster = demo_cluster\<lparr>index_alias := \<lambda>_ _. Inl (ServiceError ''403'')\<rparr>"

theorem unreadable_aliases_abort_witness:
  "collect_main (\<lambda>_. ''error'') (\<lambda>_. forbidden_cluster) ''2024'' ''*'' ''10'' ''http://es'' None None =
     Inl (AttributeError ''values'')"
proof -
  have w: "py_int ''10'' = Inr 10" by code_simp
  have client: "create_es_client ''http://es'' None None = Inr
      \<lparr>c_url = ''http://es:9200'', c_auth = None, c_scheme = ''http'', c_port = 9200, c_verify_certs = False\<rparr>" by code_simp
  have count: "\<exists>c n'. get_index_doc_count forbidden_cluster i n = (Inr c, n')" for n i
    by (simp add: get_index_doc_count_def acatch_def abind_def forbidden_cluster_def demo_cluster_def py_item_def ditem_def)
  have explain: "ism_explain forbidden_cluster n i = Inl e \<Longrightarrow> is_Exception e" for n i e
    by (auto simp: forbidden_cluster_def demo_cluster_def is_Exception_def split: if_splits)
  have all: "all_indices forbidden_cluster 0 = Inr [(''logs-2'', JNull), (''old'', JNull), (''logs-1'', JNull)]"
    by (simp add: forbidden_cluster_def demo_cluster_def)
  have matches: "matching (dkeys [(''logs-2'', JNull), (''old'', JNull), (''logs-1'', JNull)]) (parse_patterns ''*'') \<noteq> []"
    by code_simp
  show ?thesis
    by (rule unreadable_aliases_abort [OF w _ client refl _ count explain all matches])
      (simp_all add: forbidden_cluster_def)
qed

end
