(* ===== verification/PyDatetime.thy ===== *)
theory PyDatetime
  imports PyPrelude
begin

text \<open>
  \<open>datetime.date\<close> and \<open>datetime.datetime\<close> as far as the programs use them: the proleptic Gregorian calendar, the ordinal of a
  date and the date of an ordinal (\<open>_ymd2ord\<close> and \<open>_ord2ymd\<close> of the standard library), and the sum with a difference of
  time, which is a number of microseconds here. The lemmas say that the ordinals number the days of the calendar one after
  the other, without gaps, so that there is exactly one date for each ordinal in the range.
\<close>

type_synonym date = "int \<times> int \<times> int"

type_synonym clock_time = "int \<times> int \<times> int \<times> int"

section \<open>The calendar\<close>

definition is_leap :: "int \<Rightarrow> bool" where
  "is_leap y = (y mod 4 = 0 \<and> (y mod 100 \<noteq> 0 \<or> y mod 400 = 0))"

definition month_days :: "int \<Rightarrow> int list" where
  "month_days y = [31, if is_leap y then 29 else 28, 31, 30, 31, 30, 31, 31, 30, 31, 30, 31]"

definition days_in_month :: "int \<Rightarrow> int \<Rightarrow> int" where
  "days_in_month y m = month_days y ! nat (m - 1)"

fun valid_date :: "date \<Rightarrow> bool" where
  "valid_date (y, m, d) \<longleftrightarrow> 1 \<le> y \<and> y \<le> 9999 \<and> 1 \<le> m \<and> m \<le> 12 \<and> 1 \<le> d \<and> d \<le> days_in_month y m"

definition days_before_year :: "int \<Rightarrow> int" where
  "days_before_year y = (y - 1) * 365 + (y - 1) div 4 - (y - 1) div 100 + (y - 1) div 400"

definition days_before_month :: "int \<Rightarrow> int \<Rightarrow> int" where
  "days_before_month y m = sum_list (take (nat (m - 1)) (month_days y))"

fun ymd2ord :: "date \<Rightarrow> int" where
  "ymd2ord (y, m, d) = days_before_year y + days_before_month y m + d"

text \<open>The month and the day of a day of the year, which counts from 0.\<close>

fun locate :: "int list \<Rightarrow> int \<Rightarrow> int \<times> int" where
  "locate [] n = (1, n + 1)"
| "locate (l # ls) n = (if n < l then (1, n + 1) else (case locate ls (n - l) of (m, d) \<Rightarrow> (m + 1, d)))"

text \<open>Cycles of 400, 100, 4 years and of one; the last day of a cycle that has one more falls out of them.\<close>

definition ord2ymd :: "int \<Rightarrow> date" where
  "ord2ymd ordinal =
     (let n = ordinal - 1; n400 = n div 146097; r400 = n mod 146097; n100 = r400 div 36524; r100 = r400 mod 36524;
          n4 = r100 div 1461; r4 = r100 mod 1461; n1 = r4 div 365; r1 = r4 mod 365;
          year = n400 * 400 + n100 * 100 + n4 * 4 + n1 + 1
      in if n1 = 4 \<or> n100 = 4 then (year - 1, 12, 31) else (case locate (month_days year) r1 of (m, d) \<Rightarrow> (year, m, d)))"

definition MAXORDINAL :: int where
  "MAXORDINAL = ymd2ord (9999, 12, 31)"

section \<open>Sums\<close>

definition DAY :: int where
  "DAY = 86400000000"

text \<open>\<open>date + timedelta\<close>: the days of the difference count.\<close>

definition date_plus :: "date \<Rightarrow> int \<Rightarrow> date res" where
  "date_plus dt us =
     (let ordinal = ymd2ord dt + us div DAY in
      if 0 < ordinal \<and> ordinal \<le> MAXORDINAL then Inr (ord2ymd ordinal) else Inl (OverflowError ''date value out of range''))"

fun time_us :: "clock_time \<Rightarrow> int" where
  "time_us (h, mi, s, us) = ((h * 60 + mi) * 60 + s) * 1000000 + us"

fun valid_time :: "clock_time \<Rightarrow> bool" where
  "valid_time (h, mi, s, us) \<longleftrightarrow> 0 \<le> h \<and> h < 24 \<and> 0 \<le> mi \<and> mi < 60 \<and> 0 \<le> s \<and> s < 60 \<and> 0 \<le> us \<and> us < 1000000"

definition clock_of :: "int \<Rightarrow> clock_time" where
  "clock_of us = (let s = us div 1000000; mi = s div 60 in (mi div 60, mi mod 60, s mod 60, us mod 1000000))"

fun datetime_plus :: "date \<times> clock_time \<Rightarrow> int \<Rightarrow> (date \<times> clock_time) res" where
  "datetime_plus (dt, tm) us =
     (let delta = ymd2ord dt * DAY + time_us tm + us; days = delta div DAY in
      if 0 < days \<and> days \<le> MAXORDINAL then Inr (ord2ymd days, clock_of (delta mod DAY))
      else Inl (OverflowError ''date value out of range''))"

section \<open>The calendar numbers its days\<close>

lemma length_month_days [simp]: "length (month_days y) = 12"
  by (simp add: month_days_def)

lemma month_days_pos: "x \<in> set (month_days y) \<Longrightarrow> 0 < x"
  by (auto simp: month_days_def split: if_splits)

lemma sum_month_days: "sum_list (month_days y) = (if is_leap y then 366 else 365)"
  by (simp add: month_days_def)

lemma locate_run:
  "locate ls n = (m, d) \<Longrightarrow> 0 \<le> n \<Longrightarrow> n < sum_list ls \<Longrightarrow>
     1 \<le> m \<and> m \<le> int (length ls) \<and> 1 \<le> d \<and> d \<le> ls ! nat (m - 1) \<and> sum_list (take (nat (m - 1)) ls) + d = n + 1"
proof (induction ls n arbitrary: m d rule: locate.induct)
  case (2 l ls n)
  show ?case
  proof (cases "n < l")
    case True
    with 2 show ?thesis by auto
  next
    case False
    obtain m' d' where l: "locate ls (n - l) = (m', d')" by force
    from 2 False l have IH: "1 \<le> m'" "m' \<le> int (length ls)" "1 \<le> d'" "d' \<le> ls ! nat (m' - 1)"
      "sum_list (take (nat (m' - 1)) ls) + d' = n - l + 1" by auto
    from 2(2) False l have md: "m = m' + 1" "d = d'" by simp_all
    from IH(1) have "nat (m - 1) = Suc (nat (m' - 1))" by (simp add: md)
    with IH md show ?thesis by simp
  qed
qed simp

lemma sum_take_mono:
  assumes "i \<le> j" "\<And>x. x \<in> set xs \<Longrightarrow> 0 < (x::int)"
  shows "sum_list (take i xs) \<le> sum_list (take j xs)"
proof -
  have "take j xs = take i xs @ take (j - i) (drop i xs)" using assms(1) by (metis le_add_diff_inverse take_add)
  moreover have "0 \<le> sum_list (take (j - i) (drop i xs))"
    using assms(2) by (intro sum_list_nonneg) (meson in_set_dropD in_set_takeD less_imp_le)
  ultimately show ?thesis by simp
qed

lemma month_end:
  assumes "1 \<le> m" "m < m'" "m' \<le> 12" "d \<le> days_in_month y m"
  shows "days_before_month y m + d \<le> days_before_month y m'"
proof -
  have "sum_list (take (Suc (nat (m - 1))) (month_days y)) = days_before_month y m + days_in_month y m"
    using assms by (simp add: take_Suc_conv_app_nth days_before_month_def days_in_month_def)
  moreover have "sum_list (take (Suc (nat (m - 1))) (month_days y)) \<le> days_before_month y m'"
    unfolding days_before_month_def using assms by (intro sum_take_mono month_days_pos) auto
  ultimately show ?thesis using assms(4) by simp
qed

lemma in_year:
  assumes "1 \<le> m" "m \<le> 12" "1 \<le> d" "d \<le> days_in_month y m"
  shows "0 < days_before_month y m + d \<and> days_before_month y m + d \<le> (if is_leap y then 366 else 365)"
proof -
  have "0 \<le> days_before_month y m"
    unfolding days_before_month_def by (intro sum_list_nonneg) (meson in_set_takeD less_imp_le month_days_pos)
  moreover have "sum_list (take (Suc (nat (m - 1))) (month_days y)) = days_before_month y m + days_in_month y m"
    using assms by (simp add: take_Suc_conv_app_nth days_before_month_def days_in_month_def)
  moreover have "sum_list (take (Suc (nat (m - 1))) (month_days y)) \<le> sum_list (take 12 (month_days y))"
    using assms by (intro sum_take_mono month_days_pos) auto
  ultimately show ?thesis using assms by (simp add: sum_month_days)
qed

lemma quotient: "0 \<le> r \<Longrightarrow> r < k \<Longrightarrow> (q * k + r) div k = (q :: int)"
  by simp

lemma div_step:
  assumes "0 < (k :: int)"
  shows "y div k - (y - 1) div k = (if y mod k = 0 then 1 else 0)"
proof (cases "y mod k = 0")
  case True
  then have "y = (y div k) * k" using div_mult_mod_eq [of y k] by simp
  then have "y - 1 = (y div k - 1) * k + (k - 1)" by (simp add: algebra_simps)
  then have "(y - 1) div k = ((y div k - 1) * k + (k - 1)) div k" by (rule arg_cong)
  also have "\<dots> = y div k - 1" using assms by (intro quotient) simp_all
  finally have "(y - 1) div k = y div k - 1" .
  with True show ?thesis by simp
next
  case False
  have "y - 1 = (y div k) * k + (y mod k - 1)" using div_mult_mod_eq [of y k] by simp
  moreover have "0 \<le> y mod k - 1" "y mod k - 1 < k"
    using False pos_mod_sign [OF assms, of y] pos_mod_bound [OF assms, of y] by linarith+
  ultimately have "(y - 1) div k = y div k" using quotient by metis
  with False show ?thesis by simp
qed

lemma next_year: "days_before_year (y + 1) = days_before_year y + (if is_leap y then 366 else 365)"
proof -
  have "y mod 400 mod 100 = y mod 100" "y mod 100 mod 4 = y mod 4" by (rule mod_mod_cancel, simp)+
  then have sub: "y mod 400 = 0 \<longrightarrow> y mod 100 = 0" "y mod 100 = 0 \<longrightarrow> y mod 4 = 0" by (metis mod_0)+
  have "(if p \<and> (\<not> q \<or> r) then 1 else 0 :: int) = (if p then 1 else 0) - (if q then 1 else 0) + (if r then 1 else 0)"
    if "r \<longrightarrow> q" "q \<longrightarrow> p" for p q r :: bool using that by (cases p; cases q; cases r) simp_all
  from this [OF sub]
  have "(if is_leap y then 1 else 0 :: int) = (if y mod 4 = 0 then 1 else 0) - (if y mod 100 = 0 then 1 else 0) + (if y mod 400 = 0 then 1 else 0)"
    unfolding is_leap_def .
  moreover have "(if is_leap y then 366 else 365 :: int) = 365 + (if is_leap y then 1 else 0)" by simp
  moreover have "days_before_year (y + 1) - days_before_year y =
      365 + (y div 4 - (y - 1) div 4) - (y div 100 - (y - 1) div 100) + (y div 400 - (y - 1) div 400)"
    by (simp only: days_before_year_def add_diff_cancel_right' left_diff_distrib)
  ultimately show ?thesis by (simp only: div_step zero_less_numeral)
qed

lemma days_before_year_mono: "y \<le> y' \<Longrightarrow> days_before_year y \<le> days_before_year y'"
proof (induction y' rule: int_ge_induct)
  case (step i)
  then show ?case using next_year [of i] by auto
qed simp

lemma ymd2ord_year:
  assumes "1 \<le> m" "m \<le> 12" "1 \<le> d" "d \<le> days_in_month y m"
  shows "days_before_year y < ymd2ord (y, m, d) \<and> ymd2ord (y, m, d) \<le> days_before_year (y + 1)"
  using in_year [OF assms] next_year [of y] by auto

lemma ymd2ord_inject:
  assumes "valid_date a" "valid_date b" "ymd2ord a = ymd2ord b"
  shows "a = b"
proof -
  obtain y m d y' m' d' where ab: "a = (y, m, d)" "b = (y', m', d')" by (metis prod_cases3)
  have r: "days_before_year y < ymd2ord a" "ymd2ord a \<le> days_before_year (y + 1)"
    "days_before_year y' < ymd2ord b" "ymd2ord b \<le> days_before_year (y' + 1)"
    using assms ymd2ord_year [of m d y] ymd2ord_year [of m' d' y'] unfolding ab valid_date.simps by blast+
  have "\<not> y < y'" using r assms(3) days_before_year_mono [of "y + 1" y'] by auto
  moreover have "\<not> y' < y" using r assms(3) days_before_year_mono [of "y' + 1" y] by auto
  ultimately have y: "y' = y" by simp
  have "\<not> m < m'" using month_end [of m m' d y] assms ab y by auto
  moreover have "\<not> m' < m" using month_end [of m' m d' y] assms ab y by auto
  ultimately have "m' = m" by simp
  with assms ab y show ?thesis by simp
qed

lemma cycle_divs:
  fixes a b c e :: int
  assumes "0 \<le> b" "b \<le> 3" "0 \<le> c" "c \<le> 24" "0 \<le> e" "e \<le> 3"
  shows "(a * 400 + b * 100 + c * 4 + e) div 4 = a * 100 + b * 25 + c"
    and "(a * 400 + b * 100 + c * 4 + e) div 100 = a * 4 + b"
    and "(a * 400 + b * 100 + c * 4 + e) div 400 = a"
proof -
  have "a * 400 + b * 100 + c * 4 + e = (a * 100 + b * 25 + c) * 4 + e" by simp
  then show "(a * 400 + b * 100 + c * 4 + e) div 4 = a * 100 + b * 25 + c"
    using quotient [of e 4 "a * 100 + b * 25 + c"] assms by simp
  have "a * 400 + b * 100 + c * 4 + e = (a * 4 + b) * 100 + (c * 4 + e)" by simp
  then show "(a * 400 + b * 100 + c * 4 + e) div 100 = a * 4 + b"
    using quotient [of "c * 4 + e" 100 "a * 4 + b"] assms by simp
  have "a * 400 + b * 100 + c * 4 + e = a * 400 + (b * 100 + c * 4 + e)" by simp
  then show "(a * 400 + b * 100 + c * 4 + e) div 400 = a"
    using quotient [of "b * 100 + c * 4 + e" 400 a] assms by simp
qed

lemma cycle_before:
  assumes "0 \<le> b" "b \<le> 3" "0 \<le> c" "c \<le> 24" "0 \<le> e" "e \<le> 3"
  shows "days_before_year (a * 400 + b * 100 + c * 4 + e + 1) = a * 146097 + b * 36524 + c * 1461 + e * 365"
  using cycle_divs [OF assms, of a] by (simp add: days_before_year_def)

lemma december:
  "days_before_month y 12 = (if is_leap y then 335 else 334)" "days_in_month y 12 = 31"
  by (simp_all add: days_before_month_def days_in_month_def month_days_def numeral_eq_Suc)

lemma remainder: "0 \<le> r \<Longrightarrow> r < k \<Longrightarrow> (q * k + r) mod k = (r :: int)"
  by simp

text \<open>The date of an ordinal: a date of the calendar, but for the bounds of the year, and with this ordinal.\<close>

lemma ord2ymd_parts:
  assumes "0 < ordinal"
  obtains y m d where "ord2ymd ordinal = (y, m, d)" "1 \<le> y" "1 \<le> m" "m \<le> 12" "1 \<le> d" "d \<le> days_in_month y m"
    "ymd2ord (y, m, d) = ordinal"
proof -
  define n where "n = ordinal - 1"
  define a where "a = n div 146097"
  define ra where "ra = n mod 146097"
  define b where "b = ra div 36524"
  define rb where "rb = ra mod 36524"
  define c where "c = rb div 1461"
  define rc where "rc = rb mod 1461"
  define e where "e = rc div 365"
  define re where "re = rc mod 365"
  have eq: "n = a * 146097 + ra" "ra = b * 36524 + rb" "rb = c * 1461 + rc" "rc = e * 365 + re"
    unfolding re_def e_def rc_def c_def rb_def b_def ra_def a_def by (simp_all only: div_mult_mod_eq)
  have r: "0 \<le> ra" "ra < 146097" "0 \<le> rb" "rb < 36524" "0 \<le> rc" "rc < 1461" "0 \<le> re" "re < 365"
    unfolding re_def rc_def rb_def ra_def by simp_all
  have n: "0 \<le> n" using assms by (simp add: n_def)
  have q: "0 \<le> a" "0 \<le> b" "b \<le> 4" "0 \<le> c" "c \<le> 24" "0 \<le> e" "e \<le> 4" using eq r n by linarith+
  have o: "ord2ymd ordinal = (let year = a * 400 + b * 100 + c * 4 + e + 1 in
      if e = 4 \<or> b = 4 then (year - 1, 12, 31) else (case locate (month_days year) re of (m, d) \<Rightarrow> (year, m, d)))"
    by (simp add: ord2ymd_def Let_def a_def b_def c_def e_def re_def rc_def rb_def ra_def n_def)
  consider "b = 4" | "b \<noteq> 4" "e = 4" | "b \<noteq> 4" "e \<noteq> 4" by blast
  then show thesis
  proof cases
    case 1
    then have z: "rb = 0" "c = 0" "e = 0" "rc = 0" "re = 0" using eq r q by linarith+
    let ?y = "a * 400 + 400"
    have leap: "is_leap ?y"
    proof -
      have "?y mod 400 = 0" "?y mod 4 = 0" by presburger+
      then show ?thesis by (simp add: is_leap_def)
    qed
    have "days_before_year ?y = a * 146097 + 145731"
      using cycle_before [of 3 24 3 a] by (simp add: algebra_simps)
    then show thesis using 1 z o q eq leap
      by (intro that [of ?y 12 31]) (simp_all add: december n_def)
  next
    case 2
    then have z: "re = 0" "c \<le> 23" "b \<le> 3" using eq r q by linarith+
    let ?y = "a * 400 + b * 100 + c * 4 + 4"
    have leap: "is_leap ?y"
    proof -
      have "?y = (a * 4 + b) * 100 + (c * 4 + 4)" by simp
      moreover have "((a * 4 + b) * 100 + (c * 4 + 4)) mod 100 = c * 4 + 4" using z(2) q by (intro remainder) simp_all
      ultimately have "?y mod 100 = c * 4 + 4" by (simp only:)
      moreover have "?y = (a * 100 + b * 25 + c + 1) * 4 + 0" by simp
      then have "?y mod 4 = 0" using remainder [of 0 4 "a * 100 + b * 25 + c + 1"] by (simp only: zero_less_numeral le_refl simp_thms)
      ultimately show ?thesis using q(4) by (simp add: is_leap_def)
    qed
    have "days_before_year ?y = a * 146097 + b * 36524 + c * 1461 + 1095"
    proof -
      have "?y = a * 400 + b * 100 + c * 4 + 3 + 1" by simp
      moreover have "days_before_year (a * 400 + b * 100 + c * 4 + 3 + 1) = a * 146097 + b * 36524 + c * 1461 + 3 * 365"
        using z q by (intro cycle_before) simp_all
      ultimately show ?thesis by (simp only:)
    qed
    then show thesis using 2 z o q eq leap
      by (intro that [of ?y 12 31]) (simp_all add: december n_def)
  next
    case 3
    then have z: "b \<le> 3" "e \<le> 3" using q by simp_all
    let ?y = "a * 400 + b * 100 + c * 4 + e + 1"
    obtain m d where l: "locate (month_days ?y) re = (m, d)" by force
    have "re < sum_list (month_days ?y)" using r by (simp add: sum_month_days)
    from locate_run [OF l r(7) this] have md: "1 \<le> m" "m \<le> 12" "1 \<le> d" "d \<le> days_in_month ?y m" "days_before_month ?y m + d = re + 1"
      by (simp_all add: days_in_month_def days_before_month_def)
    have "days_before_year ?y = a * 146097 + b * 36524 + c * 1461 + e * 365"
      using cycle_before [of b c e a] z q by simp
    then have "ymd2ord (?y, m, d) = ordinal" using md(5) eq by (simp add: n_def)
    moreover have "ord2ymd ordinal = (?y, m, d)" using 3 l by (simp add: o)
    ultimately show thesis using md q by (intro that [of ?y m d]) simp_all
  qed
qed

lemma MAXORDINAL_eq: "MAXORDINAL = days_before_year 10000"
  using next_year [of 9999] by (simp add: MAXORDINAL_def december is_leap_def)

lemma ord2ymd_inverse:
  assumes "0 < ordinal" "ordinal \<le> MAXORDINAL"
  shows "valid_date (ord2ymd ordinal) \<and> ymd2ord (ord2ymd ordinal) = ordinal"
proof -
  obtain y m d where o: "ord2ymd ordinal = (y, m, d)" "1 \<le> y" "1 \<le> m" "m \<le> 12" "1 \<le> d" "d \<le> days_in_month y m"
    "ymd2ord (y, m, d) = ordinal" using ord2ymd_parts [OF assms(1)] .
  from ymd2ord_year [OF o(3-6)] o(7) assms(2) have "\<not> 10000 \<le> y"
    using days_before_year_mono [of 10000 y] by (auto simp: MAXORDINAL_eq)
  with o show ?thesis by simp
qed

lemma valid_date_ordinal: "valid_date dt \<Longrightarrow> 0 < ymd2ord dt \<and> ymd2ord dt \<le> MAXORDINAL"
proof -
  assume v: "valid_date dt"
  obtain y m d where dt: "dt = (y, m, d)" by (metis prod_cases3)
  with v have d: "1 \<le> m" "m \<le> 12" "1 \<le> d" "d \<le> days_in_month y m" "1 \<le> y" "y \<le> 9999" by auto
  have "days_before_year 1 = 0" by (simp add: days_before_year_def)
  moreover have "days_before_year (y + 1) \<le> MAXORDINAL" unfolding MAXORDINAL_eq using d(6) by (intro days_before_year_mono) simp
  ultimately show ?thesis using ymd2ord_year [OF d(1-4)] days_before_year_mono [OF d(5)] unfolding dt by linarith
qed

lemma ymd2ord_inverse: "valid_date dt \<Longrightarrow> ord2ymd (ymd2ord dt) = dt"
  using valid_date_ordinal [of dt] ord2ymd_inverse [of "ymd2ord dt"] ymd2ord_inject by blast

text \<open>The day after a day.\<close>

fun next_day :: "date \<Rightarrow> date" where
  "next_day (y, m, d) =
     (if d < days_in_month y m then (y, m, d + 1) else if m < 12 then (y, m + 1, 1) else (y + 1, 1, 1))"

lemma month_step: "1 \<le> m \<Longrightarrow> m < 12 \<Longrightarrow> days_before_month y (m + 1) = days_before_month y m + days_in_month y m"
proof -
  assume m: "1 \<le> m" "m < 12"
  then have "nat (m + 1 - 1) = Suc (nat (m - 1))" by simp
  with m show ?thesis by (simp add: take_Suc_conv_app_nth days_before_month_def days_in_month_def)
qed

lemma ymd2ord_next_day: "valid_date dt \<Longrightarrow> ymd2ord (next_day dt) = ymd2ord dt + 1"
proof -
  assume v: "valid_date dt"
  obtain y m d where dt: "dt = (y, m, d)" by (metis prod_cases3)
  consider "d < days_in_month y m" | "d = days_in_month y m" "m < 12" | "d = days_in_month y m" "m = 12"
    using v dt by force
  then show ?thesis
  proof cases
    case 2
    with v dt month_step [of m y] show ?thesis by simp
  next
    case 3
    then show ?thesis
      using dt next_year [of y] by (simp add: december) (simp add: days_before_month_def)
  qed (simp add: dt)
qed

lemma valid_next_day: "valid_date dt \<Longrightarrow> dt \<noteq> (9999, 12, 31) \<Longrightarrow> valid_date (next_day dt)"
proof -
  assume v: "valid_date dt" "dt \<noteq> (9999, 12, 31)"
  obtain y m d where dt: "dt = (y, m, d)" by (metis prod_cases3)
  have "1 \<le> days_in_month y' m'" if "1 \<le> m'" "m' \<le> 12" for y' m'
  proof -
    have "days_in_month y' m' \<in> set (month_days y')" unfolding days_in_month_def using that by (intro nth_mem) simp
    then show ?thesis using month_days_pos by fastforce
  qed
  with v dt show ?thesis by (auto simp: december)
qed

text \<open>The time of the day of a number of microseconds, and back.\<close>

lemma clock_of_valid: "0 \<le> us \<Longrightarrow> us < DAY \<Longrightarrow> valid_time (clock_of us) \<and> time_us (clock_of us) = us"
proof -
  assume u: "0 \<le> us" "us < DAY"
  define s where "s = us div 1000000"
  define mi where "mi = s div 60"
  define h where "h = mi div 60"
  have e: "us = s * 1000000 + us mod 1000000" "s = mi * 60 + s mod 60" "mi = h * 60 + mi mod 60"
    unfolding h_def mi_def s_def by (simp_all only: div_mult_mod_eq)
  have r: "0 \<le> us mod 1000000" "us mod 1000000 < 1000000" "0 \<le> s mod 60" "s mod 60 < 60" "0 \<le> mi mod 60" "mi mod 60 < 60" by simp_all
  have "0 \<le> h" "h < 24" using e r u unfolding DAY_def by linarith+
  moreover have "clock_of us = (h, mi mod 60, s mod 60, us mod 1000000)"
    by (simp add: clock_of_def Let_def h_def mi_def s_def)
  moreover have "((h * 60 + mi mod 60) * 60 + s mod 60) * 1000000 + us mod 1000000 = us" using e by (metis)
  ultimately show ?thesis using r by simp
qed

lemma time_us_range: "valid_time tm \<Longrightarrow> 0 \<le> time_us tm \<and> time_us tm < DAY"
proof -
  assume v: "valid_time tm"
  obtain h mi s us where tm: "tm = (h, mi, s, us)" by (metis prod_cases4)
  have "0 \<le> h" "h \<le> 23" "0 \<le> mi" "mi \<le> 59" "0 \<le> s" "s \<le> 59" "0 \<le> us" "us \<le> 999999" using v tm by auto
  moreover have "time_us tm = h * 3600000000 + mi * 60000000 + s * 1000000 + us" by (simp add: tm)
  ultimately show ?thesis unfolding DAY_def by (intro conjI) linarith+
qed

lemma clock_of_time: "valid_time tm \<Longrightarrow> clock_of (time_us tm) = tm"
proof -
  assume v: "valid_time tm"
  obtain h mi s us where tm: "tm = (h, mi, s, us)" by (metis prod_cases4)
  have "0 \<le> us" "us < 1000000" "0 \<le> s" "s < 60" "0 \<le> mi" "mi < 60" using v tm by auto
  then have "(((h * 60 + mi) * 60 + s) * 1000000 + us) div 1000000 = (h * 60 + mi) * 60 + s"
    "(((h * 60 + mi) * 60 + s) * 1000000 + us) mod 1000000 = us" "((h * 60 + mi) * 60 + s) div 60 = h * 60 + mi"
    "((h * 60 + mi) * 60 + s) mod 60 = s" "(h * 60 + mi) div 60 = h" "(h * 60 + mi) mod 60 = mi"
    by (simp_all only: quotient remainder)
  then show ?thesis by (simp only: tm time_us.simps clock_of_def Let_def)
qed

end
