(* ===== verification/PgSync.thy ===== *)
theory PgSync
  imports PyJson PyDatetime Base64
begin

text \<open>
  \<open>utilities.py\<close> of \<open>pg-sync\<close>: the conversion of the values of a change event to the values of the
  columns, and the statements that replay a change. Dates and datetimes are those of \<open>PyDatetime\<close>; a
  number with a fraction is converted exactly. A statement is what the code asks of the query
  builder: the table and the columns it names, each with one placeholder.
\<close>

section \<open>Dates and times\<close>

datatype pg_value = PJson json | PDate date | PTime int int int | PDateTime "date \<times> clock_time" | PBytes "byte list"

definition number :: "json \<Rightarrow> rat res" where
  "number v = (case as_num v of None \<Rightarrow> Inl (TypeError ''number'') | Some r \<Rightarrow> Inr r)"

text \<open>Rounding to the nearest integer, ties to the even one.\<close>

definition py_round :: "rat \<Rightarrow> int" where
  "py_round r =
     (let f = \<lfloor>r\<rfloor>; d = r - of_int f in
      if d < 1 / 2 then f else if d > 1 / 2 then f + 1 else if even f then f else f + 1)"

text \<open>\<open>datetime.timedelta(microseconds=r)\<close>: at most 999999999 days either way.\<close>

definition timedelta :: "rat \<Rightarrow> int res" where
  "timedelta r =
     (let us = py_round r in
      if \<bar>us div DAY\<bar> \<le> 999999999 then Inr us else Inl (OverflowError ''timedelta''))"

definition EPOCH_DATE :: date where
  "EPOCH_DATE = (1970, 1, 1)"

definition EPOCH_DATETIME :: "date \<times> clock_time" where
  "EPOCH_DATETIME = ((1970, 1, 1), (0, 0, 0, 0))"

definition int_to_date :: "json \<Rightarrow> pg_value res" where
  "int_to_date days_since_epoch =
     rbind (number days_since_epoch) (\<lambda>r.
     rbind (timedelta (r * of_int DAY)) (\<lambda>us.
     rbind (date_plus EPOCH_DATE us) (\<lambda>dt. Inr (PDate dt))))"

definition epoch_plus :: "rat \<Rightarrow> pg_value res" where
  "epoch_plus r =
     rbind (timedelta r) (\<lambda>us.
     rbind (datetime_plus EPOCH_DATETIME us) (\<lambda>dt. Inr (PDateTime dt)))"

definition milli_to_datetime :: "json \<Rightarrow> pg_value res" where
  "milli_to_datetime milliseconds = rbind (number milliseconds) (\<lambda>r. epoch_plus (r * 1000))"

definition micro_to_datetime :: "json \<Rightarrow> pg_value res" where
  "micro_to_datetime microseconds = rbind (number microseconds) epoch_plus"

text \<open>\<open>datetime.time(hour, minute, second)\<close>; a value that does not fit a C integer is an overflow.\<close>

definition py_time :: "int \<Rightarrow> int \<Rightarrow> int \<Rightarrow> pg_value res" where
  "py_time hour minute second =
     (if \<not> (- (2 ^ 31) \<le> hour \<and> hour < 2 ^ 31) then Inl (OverflowError ''time'')
      else if 0 \<le> hour \<and> hour < 24 \<and> 0 \<le> minute \<and> minute < 60 \<and> 0 \<le> second \<and> second < 60
      then Inr (PTime hour minute second) else Inl (ValueError ''time''))"

text \<open>The last assignments to \<open>milliseconds\<close> have no effect on the result.\<close>

definition milli_time_int :: "int \<Rightarrow> pg_value res" where
  "milli_time_int milliseconds =
     (let hour_conv = 3600 * 1000; min_conv = 60 * 1000; sec_conv = 1000;
          hours = milliseconds div hour_conv;
          milliseconds = milliseconds - hours * hour_conv;
          minutes = milliseconds div min_conv;
          milliseconds = milliseconds - minutes * min_conv;
          seconds = milliseconds div sec_conv;
          milliseconds = milliseconds - milliseconds * sec_conv;
          milliseconds = (if milliseconds < 0 then 0 else milliseconds)
      in py_time hours minutes seconds)"

text \<open>Integers and booleans; a float gives a float for the hour, which \<open>datetime.time\<close> refuses.\<close>

definition milli_time :: "json \<Rightarrow> pg_value res" where
  "milli_time v =
     (case v of
        JInt n \<Rightarrow> milli_time_int n
      | JBool b \<Rightarrow> milli_time_int (if b then 1 else 0)
      | _ \<Rightarrow> Inl (TypeError ''integer''))"

definition binary_value :: "json \<Rightarrow> pg_value res" where
  "binary_value v =
     (case v of
        JStr s \<Rightarrow> rbind (b64decode s) (\<lambda>bs. Inr (PBytes bs))
      | _ \<Rightarrow> Inl (TypeError ''bytes-like''))"

section \<open>The configuration\<close>

type_synonym config = "(string, json) dict"

text \<open>\<open>CONFIG[table_name]\<close>\<close>

definition table_config :: "config \<Rightarrow> json \<Rightarrow> json res" where
  "table_config config table_name =
     (case table_name of
        JStr s \<Rightarrow> ditem config s
      | JList _ \<Rightarrow> Inl (TypeError ''unhashable'')
      | JObj _ \<Rightarrow> Inl (TypeError ''unhashable'')
      | _ \<Rightarrow> Inl (KeyError ''table''))"

definition topics :: "config \<Rightarrow> json list res" where
  "topics config = rmap (\<lambda>(_, v). py_item v ''topic'') config"

definition find_row_identifier :: "config \<Rightarrow> json \<Rightarrow> json option res" where
  "find_row_identifier config table_name =
     rbind (table_config config table_name) (\<lambda>c.
     rbind (py_get c ''row_identifier'' JNull) (\<lambda>ri. Inr (if truthy ri then Some ri else None)))"

definition in_field :: "json \<Rightarrow> string \<Rightarrow> string \<Rightarrow> bool res" where
  "in_field cast_keys k field = rbind (py_item cast_keys field) (py_in k)"

text \<open>\<open>if k in cast_keys[field]: ... else: ...\<close>\<close>

definition branch :: "bool res \<Rightarrow> 'a res \<Rightarrow> 'a res \<Rightarrow> 'a res" where
  "branch c a b = rbind c (\<lambda>x. if x then a else b)"

definition cast_value :: "json \<Rightarrow> string \<Rightarrow> json \<Rightarrow> pg_value res" where
  "cast_value cast_keys k v =
     branch (in_field cast_keys k ''date_fields'') (int_to_date v)
    (branch (in_field cast_keys k ''time_fields'') (milli_time v)
    (branch (in_field cast_keys k ''datetime_milli_fields'') (milli_to_datetime v)
    (branch (in_field cast_keys k ''datetime_micro_fields'') (micro_to_datetime v)
    (branch (in_field cast_keys k ''timestamp_fields'') (milli_to_datetime v)
    (branch (in_field cast_keys k ''binary_fields'') (binary_value v)
    (branch (in_field cast_keys k ''set_fields'') (Inr (PJson v))
       (Inr (PJson v))))))))"

definition cast_values :: "config \<Rightarrow> string list \<Rightarrow> json list \<Rightarrow> json \<Rightarrow> pg_value list res" where
  "cast_values config keys values table_name =
     rbind (table_config config table_name) (\<lambda>cast_keys.
       rmap (\<lambda>(k, v). cast_value cast_keys k v) (zip keys values))"

section \<open>Statements\<close>

datatype statement =
    UpdateSet json json "string list" "string list"
  | InsertInto json json "string list"
  | DeleteFrom json json "string list"

text \<open>The columns of a row identifier; one that is not made of strings cannot name columns.\<close>

definition identifier_keys :: "json \<Rightarrow> string list res" where
  "identifier_keys ri =
     rbind (py_iter ri) (rmap (\<lambda>k. case k of JStr s \<Rightarrow> Inr s | _ \<Rightarrow> Inl (TypeError ''column'')))"

definition where_keys :: "config \<Rightarrow> json \<Rightarrow> (string, json) dict \<Rightarrow> string list res" where
  "where_keys config table_name before =
     rbind (find_row_identifier config table_name) (\<lambda>ri.
       case ri of None \<Rightarrow> Inr (dkeys before) | Some r \<Rightarrow> identifier_keys r)"

definition create_update_statement ::
  "config \<Rightarrow> json \<Rightarrow> json \<Rightarrow> (string, json) dict \<Rightarrow> (string, json) dict \<Rightarrow> statement res" where
  "create_update_statement config schema_name table_name before after =
     rbind (where_keys config table_name before) (\<lambda>keys.
       Inr (UpdateSet schema_name table_name (dkeys after) keys))"

definition create_insert_statement :: "json \<Rightarrow> json \<Rightarrow> (string, json) dict \<Rightarrow> statement res" where
  "create_insert_statement schema_name table_name after =
     Inr (InsertInto schema_name table_name (dkeys after))"

definition create_delete_statement :: "config \<Rightarrow> json \<Rightarrow> json \<Rightarrow> (string, json) dict \<Rightarrow> statement res" where
  "create_delete_statement config schema_name table_name before =
     rbind (where_keys config table_name before) (\<lambda>keys. Inr (DeleteFrom schema_name table_name keys))"

text \<open>The columns of a statement in the order of their placeholders.\<close>

fun placeholders :: "statement \<Rightarrow> string list" where
  "placeholders (UpdateSet _ _ set_cols where_cols) = set_cols @ where_cols"
| "placeholders (InsertInto _ _ cols) = cols"
| "placeholders (DeleteFrom _ _ where_cols) = where_cols"

section \<open>Facts\<close>

lemma py_round_int [simp]: "py_round (of_int n) = n"
  by (simp add: py_round_def)

definition overflows :: "'a res \<Rightarrow> bool" where
  "overflows r = (\<exists>m. r = Inl (OverflowError m))"

lemma timedelta_int:
  "timedelta (of_int n) = (if \<bar>n div DAY\<bar> \<le> 999999999 then Inr n else Inl (OverflowError ''timedelta''))"
  by (simp add: timedelta_def)

text \<open>The numbers that have a date, and that date.\<close>

lemma ordinals: "ymd2ord EPOCH_DATE = 719163" "MAXORDINAL = 3652059"
  by code_simp+

lemma int_to_date_in_range:
  assumes "0 < 719163 + n" "719163 + n \<le> MAXORDINAL"
  shows "int_to_date (JInt n) = Inr (PDate (ord2ymd (719163 + n)))"
proof -
  have d: "n * DAY div DAY = n" by (simp add: DAY_def)
  have "timedelta (of_int (n * DAY)) = Inr (n * DAY)"
    unfolding timedelta_int d using assms by (simp add: ordinals)
  then show ?thesis using assms by (simp add: int_to_date_def number_def date_plus_def ordinals(1) d Let_def)
qed

lemma int_to_date_out_of_range:
  assumes "\<not> (0 < 719163 + n \<and> 719163 + n \<le> MAXORDINAL)"
  shows "overflows (int_to_date (JInt n))"
proof -
  have d: "n * DAY div DAY = n" by (simp add: DAY_def)
  show ?thesis
  proof (cases "\<bar>n\<bar> \<le> 999999999")
    case True
    then have "timedelta (of_int (n * DAY)) = Inr (n * DAY)" unfolding timedelta_int d by simp
    then show ?thesis using assms by (auto simp: int_to_date_def number_def date_plus_def ordinals(1) d Let_def overflows_def)
  next
    case False
    then have "timedelta (of_int (n * DAY)) = Inl (OverflowError ''timedelta'')" unfolding timedelta_int d by simp
    then show ?thesis by (simp add: int_to_date_def number_def overflows_def)
  qed
qed

lemma epoch_delta: "ymd2ord (1970, 1, 1) * DAY + time_us (0, 0, 0, 0) + n = 719163 * DAY + n"
  using ordinals(1) by (simp add: EPOCH_DATE_def)

lemma epoch_plus_in_range:
  assumes "0 < 719163 + n div DAY" "719163 + n div DAY \<le> MAXORDINAL"
  shows "epoch_plus (of_int n) = Inr (PDateTime (ord2ymd (719163 + n div DAY), clock_of (n mod DAY)))"
proof -
  have "(719163 * DAY + n) div DAY = 719163 + n div DAY" "(719163 * DAY + n) mod DAY = n mod DAY"
    by (simp add: DAY_def, simp only: mod_mult_self3)
  moreover have "timedelta (of_int n) = Inr n" unfolding timedelta_int using assms by (simp add: ordinals)
  ultimately show ?thesis
    using assms by (simp only: epoch_plus_def EPOCH_DATETIME_def datetime_plus.simps epoch_delta Let_def rbind_simps simp_thms if_True)
qed

lemma epoch_plus_out_of_range:
  assumes "\<not> (0 < 719163 + n div DAY \<and> 719163 + n div DAY \<le> MAXORDINAL)"
  shows "overflows (epoch_plus (of_int n))"
proof -
  have "(719163 * DAY + n) div DAY = 719163 + n div DAY" by (simp add: DAY_def)
  then have "datetime_plus EPOCH_DATETIME n = Inl (OverflowError ''date value out of range'')"
    using assms by (simp only: EPOCH_DATETIME_def datetime_plus.simps epoch_delta Let_def if_False)
  then show ?thesis by (simp add: epoch_plus_def timedelta_int overflows_def)
qed

lemma mod_mult_div: "0 < a \<Longrightarrow> 0 < b \<Longrightarrow> n mod (a * b) div a = n div a mod (b :: int)"
  by (simp add: zmod_zmult2_eq)

lemma time_parts:
  "(n :: int) mod 3600000 div 60000 = n div 60000 mod 60"
  "n mod 60000 div 1000 = n div 1000 mod 60"
  "n mod 3600000 mod 60000 = n mod 60000"
proof -
  show "n mod 3600000 div 60000 = n div 60000 mod 60" using mod_mult_div [of 60000 60 n] by simp
  show "n mod 60000 div 1000 = n div 1000 mod 60" using mod_mult_div [of 1000 60 n] by simp
  show "n mod 3600000 mod 60000 = n mod 60000" by (rule mod_mod_cancel) simp
qed

lemma hours_range: "0 \<le> n \<Longrightarrow> n < 86400000 \<Longrightarrow> 0 \<le> n div 3600000 \<and> n div (3600000 :: int) < 24"
  using zdiv_mono1 [of n 86399999 3600000] by (simp add: pos_imp_zdiv_nonneg_iff)

lemma milli_time_int_eq:
  "milli_time_int n = py_time (n div 3600000) (n div 60000 mod 60) (n div 1000 mod 60)"
proof -
  have c: "(3600 * 1000 :: int) = 3600000" "(60 * 1000 :: int) = 60000" by simp_all
  show ?thesis
    unfolding milli_time_int_def Let_def c minus_div_mult_eq_mod time_parts(3)
    unfolding time_parts(1,2) ..
qed

lemma py_time_in_range:
  "0 \<le> h \<Longrightarrow> h < 24 \<Longrightarrow> py_time h (m mod 60) (s mod 60) = Inr (PTime h (m mod 60) (s mod 60))"
  by (simp add: py_time_def)

lemma milli_time_parts:
  "0 \<le> n \<Longrightarrow> n < 86400000 \<Longrightarrow>
     milli_time_int n = Inr (PTime (n div 3600000) (n div 60000 mod 60) (n div 1000 mod 60))"
  using hours_range [of n] by (simp only: milli_time_int_eq py_time_in_range)

end
