(* ===== verification/PgSyncMain.thy ===== *)
theory PgSyncMain
  imports PgSync PyState
begin

text \<open>
  \<open>main.py\<close> and \<open>avro_main.py\<close> of \<open>pg-sync\<close>: the consumers that replay the change events of a Kafka
  topic on a PostgreSQL database. The database, the connection pool, the broker and the decoders
  are parameters: their answers may depend on the number of requests made before. What the model
  keeps is the list of the statements that the database executed, in order, the position in the
  topic and the position that was committed.
\<close>

section \<open>The state and the services\<close>

record sync =
  req :: nat
  executed :: "(statement \<times> pg_value list) list"
  naps :: nat
  read_to :: nat
  committed_to :: nat

record services =
  pool_connect :: "nat \<Rightarrow> unit res"
  db_execute :: "nat \<Rightarrow> statement \<times> pg_value list \<Rightarrow> unit res"
  pool_release :: "nat \<Rightarrow> unit res"
  broker_commit :: "nat \<Rightarrow> unit res"

type_synonym 'a sync_run = "(sync, 'a) run"

definition request :: "(nat \<Rightarrow> 'a res) \<Rightarrow> 'a sync_run" where
  "request f = (\<lambda>s. (f (req s), s\<lparr>req := req s + 1\<rparr>))"

text \<open>\<open>conn.execute(query, params)\<close>: a statement that does not raise was executed (the pool has autocommit).\<close>

definition execute :: "services \<Rightarrow> statement \<times> pg_value list \<Rightarrow> unit sync_run" where
  "execute sv q = abind (request (\<lambda>n. db_execute sv n q)) (\<lambda>_ s. (Inr (), s\<lparr>executed := executed s @ [q]\<rparr>))"

text \<open>\<open>with db_pool.connection() as conn: ...\<close>: leaving the block normally may raise too.\<close>

definition with_connection :: "services \<Rightarrow> unit sync_run \<Rightarrow> unit sync_run" where
  "with_connection sv body =
     abind (request (pool_connect sv)) (\<lambda>_. abind body (\<lambda>_. request (pool_release sv)))"

section \<open>One change event\<close>

datatype change =
    Update json json "(string, json) dict" "(string, json) dict"
  | Insert json json "(string, json) dict"
  | Delete json json "(string, json) dict"

text \<open>\<open>v.keys()\<close> and \<open>v.values()\<close>: only dictionaries have them.\<close>

definition py_dict :: "json \<Rightarrow> (string, json) dict res" where
  "py_dict v = (case v of JObj d \<Rightarrow> Inr d | _ \<Rightarrow> Inl (AttributeError ''keys''))"

definition source_of :: "json \<Rightarrow> (json \<times> json) res" where
  "source_of change =
     rbind (py_item change ''source'') (\<lambda>s. rbind (py_item s ''schema'') (\<lambda>schema.
     rbind (py_item change ''source'') (\<lambda>s. rbind (py_item s ''table'') (\<lambda>table_name.
       Inr (schema, table_name)))))"

definition route :: "json \<Rightarrow> change res" where
  "route change =
     rbind (py_item change ''before'') (\<lambda>before.
     rbind (py_item change ''after'') (\<lambda>after.
       if truthy before \<and> truthy after then
         rbind (py_dict after) (\<lambda>a. rbind (py_dict before) (\<lambda>b.
         rbind (source_of change) (\<lambda>(schema, table_name). Inr (Update schema table_name b a))))
       else if before = JNull then
         rbind (py_dict after) (\<lambda>a.
         rbind (source_of change) (\<lambda>(schema, table_name). Inr (Insert schema table_name a)))
       else
         rbind (py_dict before) (\<lambda>b.
         rbind (source_of change) (\<lambda>(schema, table_name). Inr (Delete schema table_name b)))))"

text \<open>The columns that identify the row and their old values.\<close>

definition row_key :: "config \<Rightarrow> json \<Rightarrow> (string, json) dict \<Rightarrow> (string list \<times> json list) res" where
  "row_key config table_name before =
     rbind (find_row_identifier config table_name) (\<lambda>ri.
       case ri of
         Some r \<Rightarrow> rbind (identifier_keys r) (\<lambda>keys. rbind (rmap (ditem before) keys) (\<lambda>values. Inr (keys, values)))
       | None \<Rightarrow> Inr (dkeys before, map snd before))"

text \<open>The statement and its parameters.\<close>

fun prepare :: "config \<Rightarrow> change \<Rightarrow> (statement \<times> pg_value list) res" where
  "prepare config (Update schema table_name before after) =
     rbind (create_update_statement config schema table_name before after) (\<lambda>query.
     rbind (cast_values config (dkeys after) (map snd after) table_name) (\<lambda>a_casted.
     rbind (row_key config table_name before) (\<lambda>(keys, values).
     rbind (cast_values config keys values table_name) (\<lambda>b_casted.
       Inr (query, a_casted @ b_casted)))))"
| "prepare config (Insert schema table_name after) =
     rbind (create_insert_statement schema table_name after) (\<lambda>query.
     rbind (cast_values config (dkeys after) (map snd after) table_name) (\<lambda>casted.
       Inr (query, casted)))"
| "prepare config (Delete schema table_name before) =
     rbind (create_delete_statement config schema table_name before) (\<lambda>query.
     rbind (row_key config table_name before) (\<lambda>(keys, values).
     rbind (cast_values config keys values table_name) (\<lambda>casted.
       Inr (query, casted))))"

text \<open>The body of the inner loop. A tombstone has no value and nothing is done for it.\<close>

type_synonym message = "byte list option"

definition handle :: "(byte list \<Rightarrow> json res) \<Rightarrow> config \<Rightarrow> services \<Rightarrow> message \<Rightarrow> unit sync_run" where
  "handle loads config sv msg =
     (case msg of
        None \<Rightarrow> aret (Inr ())
      | Some payload \<Rightarrow>
          abind (aret (loads payload)) (\<lambda>change.
          abind (aret (route change)) (\<lambda>c.
            with_connection sv (abind (aret (prepare config c)) (execute sv)))))"

section \<open>The loops\<close>

definition main_handler :: "exn \<Rightarrow> verdict" where
  "main_handler e = (if is_Exception e then Again else Through)"

definition avro_handler :: "exn \<Rightarrow> verdict" where
  "avro_handler e =
     (case e of UniqueViolation _ \<Rightarrow> Leave | _ \<Rightarrow> if is_Exception e then Again else Through)"

definition nap :: "sync \<Rightarrow> sync" where
  "nap s = s\<lparr>naps := naps s + 1\<rparr>"

definition commit :: "services \<Rightarrow> unit sync_run" where
  "commit sv = abind (request (broker_commit sv)) (\<lambda>_ s. (Inr (), s\<lparr>committed_to := read_to s\<rparr>))"

text \<open>One message: the loop around the change, then the loop around the commit.\<close>

definition consume_one ::
  "(exn \<Rightarrow> verdict) \<Rightarrow> (byte list \<Rightarrow> json res) \<Rightarrow> config \<Rightarrow> services \<Rightarrow> nat \<Rightarrow> message \<Rightarrow> sync \<Rightarrow> (unit res \<times> sync) option" where
  "consume_one handler loads config sv fuel msg s =
     (case retry (handle loads config sv msg) handler nap fuel (s\<lparr>read_to := read_to s + 1\<rparr>) of
        None \<Rightarrow> None
      | Some (Inl e, s') \<Rightarrow> Some (Inl e, s')
      | Some (Inr _, s') \<Rightarrow> retry (commit sv) main_handler id fuel s')"

fun consume ::
  "(exn \<Rightarrow> verdict) \<Rightarrow> (byte list \<Rightarrow> json res) \<Rightarrow> config \<Rightarrow> services \<Rightarrow> nat \<Rightarrow> message list \<Rightarrow> sync \<Rightarrow> (unit res \<times> sync) option" where
  "consume handler loads config sv fuel [] s = Some (Inr (), s)"
| "consume handler loads config sv fuel (msg # msgs) s =
     (case consume_one handler loads config sv fuel msg s of
        None \<Rightarrow> None
      | Some (Inl e, s') \<Rightarrow> Some (Inl e, s')
      | Some (Inr _, s') \<Rightarrow> consume handler loads config sv fuel msgs s')"

definition pg_main :: "(byte list \<Rightarrow> json res) \<Rightarrow> config \<Rightarrow> services \<Rightarrow> nat \<Rightarrow> message list \<Rightarrow> sync \<Rightarrow> (unit res \<times> sync) option" where
  "pg_main loads = consume main_handler loads"

section \<open>Avro\<close>

definition START_BYTE :: int where "START_BYTE = 0"

definition HEADER_SIZE :: nat where "HEADER_SIZE = 5"

text \<open>\<open>struct.unpack(">bI", bytes)\<close>: a signed byte and a big-endian unsigned 32-bit integer.\<close>

definition unpack_header :: "byte list \<Rightarrow> (int \<times> 32 word) res" where
  "unpack_header bs =
     (case bs of
        [b0, b1, b2, b3, b4] \<Rightarrow>
          Inr (sint b0, word_of_int (((uint b1 * 256 + uint b2) * 256 + uint b3) * 256 + uint b4))
      | _ \<Rightarrow> Inl (ValueError ''unpack requires a buffer of 5 bytes''))"

definition parse_avro :: "(byte list \<Rightarrow> json res) \<Rightarrow> byte list \<Rightarrow> json res" where
  "parse_avro reader msg =
     (let byte_arr = take HEADER_SIZE msg in
      rbind (unpack_header byte_arr) (\<lambda>(start_byte, schema_id).
        if start_byte \<noteq> START_BYTE then Inl (ValueError ''Start byte'')
        else reader (drop HEADER_SIZE msg)))"

definition avro_main :: "(byte list \<Rightarrow> json res) \<Rightarrow> config \<Rightarrow> services \<Rightarrow> nat \<Rightarrow> message list \<Rightarrow> sync \<Rightarrow> (unit res \<times> sync) option" where
  "avro_main reader = consume avro_handler (parse_avro reader)"

section \<open>What one message amounts to\<close>

text \<open>The statement that replays a message, without the effects: the specification of \<open>handle\<close>.\<close>

definition replay :: "(byte list \<Rightarrow> json res) \<Rightarrow> config \<Rightarrow> byte list \<Rightarrow> (statement \<times> pg_value list) res" where
  "replay loads config payload = rbind (loads payload) (\<lambda>change. rbind (route change) (prepare config))"

text \<open>What a message adds to the executed statements when its statement is executed \<open>k\<close> times.\<close>

definition copies :: "(byte list \<Rightarrow> json res) \<Rightarrow> config \<Rightarrow> message \<Rightarrow> nat \<Rightarrow> (statement \<times> pg_value list) list" where
  "copies loads config msg k =
     (case msg of
        None \<Rightarrow> []
      | Some payload \<Rightarrow> (case replay loads config payload of Inl _ \<Rightarrow> [] | Inr q \<Rightarrow> replicate k q))"

definition same_place :: "sync \<Rightarrow> sync \<Rightarrow> bool" where
  "same_place s t \<longleftrightarrow> read_to t = read_to s \<and> committed_to t = committed_to s"

definition retried :: "(byte list \<Rightarrow> json res) \<Rightarrow> config \<Rightarrow> message \<Rightarrow> sync \<Rightarrow> sync \<Rightarrow> bool" where
  "retried loads config msg s t \<longleftrightarrow>
     same_place s t \<and> (\<exists>k. executed t = executed s @ copies loads config msg k)"

definition replayed :: "(byte list \<Rightarrow> json res) \<Rightarrow> config \<Rightarrow> message \<Rightarrow> sync \<Rightarrow> sync \<Rightarrow> bool" where
  "replayed loads config msg s t \<longleftrightarrow>
     same_place s t \<and> executed t = executed s @ copies loads config msg 1 \<and>
     (\<forall>payload. msg = Some payload \<longrightarrow> (\<exists>q. replay loads config payload = Inr q))"

definition skipped :: "(byte list \<Rightarrow> json res) \<Rightarrow> config \<Rightarrow> message \<Rightarrow> exn \<Rightarrow> sync \<Rightarrow> sync \<Rightarrow> bool" where
  "skipped loads config msg e s t \<longleftrightarrow> retried loads config msg s t"

lemma request_run [simp]: "request f s = (f (req s), s\<lparr>req := req s + 1\<rparr>)"
  by (simp add: request_def)

lemma handle_replay:
  "handle loads config sv (Some payload) s =
     (case replay loads config payload of
        Inr q \<Rightarrow> with_connection sv (execute sv q) s
      | Inl e \<Rightarrow>
          (case rbind (loads payload) route of
             Inl _ \<Rightarrow> (Inl e, s)
           | Inr _ \<Rightarrow> with_connection sv (aret (Inl e)) s))"
  by (auto simp: handle_def replay_def abind_def with_connection_def rbind_eq_Inl rbind_eq_Inr split: sum.splits prod.splits)

lemma with_execute:
  assumes "with_connection sv (execute sv q) s = (r, t)"
  shows "same_place s t" "executed t = executed s \<or> executed t = executed s @ [q]"
    "r = Inr u \<Longrightarrow> executed t = executed s @ [q]"
  using assms
  by (auto simp: with_connection_def execute_def abind_def same_place_def split: sum.splits)

lemma with_raise:
  assumes "with_connection sv (aret (Inl e)) s = (r, t)"
  shows "same_place s t" "executed t = executed s" "\<exists>e. r = Inl e"
  using assms by (auto simp: with_connection_def abind_def same_place_def split: sum.splits) (metis sum.exhaust)+

lemma copies_simps [simp]:
  "copies loads config msg 0 = []"
  "copies loads config msg (j + k) = copies loads config msg j @ copies loads config msg k"
  "copies loads config None k = []"
  by (auto simp: copies_def replicate_add split: option.splits sum.splits)

lemma handle_ok:
  assumes "handle loads config sv msg s = (Inr u, t)"
  shows "replayed loads config msg s t"
proof (cases msg)
  case None
  with assms show ?thesis
    by (simp add: handle_def replayed_def same_place_def)
next
  case (Some payload)
  with assms show ?thesis
    using with_execute [of sv _ s "Inr u" t] with_raise [of sv _ s "Inr u" t]
    by (fastforce simp: handle_replay replayed_def copies_def split: sum.splits)
qed

lemma handle_raised:
  assumes h: "handle loads config sv msg s = (Inl e, t)"
  shows "retried loads config msg s t"
proof (cases msg)
  case None
  with h show ?thesis by (simp add: handle_def)
next
  case (Some payload)
  show ?thesis
  proof (cases "replay loads config payload")
    case (Inl e')
    with h Some have "same_place s t \<and> executed t = executed s"
      using with_raise [of sv e' s "Inl e" t]
      by (auto simp: handle_replay same_place_def split: sum.splits)
    then show ?thesis by (auto simp: retried_def intro: exI [of _ 0])
  next
    case (Inr q)
    with h Some have w: "with_connection sv (execute sv q) s = (Inl e, t)" by (simp add: handle_replay)
    have "copies loads config msg 1 = [q]" using Some Inr by (simp add: copies_def)
    with with_execute(1,2) [OF w] show ?thesis
      by (auto simp: retried_def intro: exI [of _ 0] exI [of _ 1])
  qed
qed

lemma retried_nap: "retried loads config msg s t \<Longrightarrow> retried loads config msg s (nap t)"
  by (simp add: retried_def same_place_def nap_def)

lemma retried_refl: "retried loads config msg s s"
  by (auto simp: retried_def same_place_def intro: exI [of _ 0])

lemma retried_trans: "retried loads config msg s t \<Longrightarrow> retried loads config msg t u \<Longrightarrow> retried loads config msg s u"
  unfolding retried_def same_place_def by (metis append_assoc copies_simps(2))

text \<open>The three loops keep the promises of the interface.\<close>

interpretation pg: attempts "handle loads config sv msg" main_handler nap
    "retried loads config msg" "replayed loads config msg" "skipped loads config msg"
  for loads config sv msg
  by unfold_locales
    (auto simp: retried_refl skipped_def main_handler_def retried_nap handle_ok dest: handle_raised
      intro: retried_trans split: if_splits)

interpretation avro: attempts "handle loads config sv msg" avro_handler nap
    "retried loads config msg" "replayed loads config msg" "skipped loads config msg"
  for loads config sv msg
  by unfold_locales
    (auto simp: retried_refl skipped_def avro_handler_def retried_nap handle_ok dest: handle_raised
      intro: retried_trans split: if_splits exn.splits)

definition uncommitted :: "sync \<Rightarrow> sync \<Rightarrow> bool" where
  "uncommitted s t \<longleftrightarrow> same_place s t \<and> executed t = executed s"

definition committed :: "sync \<Rightarrow> sync \<Rightarrow> bool" where
  "committed s t \<longleftrightarrow> read_to t = read_to s \<and> committed_to t = read_to s \<and> executed t = executed s"

interpretation commits: attempts "commit sv" main_handler id uncommitted committed "\<lambda>_ _ _. False" for sv
  by unfold_locales
    (auto simp: uncommitted_def committed_def same_place_def main_handler_def commit_def run_simps
      split: if_splits)

end
