(* ===== verification/PgSyncProps.thy ===== *)
theory PgSyncProps
  imports PgSyncMain
begin

text \<open>
  The properties of \<open>pg-sync\<close>: what the conversions preserve, how the parameters of a statement line up
  with its placeholders, in what order and how often the statements of a topic are executed, when
  the consumers get stuck and when they are sure to go on.
\<close>

section \<open>Facts\<close>

lemma consume_one_pg:
  assumes "consume_one main_handler loads config sv fuel msg s = Some (Inr u, t)"
  shows "\<exists>k > 0. executed t = executed s @ copies loads config msg k \<and> read_to t = read_to s + 1 \<and>
    committed_to t = read_to s + 1 \<and> (\<forall>payload. msg = Some payload \<longrightarrow> (\<exists>q. replay loads config payload = Inr q))"
proof -
  let ?s0 = "s\<lparr>read_to := read_to s + 1\<rparr>"
  from assms obtain s' where
    r: "retry (handle loads config sv msg) main_handler nap fuel ?s0 = Some (Inr (), s')"
      "retry (commit sv) main_handler id fuel s' = Some (Inr (), t)"
    by (auto simp: consume_one_def split: option.splits sum.splits)
  have no_leave: "main_handler e \<noteq> Leave" for e by (simp add: main_handler_def)
  from pg.retry_ends [OF r(1)] no_leave obtain s1 where
    1: "retried loads config msg ?s0 s1" "replayed loads config msg s1 s'" by blast
  from commits.retry_ends [OF r(2)] obtain s2 where 2: "uncommitted s' s2" "committed s2 t" by blast
  from 1(1) obtain k where "executed s1 = executed s @ copies loads config msg k" by (auto simp: retried_def)
  with 1(2) have "executed s' = executed s @ copies loads config msg (k + 1)"
    by (simp add: replayed_def del: One_nat_def)
  with 1 2 show ?thesis
    by (intro exI [of _ "k + 1"])
      (auto simp: retried_def replayed_def uncommitted_def committed_def same_place_def)
qed

lemma consume_snoc_free:
  "consume handler loads config sv fuel (msg # msgs) s = Some (Inr u, t) \<Longrightarrow>
     \<exists>s1. consume_one handler loads config sv fuel msg s = Some (Inr (), s1) \<and>
       consume handler loads config sv fuel msgs s1 = Some (Inr u, t)"
  by (auto split: option.splits sum.splits)

section \<open>Properties of the consumers\<close>

text \<open>C4. When the consumer has got through a list of messages, the statement of every message with a change was
  executed at least once, in the order of the topic and with nothing in between, tombstones executed nothing,
  and the position committed is the one after the last message.\<close>

theorem replays_in_order:
  assumes "pg_main loads config sv fuel msgs s = Some (Inr u, t)"
  shows "\<exists>ks. length ks = length msgs \<and> list_all (\<lambda>k. k > 0) ks \<and>
    executed t = executed s @ concat (map2 (copies loads config) msgs ks) \<and>
    read_to t = read_to s + length msgs \<and> (msgs \<noteq> [] \<longrightarrow> committed_to t = read_to t) \<and>
    (\<forall>payload. Some payload \<in> set msgs \<longrightarrow> (\<exists>q. replay loads config payload = Inr q))"
  using assms unfolding pg_main_def
proof (induction msgs arbitrary: s)
  case Nil
  then show ?case by simp
next
  case (Cons msg msgs)
  from consume_snoc_free [OF Cons.prems] obtain s1 where
    s1: "consume_one main_handler loads config sv fuel msg s = Some (Inr (), s1)"
      "consume main_handler loads config sv fuel msgs s1 = Some (Inr u, t)" by blast
  from consume_one_pg [OF s1(1)] obtain k where
    k: "k > 0" "executed s1 = executed s @ copies loads config msg k" "read_to s1 = read_to s + 1"
      "committed_to s1 = read_to s + 1" "\<forall>payload. msg = Some payload \<longrightarrow> (\<exists>q. replay loads config payload = Inr q)"
    by blast
  from Cons.IH [OF s1(2)] obtain ks where
    ks: "length ks = length msgs" "list_all (\<lambda>k. k > 0) ks"
      "executed t = executed s1 @ concat (map2 (copies loads config) msgs ks)"
      "read_to t = read_to s1 + length msgs" "msgs \<noteq> [] \<longrightarrow> committed_to t = read_to t"
      "\<forall>payload. Some payload \<in> set msgs \<longrightarrow> (\<exists>q. replay loads config payload = Inr q)"
    by blast
  have "msgs = [] \<Longrightarrow> committed_to t = read_to t" using s1(2) k(3,4) by simp
  with k ks show ?case by (intro exI [of _ "k # ks"]) auto
qed

text \<open>A body that always raises an exception that is tried again.\<close>

lemma handle_poison:
  assumes "replay loads config payload = Inl e" "\<And>n e. pool_connect sv n = Inl e \<Longrightarrow> again e" "again e"
  shows "\<exists>e' s'. handle loads config sv (Some payload) s = (Inl e', s') \<and> again e'"
  using assms
  by (cases "pool_connect sv (req s)")
    (auto simp: handle_replay with_connection_def abind_def split: sum.splits)

text \<open>C30. A message that cannot be replayed (unreadable, of a table that is not configured, with a null date) is
  never given up: whatever the fuel, neither consumer gets past it.\<close>

theorem poison_never_passed:
  assumes "replay loads config payload = Inl e" "is_Exception e" "\<And>m. e \<noteq> UniqueViolation m"
    and "\<And>n e. pool_connect sv n = Inl e \<Longrightarrow> is_Exception e \<and> (\<forall>m. e \<noteq> UniqueViolation m)"
  shows "consume main_handler loads config sv fuel (Some payload # msgs) s = None \<and>
    consume avro_handler loads config sv fuel (Some payload # msgs) s = None"
proof -
  let ?again = "\<lambda>e. is_Exception e \<and> (\<forall>m. e \<noteq> UniqueViolation m)"
  have h: "\<exists>e' s'. handle loads config sv (Some payload) s = (Inl e', s') \<and> ?again e'" for s
    by (rule handle_poison [OF assms(1)]) (use assms in auto)
  have "main_handler e = Again" "avro_handler e = Again" if "?again e" for e
    using that by (auto simp: main_handler_def avro_handler_def split: exn.splits)
  with h have "retry (handle loads config sv (Some payload)) main_handler nap fuel s = None"
    "retry (handle loads config sv (Some payload)) avro_handler nap fuel s = None" for s
    by (intro retry_stuck; blast)+
  then show ?thesis by (simp add: consume_one_def)
qed

text \<open>C33. A row that is already there, as after a redelivery of its insert: the JSON consumer tries the insert
  forever, the Avro consumer leaves it out and commits.\<close>

theorem duplicate_insert:
  assumes "replay loads config payload = Inr q"
    and "\<And>n. pool_connect sv n = Inr ()" "\<And>n. db_execute sv n q = Inl (UniqueViolation m)"
    and "\<And>n. broker_commit sv n = Inr ()"
  shows "consume main_handler loads config sv fuel [Some payload] s = None \<and>
    (\<exists>t. consume avro_handler loads config sv (Suc fuel) [Some payload] s = Some (Inr (), t) \<and>
       executed t = executed s \<and> naps t = naps s \<and> committed_to t = read_to s + 1)"
proof -
  have h: "handle loads config sv (Some payload) s = (Inl (UniqueViolation m), s\<lparr>req := req s + 2\<rparr>)" for s
    using assms(1-3) by (simp add: handle_replay with_connection_def execute_def abind_def)
  have "retry (handle loads config sv (Some payload)) main_handler nap fuel s = None" for s
    by (rule retry_stuck) (simp add: h main_handler_def is_Exception_def)
  moreover have "commit sv s = (Inr (), s\<lparr>req := req s + 1, committed_to := read_to s\<rparr>)" for s
    using assms(4) by (simp add: commit_def abind_def)
  ultimately show ?thesis
    by (auto simp: consume_one_def h avro_handler_def)
qed

section \<open>Progress\<close>

text \<open>Each failed round of the loops makes at least one request.\<close>

lemma retry_returns:
  assumes "\<And>s e t. body s = (Inl e, t) \<Longrightarrow> handler e = Again \<and> limit - req (wait t) < limit - req s"
  shows "limit - req s < n \<Longrightarrow> \<exists>t. retry body handler wait n s = Some (Inr (), t)"
proof (induction n arbitrary: s)
  case (Suc n)
  show ?case
  proof (cases "body s")
    case (Pair r t)
    then show ?thesis
    proof (cases r)
      case (Inl e)
      from assms [of s e t] Pair Inl have *: "handler e = Again" "limit - req (wait t) < limit - req s" by simp_all
      with Suc.prems have "limit - req (wait t) < n" by simp
      from Suc.IH [OF this] Pair Inl * show ?thesis by simp
    qed simp
  qed
qed simp

definition up_from :: "nat \<Rightarrow> services \<Rightarrow> bool" where
  "up_from limit sv \<longleftrightarrow>
     (\<forall>n \<ge> limit. pool_connect sv n = Inr () \<and> (\<forall>q. db_execute sv n q = Inr ()) \<and>
        pool_release sv n = Inr () \<and> broker_commit sv n = Inr ())"

definition fails_properly :: "services \<Rightarrow> bool" where
  "fails_properly sv \<longleftrightarrow>
     (\<forall>n e. pool_connect sv n = Inl e \<or> (\<exists>q. db_execute sv n q = Inl e) \<or> pool_release sv n = Inl e \<or>
        broker_commit sv n = Inl e \<longrightarrow> is_Exception e)"

lemma handle_progress:
  assumes "up_from limit sv" "fails_properly sv" "\<And>payload. msg = Some payload \<Longrightarrow> \<exists>q. replay loads config payload = Inr q"
    and "handle loads config sv msg s = (Inl e, t)"
  shows "main_handler e = Again \<and> limit - req (nap t) < limit - req s"
proof (cases msg)
  case None
  with assms(4) show ?thesis by (simp add: handle_def)
next
  case (Some payload)
  with assms(3) obtain q where q: "replay loads config payload = Inr q" by blast
  with Some assms(4) have w: "with_connection sv (execute sv q) s = (Inl e, t)" by (simp add: handle_replay)
  then have "is_Exception e" using assms(2)
    by (cases q) (auto simp: with_connection_def execute_def run_simps fails_properly_def)
  moreover have "req s < req t" using w by (auto simp: with_connection_def execute_def run_simps)
  moreover have "req s < limit"
  proof (rule ccontr)
    assume "\<not> req s < limit"
    with assms(1) w show False by (cases q) (auto simp: with_connection_def execute_def run_simps up_from_def)
  qed
  ultimately show ?thesis by (simp add: main_handler_def nap_def)
qed

lemma commit_progress:
  assumes "up_from limit sv" "fails_properly sv" "commit sv s = (Inl e, t)"
  shows "main_handler e = Again \<and> limit - req (id t) < limit - req s"
proof -
  have "is_Exception e" using assms(2,3) by (auto simp: commit_def run_simps fails_properly_def)
  moreover have "req t = req s + 1" using assms(3) by (auto simp: commit_def run_simps)
  moreover have "req s < limit"
  proof (rule ccontr)
    assume "\<not> req s < limit"
    with assms(1,3) show False by (auto simp: commit_def run_simps up_from_def)
  qed
  ultimately show ?thesis by (simp add: main_handler_def)
qed

text \<open>C17. However the database, the pool and the broker failed before, once they answer the consumer gets through
  all the messages that can be replayed: more rounds than the failing requests are fuel enough.\<close>

theorem outage_survived:
  assumes "up_from limit sv" "fails_properly sv" "limit < fuel"
    and "\<And>payload. Some payload \<in> set msgs \<Longrightarrow> \<exists>q. replay loads config payload = Inr q"
  shows "\<exists>t. pg_main loads config sv fuel msgs s = Some (Inr (), t)"
  using assms(4) unfolding pg_main_def
proof (induction msgs arbitrary: s)
  case (Cons msg msgs)
  have "\<exists>q. replay loads config payload = Inr q" if "msg = Some payload" for payload
    using Cons.prems that by simp
  from handle_progress [OF assms(1,2) this]
  have "\<exists>t. retry (handle loads config sv msg) main_handler nap fuel s = Some (Inr (), t)" for s
    using assms(3) by (intro retry_returns [of _ _ limit]) auto
  moreover have "\<exists>t. retry (commit sv) main_handler id fuel s = Some (Inr (), t)" for s
    using assms(3) commit_progress [OF assms(1,2)] by (intro retry_returns [of _ _ limit]) auto
  ultimately have "\<exists>t. consume_one main_handler loads config sv fuel msg s = Some (Inr (), t)"
    unfolding consume_one_def by (metis (no_types, lifting) option.simps(5) old.prod.case old.sum.simps(6))
  then obtain s1 where "consume_one main_handler loads config sv fuel msg s = Some (Inr (), s1)" by blast
  with Cons.IH [of s1] Cons.prems show ?case by simp
qed simp

section \<open>Statements and values\<close>

lemma cast_values_Inr:
  "cast_values config keys values table_name = Inr ps \<Longrightarrow>
     \<exists>cast_keys. table_config config table_name = Inr cast_keys \<and>
       list_all2 (\<lambda>(k, v) p. cast_value cast_keys k v = Inr p) (zip keys values) ps"
  by (auto simp: cast_values_def rbind_eq_Inr rmap_Inr_iff case_prod_unfold)

lemma zip_fst_snd: "zip (map fst d) (map snd d) = d"
  by (induction d) auto

lemma row_key_Inr:
  assumes "row_key config table_name before = Inr (keys, values)"
  shows "where_keys config table_name before = Inr keys \<and> length values = length keys \<and>
    (zip keys values = before \<or> (\<forall>(k, v) \<in> set (zip keys values). dget before k = Some v))"
proof -
  from assms obtain ri where ri: "find_row_identifier config table_name = Inr ri" by (auto simp: row_key_def rbind_eq_Inr)
  show ?thesis
  proof (cases ri)
    case None
    with assms ri show ?thesis
      by (auto simp: row_key_def where_keys_def dkeys_def zip_fst_snd)
  next
    case (Some r)
    with assms ri have k: "identifier_keys r = Inr keys" "list_all2 (\<lambda>k v. ditem before k = Inr v) keys values"
      by (auto simp: row_key_def rbind_eq_Inr rmap_Inr_iff)
    then have "\<forall>(k, v) \<in> set (zip keys values). dget before k = Some v"
      by (auto simp: list_all2_iff ditem_Inr)
    with k ri Some show ?thesis by (auto simp: where_keys_def dest: list_all2_lengthD)
  qed
qed

fun change_table :: "change \<Rightarrow> json" where
  "change_table (Update _ t _ _) = t"
| "change_table (Insert _ t _) = t"
| "change_table (Delete _ t _) = t"

text \<open>The columns that a change sets, with their new values, and those of the old row that identify it.\<close>

fun new_values :: "change \<Rightarrow> (string, json) dict" where
  "new_values (Update _ _ _ after) = after"
| "new_values (Insert _ _ after) = after"
| "new_values (Delete _ _ _) = []"

fun old_row :: "change \<Rightarrow> (string, json) dict" where
  "old_row (Update _ _ before _) = before"
| "old_row (Insert _ _ _) = []"
| "old_row (Delete _ _ before) = before"

text \<open>C15. The placeholders of a statement and its parameters line up: first the columns set, each with its new
  value converted as the configuration of the table says, then the columns of the condition, each
  with the value the row had before the change.\<close>

theorem parameters_line_up:
  assumes "prepare config c = Inr (query, params)"
  shows "\<exists>cast_keys key.
    table_config config (change_table c) = Inr cast_keys \<and>
    placeholders query = map fst (new_values c @ key) \<and>
    list_all2 (\<lambda>(k, v) p. cast_value cast_keys k v = Inr p) (new_values c @ key) params \<and>
    (key = old_row c \<or> (\<forall>(k, v) \<in> set key. dget (old_row c) k = Some v))"
proof (cases c)
  case (Update schema t before after)
  with assms obtain keys vals a b where
    u: "where_keys config t before = Inr (drop (length after) (placeholders query))"
      "placeholders query = dkeys after @ drop (length after) (placeholders query)"
      "cast_values config (dkeys after) (map snd after) t = Inr a"
      "row_key config t before = Inr (keys, vals)" "cast_values config keys vals t = Inr b" "params = a @ b"
    by (auto simp: rbind_eq_Inr create_update_statement_def dkeys_def)
  from row_key_Inr [OF u(4)] u(1,2) have k: "placeholders query = map fst (after @ zip keys vals)"
      "zip keys vals = before \<or> (\<forall>(k, v) \<in> set (zip keys vals). dget before k = Some v)"
    by (auto simp: dkeys_def)
  from cast_values_Inr [OF u(3)] cast_values_Inr [OF u(5)] obtain ck where
    "table_config config t = Inr ck" "list_all2 (\<lambda>(k, v) p. cast_value ck k v = Inr p) after a"
    "list_all2 (\<lambda>(k, v) p. cast_value ck k v = Inr p) (zip keys vals) b"
    by (auto simp: dkeys_def zip_fst_snd)
  with k u(6) Update show ?thesis
    by (intro exI [of _ ck] exI [of _ "zip keys vals"]) (auto intro: list_all2_appendI)
next
  case (Insert schema t after)
  with assms cast_values_Inr [of config "dkeys after" "map snd after" t params] show ?thesis
    by (auto simp: rbind_eq_Inr create_insert_statement_def dkeys_def zip_fst_snd)
next
  case (Delete schema t before)
  with assms obtain keys vals where
    u: "where_keys config t before = Inr (placeholders query)"
      "row_key config t before = Inr (keys, vals)" "cast_values config keys vals t = Inr params"
    by (auto simp: rbind_eq_Inr create_delete_statement_def)
  from row_key_Inr [OF u(2)] u(1) have k: "placeholders query = map fst (zip keys vals)"
      "zip keys vals = before \<or> (\<forall>(k, v) \<in> set (zip keys vals). dget before k = Some v)"
    by auto
  from cast_values_Inr [OF u(3)] k Delete show ?thesis
    by (auto intro!: exI [of _ "zip keys vals"])
qed

lemma int_to_date_iff:
  "int_to_date (JInt n) = Inr (PDate dt) \<longleftrightarrow> valid_date dt \<and> ymd2ord dt = ymd2ord EPOCH_DATE + n"
proof (cases "0 < 719163 + n \<and> 719163 + n \<le> MAXORDINAL")
  case True
  then have "int_to_date (JInt n) = Inr (PDate (ord2ymd (719163 + n)))" using int_to_date_in_range by blast
  moreover have "valid_date (ord2ymd (719163 + n))" "ymd2ord (ord2ymd (719163 + n)) = 719163 + n"
    using ord2ymd_inverse True by blast+
  moreover have "valid_date dt \<Longrightarrow> ymd2ord dt = 719163 + n \<Longrightarrow> dt = ord2ymd (719163 + n)" using ymd2ord_inverse by metis
  ultimately show ?thesis unfolding ordinals by auto
next
  case False
  then show ?thesis using int_to_date_out_of_range valid_date_ordinal [of dt] unfolding ordinals(1) by (fastforce simp: overflows_def)
qed

lemma epoch_plus_iff:
  "epoch_plus (of_int n) = Inr (PDateTime (dt, tm)) \<longleftrightarrow>
     valid_date dt \<and> valid_time tm \<and> (ymd2ord dt - ymd2ord EPOCH_DATE) * DAY + time_us tm = n"
proof
  assume e: "epoch_plus (of_int n) = Inr (PDateTime (dt, tm))"
  then have r: "0 < 719163 + n div DAY" "719163 + n div DAY \<le> MAXORDINAL"
    using epoch_plus_out_of_range [of n] by (auto simp: overflows_def)
  from epoch_plus_in_range [OF r] e have dt: "dt = ord2ymd (719163 + n div DAY)" "tm = clock_of (n mod DAY)" by simp_all
  have "0 \<le> n mod DAY" "n mod DAY < DAY" by (simp_all add: DAY_def)
  from clock_of_valid [OF this] ord2ymd_inverse [OF r] dt
  show "valid_date dt \<and> valid_time tm \<and> (ymd2ord dt - ymd2ord EPOCH_DATE) * DAY + time_us tm = n"
    unfolding ordinals(1) by simp
next
  assume v: "valid_date dt \<and> valid_time tm \<and> (ymd2ord dt - ymd2ord EPOCH_DATE) * DAY + time_us tm = n"
  then have "0 \<le> time_us tm" "time_us tm < DAY" using time_us_range by blast+
  with v have d: "n div DAY = ymd2ord dt - 719163" "n mod DAY = time_us tm"
    using quotient [of "time_us tm" DAY "ymd2ord dt - 719163"] remainder [of "time_us tm" DAY "ymd2ord dt - 719163"]
    unfolding ordinals(1) by auto
  with v valid_date_ordinal [of dt] have "0 < 719163 + n div DAY" "719163 + n div DAY \<le> MAXORDINAL" by auto
  from epoch_plus_in_range [OF this] d v ymd2ord_inverse [of dt] clock_of_time [of tm]
  show "epoch_plus (of_int n) = Inr (PDateTime (dt, tm))" by simp
qed

lemma epoch_plus_ends: "(\<exists>x. epoch_plus (of_int n) = Inr (PDateTime x)) \<or> overflows (epoch_plus (of_int n))"
  using epoch_plus_in_range [of n] epoch_plus_out_of_range [of n] by blast

text \<open>C40. Days since 1970 are converted to the date of the calendar that many days away: 0 to January 1, 1970, and every
  further day to the day after, through all months and leap years from the year 1 to 9999. Microseconds and milliseconds
  are converted to that date and the time of its day, so that nothing is lost, and every date and time of the calendar has its
  number. Outside of these years all three overflow.\<close>

theorem conversions_exact:
  "int_to_date (JInt 0) = Inr (PDate (1970, 1, 1)) \<and>
   (int_to_date (JInt n) = Inr (PDate dt) \<and> dt \<noteq> (9999, 12, 31) \<longrightarrow> int_to_date (JInt (n + 1)) = Inr (PDate (next_day dt))) \<and>
   (int_to_date (JInt n) = Inr (PDate dt) \<longleftrightarrow> valid_date dt \<and> ymd2ord dt = ymd2ord (1970, 1, 1) + n) \<and>
   (micro_to_datetime (JInt n) = Inr (PDateTime (dt, tm)) \<longleftrightarrow>
      valid_date dt \<and> valid_time tm \<and> (ymd2ord dt - ymd2ord (1970, 1, 1)) * 86400000000 + time_us tm = n) \<and>
   (milli_to_datetime (JInt n) = Inr (PDateTime (dt, tm)) \<longleftrightarrow>
      valid_date dt \<and> valid_time tm \<and> (ymd2ord dt - ymd2ord (1970, 1, 1)) * 86400000000 + time_us tm = n * 1000) \<and>
   ((\<exists>x. int_to_date (JInt n) = Inr (PDate x)) \<or> overflows (int_to_date (JInt n))) \<and>
   ((\<exists>x. micro_to_datetime (JInt n) = Inr (PDateTime x)) \<or> overflows (micro_to_datetime (JInt n))) \<and>
   ((\<exists>x. milli_to_datetime (JInt n) = Inr (PDateTime x)) \<or> overflows (milli_to_datetime (JInt n)))"
proof (intro conjI)
  have m: "micro_to_datetime (JInt k) = epoch_plus (of_int k)" "milli_to_datetime (JInt k) = epoch_plus (of_int (k * 1000))" for k
    by (simp_all add: micro_to_datetime_def milli_to_datetime_def number_def)
  note days = int_to_date_iff [unfolded EPOCH_DATE_def]
  note moments = epoch_plus_iff [unfolded EPOCH_DATE_def DAY_def]
  show "int_to_date (JInt 0) = Inr (PDate (1970, 1, 1))" by (simp add: days days_in_month_def month_days_def)
  show "int_to_date (JInt n) = Inr (PDate dt) \<and> dt \<noteq> (9999, 12, 31) \<longrightarrow> int_to_date (JInt (n + 1)) = Inr (PDate (next_day dt))"
    using valid_next_day [of dt] ymd2ord_next_day [of dt] by (simp only: days) auto
  show "(int_to_date (JInt n) = Inr (PDate dt)) = (valid_date dt \<and> ymd2ord dt = ymd2ord (1970, 1, 1) + n)" by (rule days)
  show "(micro_to_datetime (JInt n) = Inr (PDateTime (dt, tm))) =
      (valid_date dt \<and> valid_time tm \<and> (ymd2ord dt - ymd2ord (1970, 1, 1)) * 86400000000 + time_us tm = n)"
    unfolding m by (rule moments)
  show "(milli_to_datetime (JInt n) = Inr (PDateTime (dt, tm))) =
      (valid_date dt \<and> valid_time tm \<and> (ymd2ord dt - ymd2ord (1970, 1, 1)) * 86400000000 + time_us tm = n * 1000)"
    unfolding m by (rule moments)
  show "(\<exists>x. int_to_date (JInt n) = Inr (PDate x)) \<or> overflows (int_to_date (JInt n))"
    using int_to_date_in_range [of n] int_to_date_out_of_range [of n] by blast
  show "(\<exists>x. micro_to_datetime (JInt n) = Inr (PDateTime x)) \<or> overflows (micro_to_datetime (JInt n))"
    unfolding m by (rule epoch_plus_ends)
  show "(\<exists>x. milli_to_datetime (JInt n) = Inr (PDateTime x)) \<or> overflows (milli_to_datetime (JInt n))"
    unfolding m by (rule epoch_plus_ends)
qed

theorem conversions_exact_witness:
  "int_to_date (JInt 19783) = Inr (PDate (2024, 3, 1))"
proof -
  have "int_to_date (JInt 19782) = Inr (PDate (2024, 2, 29))" by code_simp
  with conversions_exact [of 19782 "(2024, 2, 29)"] have "int_to_date (JInt 19783) = Inr (PDate (next_day (2024, 2, 29)))" by simp
  then show ?thesis by (simp add: days_in_month_def month_days_def is_leap_def)
qed

lemma hms_sum: "k div 60 div 60 * 3600 + (k div 60 mod 60) * 60 + k mod 60 = (k :: int)"
proof -
  obtain a b where a: "a = k div 60" "b = k mod 60" by simp
  obtain c d where c: "c = a div 60" "d = a mod 60" by simp
  have "k = 60 * a + b" "a = 60 * c + d" using a c by simp_all
  then have "c * 3600 + d * 60 + b = k" by simp
  with a c show ?thesis by simp
qed

text \<open>A time of the day is converted to its hours, minutes and seconds: what is left of a second is lost, so
  times in the same second become the same; anything else than a time of the day raises.\<close>

theorem milli_time_truncates:
  "if 0 \<le> n \<and> n < 86400000
   then \<exists>h m s. milli_time (JInt n) = Inr (PTime h m s) \<and> h * 3600 + m * 60 + s = n div 1000 \<and>
     0 \<le> h \<and> h < 24 \<and> 0 \<le> m \<and> m < 60 \<and> 0 \<le> s \<and> s < 60
   else \<exists>e. milli_time (JInt n) = Inl e \<and> is_Exception e"
proof (cases "0 \<le> n \<and> n < 86400000")
  case True
  have "n div 3600000 = n div 1000 div 60 div 60" "n div 60000 = n div 1000 div 60"
    using zdiv_zmult2_eq [of 60 n 1000] zdiv_zmult2_eq [of 60 n 60000] by simp_all
  then have "n div 3600000 * 3600 + (n div 60000 mod 60) * 60 + n div 1000 mod 60 = n div 1000"
    using hms_sum [of "n div 1000"] by simp
  with True hours_range [of n] milli_time_parts [of n] show ?thesis by (simp add: milli_time_def)
next
  case False
  then have "\<not> (0 \<le> n div 3600000 \<and> n div 3600000 < 24)"
    using div_mult_mod_eq [of n 3600000] pos_mod_bound [of 3600000 n] pos_mod_sign [of 3600000 n] by linarith
  with False show ?thesis
    by (auto simp: milli_time_def milli_time_int_eq py_time_def is_Exception_def)
qed

text \<open>A framed Avro record is decoded from its sixth byte, whatever schema its header names; a record that is
  too short or does not start with the byte 0 raises a \<open>ValueError\<close>.\<close>

theorem avro_framing:
  "if 5 \<le> length msg \<and> hd msg = 0 then parse_avro reader msg = reader (drop 5 msg)
   else \<exists>m. parse_avro reader msg = Inl (ValueError m)"
proof (cases "5 \<le> length msg")
  case True
  then obtain b0 b1 b2 b3 b4 rest where msg: "msg = b0 # b1 # b2 # b3 # b4 # rest"
    by (auto simp: numeral_eq_Suc Suc_le_length_iff)
  have "sint b0 = 0 \<longleftrightarrow> b0 = 0" by (metis sint_0 signed_word_eqI)
  with msg show ?thesis by (simp add: parse_avro_def unpack_header_def HEADER_SIZE_def START_BYTE_def)
next
  case False
  then have "length (take HEADER_SIZE msg) < 5" by (simp add: HEADER_SIZE_def)
  moreover have "length bs < 5 \<Longrightarrow> \<exists>m. unpack_header bs = Inl (ValueError m)" for bs
    by (auto simp: unpack_header_def split: list.splits)
  ultimately have "\<exists>m. unpack_header (take HEADER_SIZE msg) = Inl (ValueError m)" by blast
  with False show ?thesis by (auto simp: parse_avro_def Let_def)
qed

section \<open>Runs\<close>

definition demo_config :: config where
  "demo_config = [(''people'', JObj [(''topic'', JStr ''replicator.public.people''), (''date_fields'', JList [JStr ''born'']),
     (''time_fields'', JList []), (''datetime_milli_fields'', JList []), (''datetime_micro_fields'', JList []),
     (''timestamp_fields'', JList []), (''binary_fields'', JList []), (''set_fields'', JList []),
     (''row_identifier'', JList [JStr ''id''])])]"

definition demo_source :: json where
  "demo_source = JObj [(''schema'', JStr ''public''), (''table'', JStr ''people'')]"

text \<open>A decoder for two payloads: an update of a row and an insert of a row without a date.\<close>

definition demo_loads :: "byte list \<Rightarrow> json res" where
  "demo_loads bs =
     (if bs = [1] then
        Inr (JObj [(''before'', JObj [(''id'', JInt 7), (''born'', JInt 1)]), (''after'', JObj [(''id'', JInt 7), (''born'', JInt 10)]),
          (''source'', demo_source)])
      else if bs = [2] then
        Inr (JObj [(''before'', JNull), (''after'', JObj [(''id'', JInt 8), (''born'', JNull)]), (''source'', demo_source)])
      else if bs = [3] then
        Inr (JObj [(''before'', JNull), (''after'', JObj [(''id'', JInt 8)]), (''source'', demo_source)])
      else Inl (JSONDecodeError ''loads''))"

text \<open>Services that fail the first three requests.\<close>

definition demo_services :: services where
  "demo_services =
     \<lparr>pool_connect = (\<lambda>n. if n < 3 then Inl (TimeoutError ''pool'') else Inr ()),
      db_execute = (\<lambda>n q. if n < 3 then Inl (OSError ''db'') else Inr ()),
      pool_release = (\<lambda>n. if n < 3 then Inl (OSError ''db'') else Inr ()),
      broker_commit = (\<lambda>n. if n < 3 then Inl (OSError ''broker'') else Inr ())\<rparr>"

definition sync0 :: sync where
  "sync0 = \<lparr>req = 0, executed = [], naps = 0, read_to = 0, committed_to = 0\<rparr>"

definition demo_update :: "statement \<times> pg_value list" where
  "demo_update = (UpdateSet (JStr ''public'') (JStr ''people'') [''id'', ''born''] [''id''],
     [PJson (JInt 7), PDate (1970, 1, 11), PJson (JInt 7)])"

lemma demo_replay: "replay demo_loads demo_config [1] = Inr demo_update"
  by code_simp

lemma pg_demo_run:
  "pg_main demo_loads demo_config demo_services 5 [Some [1], None] sync0 =
     Some (Inr (), \<lparr>req = 8, executed = [demo_update], naps = 3, read_to = 2, committed_to = 2\<rparr>)"
  by code_simp

theorem replays_in_order_witness:
  "\<exists>ks. length ks = 2 \<and> [demo_update] = concat (map2 (copies demo_loads demo_config) [Some [1], None] ks)"
proof -
  from replays_in_order [OF pg_demo_run] obtain ks where "length ks = length [Some [1::byte], None]"
      "[demo_update] = executed sync0 @ concat (map2 (copies demo_loads demo_config) [Some [1], None] ks)" by auto
  then show ?thesis by (intro exI [of _ ks]) (simp add: sync0_def)
qed

theorem poison_never_passed_witness:
  "pg_main demo_loads demo_config demo_services 100 [Some [2]] sync0 = None"
proof -
  have r: "replay demo_loads demo_config [2] = Inl (TypeError ''number'')" by code_simp
  have "pool_connect demo_services n = Inl e \<Longrightarrow> is_Exception e \<and> (\<forall>m. e \<noteq> UniqueViolation m)" for n e
    by (auto simp: demo_services_def is_Exception_def split: if_splits)
  from poison_never_passed [OF r _ _ this] show ?thesis by (simp add: pg_main_def is_Exception_def)
qed

definition demo_full :: services where
  "demo_full = \<lparr>pool_connect = (\<lambda>_. Inr ()), db_execute = (\<lambda>_ _. Inl (UniqueViolation ''people_pkey'')),
     pool_release = (\<lambda>_. Inr ()), broker_commit = (\<lambda>_. Inr ())\<rparr>"

theorem duplicate_insert_witness:
  "pg_main demo_loads demo_config demo_full 100 [Some [3]] sync0 = None"
proof -
  have r: "replay demo_loads demo_config [3] = Inr (InsertInto (JStr ''public'') (JStr ''people'') [''id''], [PJson (JInt 8)])"
    by code_simp
  from duplicate_insert [OF r, of demo_full "''people_pkey''" 100 sync0] show ?thesis
    by (simp add: demo_full_def pg_main_def)
qed

theorem outage_survived_witness:
  "\<exists>t. pg_main demo_loads demo_config demo_services 4 [Some [1], None] sync0 = Some (Inr (), t)"
proof (rule outage_survived [of 3])
  show "up_from 3 demo_services" by (simp add: up_from_def demo_services_def)
  show "fails_properly demo_services"
    by (auto simp: fails_properly_def demo_services_def is_Exception_def split: if_splits)
  show "\<exists>q. replay demo_loads demo_config payload = Inr q" if "Some payload \<in> set [Some [1], None]" for payload
    using that demo_replay by auto
qed simp

theorem parameters_line_up_witness:
  "\<exists>key. placeholders (fst demo_update) = map fst ([(''id'', JInt 7), (''born'', JInt 10)] @ key)"
proof -
  have "prepare demo_config (Update (JStr ''public'') (JStr ''people'') [(''id'', JInt 7), (''born'', JInt 1)]
      [(''id'', JInt 7), (''born'', JInt 10)]) = Inr (fst demo_update, snd demo_update)"
    by code_simp
  from parameters_line_up [OF this] show ?thesis by auto
qed

end
