(* ===== verification/PgWriter.thy ===== *)
theory PgWriter
  imports PgSyncMain PyStr "HOL-Library.Sublist"
begin

text \<open>
  The rest of \<open>pg-sync\<close>: the settings read from the environment (\<open>env.py\<close>, \<open>db.py\<close>), the choice of the
  Avro schema at the start of \<open>avro_main.py\<close>, and \<open>pg_data_writer.py\<close>, which writes a row per round
  as long as the replication slot of the consumer exists. The database is a parameter whose
  answers may depend on the number of requests made before.
\<close>

section \<open>Settings\<close>

record settings =
  kafka_broker :: string
  tables :: json
  pg_host :: string
  pg_port :: string
  pg_user :: string
  pg_pw :: string
  pg_db :: string
  pg_ssl :: string

text \<open>Reading the file and parsing it may raise; only the three named exceptions are turned into an exit.\<close>

definition load_config :: "(string, string) dict \<Rightarrow> (string \<Rightarrow> string res) \<Rightarrow> (string \<Rightarrow> json res) \<Rightarrow> json res" where
  "load_config environ read_file parse =
     (case rbind (ditem environ ''CONFIG_FILE'') (\<lambda>config_file. rbind (read_file config_file) parse) of
        Inr config \<Rightarrow> Inr config
      | Inl e \<Rightarrow>
          (case e of
             KeyError _ \<Rightarrow> Inl (SystemExit 1)
           | OSError _ \<Rightarrow> Inl (SystemExit 1)
           | JSONDecodeError _ \<Rightarrow> Inl (SystemExit 1)
           | _ \<Rightarrow> Inl e))"

definition load_env :: "(string, string) dict \<Rightarrow> (string \<Rightarrow> string res) \<Rightarrow> (string \<Rightarrow> json res) \<Rightarrow> settings res" where
  "load_env environ read_file parse =
     (let broker = dget_or environ ''KAFKA_BROKER'' ''localhost:9092'' in
      rbind (load_config environ read_file parse) (\<lambda>config.
        Inr \<lparr>kafka_broker = broker, tables = config,
             pg_host = dget_or environ ''PG_HOST'' ''localhost'', pg_port = dget_or environ ''PG_PORT'' ''5432'',
             pg_user = dget_or environ ''PG_USER'' ''avnadmin'', pg_pw = dget_or environ ''PG_PW'' '''',
             pg_db = dget_or environ ''PG_DB'' ''defaultdb'', pg_ssl = dget_or environ ''PG_SSL'' ''require''\<rparr>))"

definition creds :: "settings \<Rightarrow> (string, string) dict" where
  "creds e = [(''host'', pg_host e), (''port'', pg_port e), (''user'', pg_user e), (''password'', pg_pw e),
     (''dbname'', pg_db e), (''sslmode'', pg_ssl e)]"

text \<open>\<open>{**creds, **kwargs}\<close> and the smallest number of connections.\<close>

definition create_db_pool :: "settings \<Rightarrow> (string, string) dict \<Rightarrow> nat \<times> (string, string) dict" where
  "create_db_pool e kwargs = (3, dupdate (creds e) kwargs)"

section \<open>The Avro schema\<close>

definition REGISTRY_URL :: string where
  "REGISTRY_URL = ''https://replicator-kafka-akahn-demo.aivencloud.com:24282''"

definition SCHEMA_NAME :: string where
  "SCHEMA_NAME = ''replicator.public.all_datatypes-value''"

definition get_schema_versions :: "(string \<Rightarrow> json res) \<Rightarrow> string \<Rightarrow> json res" where
  "get_schema_versions http schema_name = http (REGISTRY_URL @ ''/subjects/'' @ schema_name @ ''/versions'')"

definition get_schema_info :: "(string \<Rightarrow> json res) \<Rightarrow> string \<Rightarrow> int \<Rightarrow> json res" where
  "get_schema_info http schema_name version =
     http (REGISTRY_URL @ ''/subjects/'' @ schema_name @ ''/versions/'' @ show_int version)"

text \<open>The versions are integers; the newest is the last of the sorted list.\<close>

definition newest_version :: "json \<Rightarrow> int res" where
  "newest_version versions =
     rbind (py_iter versions) (\<lambda>vs.
     rbind (rmap (\<lambda>v. case v of JInt n \<Rightarrow> Inr n | _ \<Rightarrow> Inl (TypeError ''version'')) vs) (\<lambda>ns.
       if ns = [] then Inl (IndexError ''versions'') else Inr (last (sort ns))))"

definition avro_schema :: "(string \<Rightarrow> json res) \<Rightarrow> (string \<Rightarrow> json res) \<Rightarrow> json res" where
  "avro_schema http parse =
     rbind (get_schema_versions http SCHEMA_NAME) (\<lambda>versions.
     rbind (newest_version versions) (\<lambda>version.
     rbind (get_schema_info http SCHEMA_NAME version) (\<lambda>res.
     rbind (py_item res ''schema'') (\<lambda>s.
       case s of JStr text \<Rightarrow> parse text | _ \<Rightarrow> Inl (TypeError ''schema'')))))"

section \<open>The writer\<close>

text \<open>A row of the slot query: the name and whether the slot is active.\<close>

record writer_db =
  connect :: "nat \<Rightarrow> unit res"
  slots :: "nat \<Rightarrow> (string \<times> bool) list res"
  run_sql :: "nat \<Rightarrow> string \<Rightarrow> string list \<Rightarrow> unit res"
  release :: "nat \<Rightarrow> unit res"

record writer =
  asked :: nat
  statements :: "(string \<times> string list) list"
  slept :: nat

type_synonym 'a write_run = "(writer, 'a) run"

definition query :: "(nat \<Rightarrow> 'a res) \<Rightarrow> 'a write_run" where
  "query f = (\<lambda>w. (f (asked w), w\<lparr>asked := asked w + 1\<rparr>))"

definition run_statement :: "writer_db \<Rightarrow> string \<Rightarrow> string list \<Rightarrow> unit write_run" where
  "run_statement db sql params =
     abind (query (\<lambda>n. run_sql db n sql params)) (\<lambda>_ w. (Inr (), w\<lparr>statements := statements w @ [(sql, params)]\<rparr>))"

definition in_connection :: "writer_db \<Rightarrow> 'a write_run \<Rightarrow> 'a write_run" where
  "in_connection db body =
     abind (query (connect db)) (\<lambda>_. abind body (\<lambda>x. abind (query (release db)) (\<lambda>_. aret (Inr x))))"

text \<open>An exception is logged and forgotten.\<close>

definition create_table :: "writer_db \<Rightarrow> string \<Rightarrow> bool \<Rightarrow> unit write_run" where
  "create_table db table_name drop_table =
     acatch
       (abind (if drop_table then run_statement db (''DROP TABLE IF EXISTS '' @ table_name) [] else aret (Inr ()))
         (\<lambda>_. run_statement db (''CREATE TABLE IF NOT EXISTS '' @ table_name @ '' (id serial PRIMARY KEY, data varchar);'') []))
       (\<lambda>e. if is_Exception e then Inr () else Inl e)"

fun find_slot :: "string \<Rightarrow> (string \<times> bool) list \<Rightarrow> bool \<times> bool" where
  "find_slot slot_name [] = (False, False)"
| "find_slot slot_name ((name, active) # records) =
     (if name = slot_name then (active, True) else find_slot slot_name records)"

text \<open>Whether the slot is active and whether it exists.\<close>

definition debezium_slot_status :: "writer_db \<Rightarrow> string \<Rightarrow> (bool \<times> bool) write_run" where
  "debezium_slot_status db slot_name =
     in_connection db (abind (query (slots db)) (\<lambda>records. aret (Inr (find_slot slot_name records))))"

definition insert_sql :: "string \<Rightarrow> string" where
  "insert_sql table_name = ''INSERT INTO '' @ table_name @ '' (data) VALUES (%s);''"

definition sleep :: "nat \<Rightarrow> unit write_run" where
  "sleep t = (\<lambda>w. (Inr (), w\<lparr>slept := slept w + t\<rparr>))"

definition write_round :: "writer_db \<Rightarrow> string \<Rightarrow> string \<Rightarrow> unit write_run" where
  "write_round db table_name random_data =
     (\<lambda>w. case abind
        (in_connection db
          (abind (debezium_slot_status db ''debezium'') (\<lambda>(active, exists).
             if exists then run_statement db (insert_sql table_name) [random_data]
             else sleep 5)))
        (\<lambda>_. sleep 1) w of
        (Inl e, w') \<Rightarrow> if is_Exception e then sleep 5 w' else (Inl e, w')
      | (Inr u, w') \<Rightarrow> (Inr u, w'))"

text \<open>The rounds of the endless loop, one for each string of random data.\<close>

fun write_rounds :: "writer_db \<Rightarrow> string \<Rightarrow> string list \<Rightarrow> unit write_run" where
  "write_rounds db table_name [] = aret (Inr ())"
| "write_rounds db table_name (r # rs) =
     abind (write_round db table_name r) (\<lambda>_. write_rounds db table_name rs)"

definition writer_main :: "writer_db \<Rightarrow> string \<Rightarrow> string list \<Rightarrow> unit write_run" where
  "writer_main db table_name rs =
     abind (in_connection db (create_table db table_name False)) (\<lambda>_. write_rounds db table_name rs)"

section \<open>Facts\<close>

lemma query_run [simp]: "query f w = (f (asked w), w\<lparr>asked := asked w + 1\<rparr>)"
  by (simp add: query_def)

lemma find_slot_exists: "snd (find_slot name records) \<longleftrightarrow> name \<in> fst ` set records"
  by (induction name records rule: find_slot.induct) auto

text \<open>A slot query executes nothing; it says that the slot exists only when its own answer names it.\<close>

lemma slot_status_run:
  assumes "debezium_slot_status db name w = (r, w')"
  shows "statements w' = statements w \<and> asked w \<le> asked w'"
    and "r = Inr (active, True) \<Longrightarrow>
      asked w' = asked w + 3 \<and> (\<exists>records. slots db (asked w + 1) = Inr records \<and> name \<in> fst ` set records)"
    and "r = Inl e \<Longrightarrow> \<exists>n. connect db n = Inl e \<or> slots db n = Inl e \<or> release db n = Inl e"
proof -
  from assms show "statements w' = statements w \<and> asked w \<le> asked w'"
    by (auto simp: debezium_slot_status_def in_connection_def abind_def split: sum.splits)
  from assms show "r = Inl e \<Longrightarrow> \<exists>n. connect db n = Inl e \<or> slots db n = Inl e \<or> release db n = Inl e"
    by (auto simp: debezium_slot_status_def in_connection_def run_simps)
  assume "r = Inr (active, True)"
  with assms obtain records where "slots db (asked w + 1) = Inr records" "find_slot name records = (active, True)" "asked w' = asked w + 3"
    by (auto simp: debezium_slot_status_def in_connection_def run_simps)
  then show "asked w' = asked w + 3 \<and> (\<exists>records. slots db (asked w + 1) = Inr records \<and> name \<in> fst ` set records)"
    using find_slot_exists [of name records] by auto
qed

text \<open>What a round may execute: its insert, once, and only after its own query of the slots named the slot.\<close>

lemma run_statement_run:
  "run_statement db sql params w =
     (case run_sql db (asked w) sql params of
        Inl e \<Rightarrow> (Inl e, w\<lparr>asked := asked w + 1\<rparr>)
      | Inr u \<Rightarrow> (Inr (), w\<lparr>asked := asked w + 1, statements := statements w @ [(sql, params)]\<rparr>))"
  by (auto simp: run_statement_def abind_def split: sum.splits)

lemma run_statement_Inl: "run_statement db sql params w = (Inl e, w') \<Longrightarrow> run_sql db (asked w) sql params = Inl e"
  by (auto simp: run_statement_run split: sum.splits)

text \<open>
  The row \<open>d\<close> was inserted on the strength of request number \<open>n\<close>: it asked for the slots and its answer names the one of the
  consumer, and the insert is the request after the release of that connection.
\<close>

fun inserted_after :: "writer_db \<Rightarrow> string \<Rightarrow> string \<times> nat \<Rightarrow> bool" where
  "inserted_after db table_name (d, n) \<longleftrightarrow>
     (\<exists>records. slots db n = Inr records \<and> ''debezium'' \<in> fst ` set records) \<and>
     run_sql db (n + 2) (insert_sql table_name) [d] = Inr ()"

definition round_body :: "writer_db \<Rightarrow> string \<Rightarrow> string \<Rightarrow> unit write_run" where
  "round_body db table_name r =
     in_connection db
       (abind (debezium_slot_status db ''debezium'') (\<lambda>(active, exists).
          if exists then run_statement db (insert_sql table_name) [r] else sleep 5))"

lemma round_body_run:
  assumes "round_body db table_name r w = (res, w')"
  shows "asked w \<le> asked w' \<and>
    (statements w' = statements w \<or>
     statements w' = statements w @ [(insert_sql table_name, [r])] \<and> inserted_after db table_name (r, asked w + 2) \<and>
       asked w + 2 < asked w')"
proof (cases "connect db (asked w)")
  case (Inl e)
  with assms show ?thesis by (auto simp: round_body_def in_connection_def abind_def)
next
  case (Inr u)
  let ?w1 = "w\<lparr>asked := asked w + 1\<rparr>"
  obtain rs w2 where st: "debezium_slot_status db ''debezium'' ?w1 = (rs, w2)" by force
  note facts = slot_status_run [OF st]
  show ?thesis
  proof (cases rs)
    case (Inl e)
    with assms Inr st facts(1) show ?thesis by (auto simp: round_body_def in_connection_def abind_def)
  next
    case (Inr p)
    obtain active ex where p: "p = (active, ex)" by force
    show ?thesis
    proof (cases ex)
      case False
      with assms \<open>connect db (asked w) = Inr u\<close> st facts(1) Inr p show ?thesis
        by (auto simp: round_body_def in_connection_def abind_def sleep_def split: sum.splits)
    next
      case True
      with Inr p facts(2) [of active] obtain records where
        "asked w2 = asked w + 4" "slots db (asked w + 2) = Inr records" "''debezium'' \<in> fst ` set records" by auto
      with assms \<open>connect db (asked w) = Inr u\<close> st facts(1) Inr p True show ?thesis
        by (auto simp: round_body_def in_connection_def abind_def run_statement_run numeral_eq_Suc split: sum.splits)
    qed
  qed
qed

lemma write_round_eq:
  "write_round db table_name r w =
     (case abind (round_body db table_name r) (\<lambda>_. sleep 1) w of
        (Inl e, w') \<Rightarrow> if is_Exception e then sleep 5 w' else (Inl e, w')
      | (Inr u, w') \<Rightarrow> (Inr u, w'))"
  by (simp add: write_round_def round_body_def)

lemma write_round_statements:
  assumes "write_round db table_name r w = (res, w')"
  shows "asked w \<le> asked w' \<and>
    (statements w' = statements w \<or>
     statements w' = statements w @ [(insert_sql table_name, [r])] \<and> inserted_after db table_name (r, asked w + 2) \<and>
       asked w + 2 < asked w')"
proof -
  obtain b w1 where b: "round_body db table_name r w = (b, w1)" by force
  from assms b have "statements w' = statements w1" "asked w' = asked w1"
    by (auto simp: write_round_eq abind_def sleep_def split: sum.splits if_splits)
  with round_body_run [OF b] show ?thesis by simp
qed

definition proper_failures :: "writer_db \<Rightarrow> bool" where
  "proper_failures db \<longleftrightarrow>
     (\<forall>n e. connect db n = Inl e \<or> slots db n = Inl e \<or> release db n = Inl e \<or> (\<exists>q ps. run_sql db n q ps = Inl e) \<longrightarrow>
        is_Exception e)"

lemma round_body_failure:
  assumes "proper_failures db" "round_body db table_name r w = (Inl e, w')"
  shows "is_Exception e"
proof -
  from assms(2) have "(\<exists>n. connect db n = Inl e \<or> slots db n = Inl e \<or> release db n = Inl e) \<or>
      (\<exists>n q ps. run_sql db n q ps = Inl e)"
    unfolding round_body_def in_connection_def
    by (auto simp: abind_Inl sleep_def split: if_splits dest: slot_status_run(3) run_statement_Inl)
  with assms(1) show ?thesis unfolding proper_failures_def by blast
qed

lemma write_round_ok:
  assumes "proper_failures db"
  shows "\<exists>w'. write_round db table_name r w = (Inr (), w')"
proof -
  obtain b w1 where b: "round_body db table_name r w = (b, w1)" by force
  show ?thesis
  proof (cases b)
    case (Inl e)
    with round_body_failure [OF assms] b have "is_Exception e" by simp
    with b Inl show ?thesis by (simp add: write_round_eq abind_def sleep_def)
  next
    case (Inr u)
    with b show ?thesis by (simp add: write_round_eq abind_def sleep_def)
  qed
qed

lemma last_sorted_Max: "sorted xs \<Longrightarrow> xs \<noteq> [] \<Longrightarrow> last xs = Max (set xs)"
proof -
  assume xs: "sorted xs" "xs \<noteq> []"
  have "x \<le> last xs" if "x \<in> set xs" for x
    using that xs by (auto simp: in_set_conv_nth last_conv_nth intro: sorted_nth_mono)
  then show ?thesis using xs(2) by (intro Max_eqI [symmetric]) auto
qed

section \<open>Properties\<close>

lemma write_rounds_run:
  assumes "proper_failures db"
  shows "\<exists>w' written. write_rounds db table_name rs w = (Inr (), w') \<and> subseq (map fst written) rs \<and>
    statements w' = statements w @ map (\<lambda>(d, n). (insert_sql table_name, [d])) written \<and>
    sorted_wrt (<) (map snd written) \<and> (\<forall>x \<in> set written. inserted_after db table_name x \<and> asked w \<le> snd x)"
proof (induction rs arbitrary: w)
  case Nil
  show ?case by (intro exI [of _ w] exI [of _ "[]"]) simp
next
  case (Cons r rs)
  obtain w1 where w1: "write_round db table_name r w = (Inr (), w1)" using write_round_ok [OF assms] by blast
  from Cons [of w1] obtain w' written where ih: "write_rounds db table_name rs w1 = (Inr (), w')" "subseq (map fst written) rs"
      "statements w' = statements w1 @ map (\<lambda>(d, n). (insert_sql table_name, [d])) written" "sorted_wrt (<) (map snd written)"
      "\<forall>x \<in> set written. inserted_after db table_name x \<and> asked w1 \<le> snd x"
    by blast
  from w1 ih(1) have run: "write_rounds db table_name (r # rs) w = (Inr (), w')" by (simp add: abind_def)
  note round = write_round_statements [OF w1]
  show ?case
  proof (cases "statements w1 = statements w")
    case True
    with run ih round show ?thesis by (intro exI [of _ w'] exI [of _ written]) auto
  next
    case False
    with round have "statements w1 = statements w @ [(insert_sql table_name, [r])]" "inserted_after db table_name (r, asked w + 2)"
      "asked w + 2 < asked w1" by auto
    with run ih show ?thesis by (intro exI [of _ w'] exI [of _ "(r, asked w + 2) # written"]) fastforce
  qed
qed

text \<open>The table is created, or the exception is logged; what may go wrong is the connection around it.\<close>

definition create_sql :: "string \<Rightarrow> string" where
  "create_sql table_name = ''CREATE TABLE IF NOT EXISTS '' @ table_name @ '' (id serial PRIMARY KEY, data varchar);''"

lemma create_table_run:
  assumes "proper_failures db" "in_connection db (create_table db table_name False) w = (r, w1)"
  shows "\<exists>created. statements w1 = statements w @ created \<and> created \<in> {[], [(create_sql table_name, [])]} \<and>
    (\<forall>e. r = Inl e \<longrightarrow> (\<exists>n. connect db n = Inl e \<or> release db n = Inl e))"
proof -
  have "is_Exception e" if "run_sql db n q ps = Inl e" for n q ps e
    using assms(1) that unfolding proper_failures_def by blast
  with assms(2) show ?thesis
    by (cases "connect db (asked w)"; cases r)
      (auto simp: in_connection_def create_table_def create_sql_def abind_def acatch_def run_statement_run split: sum.splits prod.splits)
qed

text \<open>C32. The writer inserts its data in their order, at most one row for each round, and each of them in a round whose own query of the
  replication slots named the slot of the consumer, immediately before the insert. Whatever the
  database answers in the rounds, it goes on for ever; what ends it is an exception of the connection in which it creates the table at the start,
  and then it inserts nothing.\<close>

theorem writer_guarded:
  assumes "proper_failures db"
  shows "\<exists>r w' created written. writer_main db table_name rs w = (r, w') \<and>
    statements w' = statements w @ created @ map (\<lambda>(d, n). (insert_sql table_name, [d])) written \<and>
    created \<in> {[], [(create_sql table_name, [])]} \<and>
    (case r of Inr _ \<Rightarrow> subseq (map fst written) rs
     | Inl e \<Rightarrow> written = [] \<and> (\<exists>n. connect db n = Inl e \<or> release db n = Inl e)) \<and>
    sorted_wrt (<) (map snd written) \<and> (\<forall>x \<in> set written. inserted_after db table_name x)"
proof -
  obtain r w1 where c: "in_connection db (create_table db table_name False) w = (r, w1)" by force
  from create_table_run [OF assms c] obtain created where created: "statements w1 = statements w @ created"
    "created \<in> {[], [(create_sql table_name, [])]}" "\<forall>e. r = Inl e \<longrightarrow> (\<exists>n. connect db n = Inl e \<or> release db n = Inl e)" by blast
  show ?thesis
  proof (cases r)
    case (Inl e)
    with c have "writer_main db table_name rs w = (Inl e, w1)" by (simp add: writer_main_def abind_def)
    with created Inl show ?thesis
      by - (rule exI [of _ "Inl e"], rule exI [of _ w1], rule exI [of _ created], rule exI [of _ "[]"], simp)
  next
    case (Inr u)
    from write_rounds_run [OF assms, of table_name rs w1] obtain w' written where
      w: "write_rounds db table_name rs w1 = (Inr (), w')" "subseq (map fst written) rs"
        "statements w' = statements w1 @ map (\<lambda>(d, n). (insert_sql table_name, [d])) written" "sorted_wrt (<) (map snd written)"
        "\<forall>x \<in> set written. inserted_after db table_name x \<and> asked w1 \<le> snd x" by blast
    with c Inr have "writer_main db table_name rs w = (Inr (), w')" by (simp add: writer_main_def abind_def)
    with w created show ?thesis
      by - (rule exI [of _ "Inr ()"], rule exI [of _ w'], rule exI [of _ created], rule exI [of _ written], simp)
  qed
qed

text \<open>The records are decoded with the schema of the largest version that the registry lists.\<close>

theorem newest_schema:
  assumes "http (REGISTRY_URL @ ''/subjects/'' @ SCHEMA_NAME @ ''/versions'') = Inr (JList (map JInt versions))" "versions \<noteq> []"
    and "http (REGISTRY_URL @ ''/subjects/'' @ SCHEMA_NAME @ ''/versions/'' @ show_int (Max (set versions))) = Inr (JObj d)"
    and "dget d ''schema'' = Some (JStr text)"
  shows "avro_schema http parse = parse text"
proof -
  have "last (sort versions) = Max (set versions)"
    using last_sorted_Max [of "sort versions"] assms(2) by (metis length_0_conv length_sort set_sort sorted_sort)
  moreover have "rmap (\<lambda>v. case v of JInt n \<Rightarrow> Inr n | _ \<Rightarrow> Inl (TypeError ''version'')) (map JInt versions) = Inr versions"
    by (induction versions) auto
  ultimately have "newest_version (JList (map JInt versions)) = Inr (Max (set versions))"
    using assms(2) by (simp add: newest_version_def py_iter_def)
  with assms show ?thesis
    by (simp add: avro_schema_def get_schema_versions_def get_schema_info_def py_item_def ditem_def)
qed

section \<open>Runs\<close>

text \<open>A database whose slot appears with the seventh request and that refuses the eleventh.\<close>

definition demo_writer_db :: writer_db where
  "demo_writer_db =
     \<lparr>connect = (\<lambda>n. if n = 10 then Inl (TimeoutError ''pool'') else Inr ()),
      slots = (\<lambda>n. Inr (if n < 6 then [(''other'', True)] else [(''other'', True), (''debezium'', False)])),
      run_sql = (\<lambda>_ _ _. Inr ()), release = (\<lambda>_. Inr ())\<rparr>"

definition writer0 :: writer where
  "writer0 = \<lparr>asked = 0, statements = [], slept = 0\<rparr>"

theorem writer_guarded_witness:
  "\<exists>r w' created written. writer_main demo_writer_db ''t'' [''A'', ''B'', ''C''] writer0 = (r, w') \<and>
     statements w' = created @ map (\<lambda>(d, n). (insert_sql ''t'', [d])) written \<and> (\<forall>x \<in> set written. inserted_after demo_writer_db ''t'' x)"
proof -
  have "proper_failures demo_writer_db"
    by (auto simp: proper_failures_def demo_writer_db_def is_Exception_def split: if_splits)
  from writer_guarded [OF this, of "''t''" "[''A'', ''B'', ''C'']" writer0] show ?thesis by (fastforce simp: writer0_def)
qed

lemma writer_demo_run:
  "statements (snd (write_rounds demo_writer_db ''t'' [''A'', ''B'', ''C''] writer0)) = [(insert_sql ''t'', [''B'']), (insert_sql ''t'', [''C''])] \<and>
     slept (snd (write_rounds demo_writer_db ''t'' [''A'', ''B'', ''C''] writer0)) = 8"
  by code_simp

definition demo_registry :: "string \<Rightarrow> json res" where
  "demo_registry url =
     (if url = REGISTRY_URL @ ''/subjects/'' @ SCHEMA_NAME @ ''/versions'' then Inr (JList (map JInt [1, 3, 2]))
      else if url = REGISTRY_URL @ ''/subjects/'' @ SCHEMA_NAME @ ''/versions/3'' then Inr (JObj [(''schema'', JStr ''{}'')])
      else Inl (HTTPError ''404''))"

theorem newest_schema_witness: "avro_schema demo_registry (\<lambda>_. Inr (JObj [])) = Inr (JObj [])"
proof -
  have v: "demo_registry (REGISTRY_URL @ ''/subjects/'' @ SCHEMA_NAME @ ''/versions'') = Inr (JList (map JInt [1, 3, 2]))"
    by (simp add: demo_registry_def)
  have "show_int (Max (set [1, 3, 2])) = ''3''" by code_simp
  then have s: "demo_registry (REGISTRY_URL @ ''/subjects/'' @ SCHEMA_NAME @ ''/versions/'' @ show_int (Max (set [1, 3, 2]))) =
      Inr (JObj [(''schema'', JStr ''{}'')])"
    by (simp add: demo_registry_def)
  show ?thesis by (rule newest_schema [OF v _ s]) simp_all
qed

end
