(* ===== verification/LanceConsumer.thy ===== *)
theory LanceConsumer
  imports PyJson PyStr PyState "HOL-Library.Word"
begin

text \<open>
  \<open>kafka_consumer_lancedb.py\<close> (\<open>diskless-lancedb\<close>): the consumer that collects messages in batches, makes a
  frame of rows with a vector for each message and adds it to a LanceDB table. The serialiser of
  JSON, the SHA-256 digest, Python's hash of a string and the clock are parameters, as are the table
  and the stream of messages; a float of a vector is the rational number it stands for.
\<close>

type_synonym octet = "8 word"

record kafka_message =
  m_value :: json
  m_key :: "string option"
  m_offset :: int
  m_partition :: int

record lance_row =
  row_id :: json
  row_vector :: "rat list"
  row_timestamp :: json
  row_message :: json
  row_offset :: int
  row_partition :: int
  row_key :: "string option"
  row_raw :: string
  row_extra :: "(json \<times> json) option"

record runtime =
  dumps :: "bool \<Rightarrow> json \<Rightarrow> string"
  sha256 :: "string \<Rightarrow> octet list"
  hash_of :: "string \<Rightarrow> int"
  now_iso :: "nat \<Rightarrow> string"

section \<open>The consumer's configuration\<close>

definition path_join :: "string \<Rightarrow> string \<Rightarrow> string" where
  "path_join folder name =
     (if folder = [] \<or> last folder = CHR ''/'' then folder @ name else folder @ ''/'' @ name)"

definition create_consumer ::
  "(string, string) dict \<Rightarrow> (string \<Rightarrow> (string, json) dict \<Rightarrow> 'c res) \<Rightarrow> string \<Rightarrow> string option \<Rightarrow> 'c res" where
  "create_consumer environ kafka_consumer topic_name group_id =
     (let servers = dget_or environ ''KAFKA_BOOTSTRAP_SERVERS'' [];
          folder = dget_or environ ''KAFKA_CERT_FOLDER'' ''./certs''
      in if servers = [] then Inl (ValueError ''KAFKA_BOOTSTRAP_SERVERS environment variable is required'')
      else
        (let group = (if group_id = None \<or> group_id = Some [] then dget_or environ ''KAFKA_GROUP_ID'' ''lancedb-consumer-group''
                      else the group_id);
             rack = dget_or environ ''KAFKA_RACK'' [];
             config =
               [(''bootstrap_servers'', JStr servers), (''security_protocol'', JStr ''SSL''),
                (''ssl_cafile'', JStr (path_join folder ''ca.pem'')), (''ssl_certfile'', JStr (path_join folder ''service.cert'')),
                (''ssl_keyfile'', JStr (path_join folder ''service.key'')), (''auto_offset_reset'', JStr ''earliest''),
                (''enable_auto_commit'', JBool True), (''group_id'', JStr group), (''fetch_max_bytes'', JInt 1048576),
                (''max_partition_fetch_bytes'', JInt 1048576), (''fetch_min_bytes'', JInt 1), (''fetch_max_wait_ms'', JInt 500)];
             config = (if rack \<noteq> [] then dset config ''client_id'' (JStr (''diskless-consumer,diskless_az='' @ rack)) else config)
         in kafka_consumer topic_name config))"

section \<open>Rows\<close>

definition normalized :: "octet \<Rightarrow> rat" where
  "normalized b = of_int (uint b) / 255 * 2 - 1"

definition create_vector_from_message :: "runtime \<Rightarrow> json \<Rightarrow> int \<Rightarrow> rat list" where
  "create_vector_from_message rt message vector_dim =
     (let hash_bytes = sha256 rt (dumps rt True message)
      in map (\<lambda>i. normalized (hash_bytes ! (i mod length hash_bytes))) [0..<nat vector_dim])"

text \<open>The fields \<open>category\<close> and \<open>value\<close> of a message that has \<open>data\<close>.\<close>

definition extra_fields :: "json \<Rightarrow> (json \<times> json) option res" where
  "extra_fields msg_data =
     rbind (py_in ''data'' msg_data) (\<lambda>b.
       if b then
         rbind (py_item msg_data ''data'') (\<lambda>data. rbind (py_get data ''category'' (JStr '''')) (\<lambda>category.
         rbind (py_item msg_data ''data'') (\<lambda>data. rbind (py_get data ''value'' (JInt 0)) (\<lambda>value.
           Inr (Some (category, value))))))
       else Inr None)"

definition prepare_row :: "runtime \<Rightarrow> nat \<Rightarrow> int \<Rightarrow> kafka_message \<Rightarrow> lance_row res" where
  "prepare_row rt clock vector_dim msg =
     (let msg_data = m_value msg; vector = create_vector_from_message rt msg_data vector_dim in
      rbind (py_get msg_data ''id'' (JInt (hash_of rt (dumps rt False msg_data)))) (\<lambda>id.
      rbind (py_get msg_data ''timestamp'' (JStr (now_iso rt clock))) (\<lambda>timestamp.
      rbind (py_get msg_data ''message'' (JStr '''')) (\<lambda>message.
      rbind (extra_fields msg_data) (\<lambda>extra.
        Inr \<lparr>row_id = id, row_vector = vector, row_timestamp = timestamp, row_message = message,
             row_offset = m_offset msg, row_partition = m_partition msg, row_key = m_key msg,
             row_raw = dumps rt False msg_data, row_extra = extra\<rparr>)))))"

definition prepare_lancedb_data :: "runtime \<Rightarrow> nat \<Rightarrow> int \<Rightarrow> kafka_message list \<Rightarrow> lance_row list res" where
  "prepare_lancedb_data rt clock vector_dim messages = rmap (prepare_row rt clock vector_dim) messages"

section \<open>The table\<close>

definition table_schema :: "int \<Rightarrow> (string \<times> string) list" where
  "table_schema vector_dim =
     [(''id'', ''int64''), (''vector'', ''vector '' @ show_int vector_dim), (''timestamp'', ''string''), (''message'', ''string''),
      (''kafka_offset'', ''int64''), (''kafka_partition'', ''int32''), (''kafka_key'', ''string''), (''raw_data'', ''string''),
      (''category'', ''string''), (''value'', ''int64'')]"

record lance_db =
  connect_db :: "string \<Rightarrow> unit res"
  open_table :: "string \<Rightarrow> unit res"
  create_db_table :: "string \<Rightarrow> (string \<times> string) list \<Rightarrow> unit res"
  table_add :: "nat \<Rightarrow> lance_row list \<Rightarrow> unit res"

definition setup_lancedb_table :: "lance_db \<Rightarrow> string \<Rightarrow> string \<Rightarrow> int \<Rightarrow> unit res" where
  "setup_lancedb_table db db_path table_name vector_dim =
     rbind (connect_db db db_path) (\<lambda>_.
       case open_table db table_name of
         Inr u \<Rightarrow> Inr u
       | Inl e \<Rightarrow> if is_Exception e then create_db_table db table_name (table_schema vector_dim) else Inl e)"

section \<open>Consuming and storing\<close>

text \<open>The frames added to the table, each with the messages it was made of, and the calls of the table so far.\<close>

record storing =
  added :: "(kafka_message list \<times> lance_row list) list"
  message_batch :: "kafka_message list"
  total_messages :: nat
  add_calls :: nat

definition write_batch :: "runtime \<Rightarrow> lance_db \<Rightarrow> int \<Rightarrow> storing \<Rightarrow> unit res \<times> storing" where
  "write_batch rt db vector_dim s =
     (let t = s\<lparr>add_calls := add_calls s + 1\<rparr> in
      case prepare_lancedb_data rt (add_calls s) vector_dim (message_batch s) of
        Inl e \<Rightarrow> (Inl e, t)
      | Inr df \<Rightarrow>
          (case table_add db (add_calls s) df of
             Inl e \<Rightarrow> (Inl e, t)
           | Inr _ \<Rightarrow> (Inr (), t\<lparr>added := added s @ [(message_batch s, df)]\<rparr>)))"

text \<open>The body of the loop: an exception of the write is logged and the batch kept.\<close>

definition receive :: "runtime \<Rightarrow> lance_db \<Rightarrow> int \<Rightarrow> int \<Rightarrow> storing \<Rightarrow> kafka_message \<Rightarrow> exn option \<times> storing" where
  "receive rt db batch_size vector_dim s msg =
     (let s = s\<lparr>message_batch := message_batch s @ [msg], total_messages := total_messages s + 1\<rparr> in
      if int (length (message_batch s)) \<ge> batch_size then
        (case write_batch rt db vector_dim s of
           (Inr _, t) \<Rightarrow> (None, t\<lparr>message_batch := []\<rparr>)
         | (Inl e, t) \<Rightarrow> (if is_Exception e then None else Some e, t))
      else (None, s))"

text \<open>The \<open>finally\<close> block writes what is left and closes the consumer; the batch keeps what was not written.\<close>

definition write_rest :: "runtime \<Rightarrow> lance_db \<Rightarrow> int \<Rightarrow> storing \<Rightarrow> exn option \<times> storing" where
  "write_rest rt db vector_dim s =
     (if message_batch s \<noteq> [] then
        (case write_batch rt db vector_dim s of
           (Inr _, t) \<Rightarrow> (None, t\<lparr>message_batch := []\<rparr>)
         | (Inl e, t) \<Rightarrow> (if is_Exception e then None else Some e, t))
      else (None, s))"

definition storing0 :: storing where
  "storing0 = \<lparr>added = [], message_batch = [], total_messages = 0, add_calls = 0\<rparr>"

definition consume_and_store ::
  "runtime \<Rightarrow> lance_db \<Rightarrow> string \<Rightarrow> string \<Rightarrow> int \<Rightarrow> int \<Rightarrow> (exn + kafka_message) list \<Rightarrow> exn option \<times> storing" where
  "consume_and_store rt db db_path table_name batch_size vector_dim consumer =
     (case setup_lancedb_table db db_path table_name vector_dim of
        Inl e \<Rightarrow> (Some e, storing0)
      | Inr _ \<Rightarrow>
          (case iterate (receive rt db batch_size vector_dim) consumer storing0 of
             (raised, s) \<Rightarrow>
               (case write_rest rt db vector_dim s of
                  (Some e, t) \<Rightarrow> (Some e, t)
                | (None, t) \<Rightarrow> (if raised = Some KeyboardInterrupt then None else raised, t))))"

definition lance_main ::
  "runtime \<Rightarrow> lance_db \<Rightarrow> (string, string) dict \<Rightarrow> (string \<Rightarrow> (string, json) dict \<Rightarrow> (exn + kafka_message) list res) \<Rightarrow>
   exn option \<times> storing" where
  "lance_main rt db environ kafka_consumer =
     (let topic_name = dget_or environ ''KAFKA_TOPIC_NAME'' ''diskless-topic'';
          group_id = dget_or environ ''KAFKA_GROUP_ID'' ''lancedb-consumer-group'';
          db_path = dget_or environ ''LANCEDB_PATH'' ''./lancedb_data'';
          table_name = dget_or environ ''LANCEDB_TABLE_NAME'' ''kafka_messages''
      in case rbind (py_int (dget_or environ ''BATCH_SIZE'' ''100'')) (\<lambda>b.
              rbind (py_int (dget_or environ ''VECTOR_DIM'' ''128'')) (\<lambda>d.
              rbind (create_consumer environ kafka_consumer topic_name (Some group_id)) (\<lambda>c. Inr (b, d, c)))) of
           Inl e \<Rightarrow> (Some e, storing0)
         | Inr (batch_size, vector_dim, consumer) \<Rightarrow>
             consume_and_store rt db db_path table_name batch_size vector_dim consumer)"

section \<open>Facts\<close>

definition stored_messages :: "storing \<Rightarrow> kafka_message list" where
  "stored_messages s = concat (map fst (added s))"

lemma write_batch_run:
  assumes "write_batch rt db vector_dim s = (r, t)"
  shows "message_batch t = message_batch s \<and> total_messages t = total_messages s \<and>
    (case r of
       Inl e \<Rightarrow> added t = added s
     | Inr _ \<Rightarrow> \<exists>n df. prepare_lancedb_data rt n vector_dim (message_batch s) = Inr df \<and>
         added t = added s @ [(message_batch s, df)])"
  using assms by (auto simp: write_batch_def Let_def split: sum.splits)

lemma receive_conserves:
  assumes "receive rt db batch_size vector_dim s msg = (e, t)"
  shows "stored_messages t @ message_batch t = stored_messages s @ message_batch s @ [msg]"
proof -
  let ?s = "s\<lparr>message_batch := message_batch s @ [msg], total_messages := total_messages s + 1\<rparr>"
  obtain r u where w: "write_batch rt db vector_dim ?s = (r, u)" by force
  from assms w write_batch_run [OF w] show ?thesis
    by (auto simp: receive_def Let_def stored_messages_def split: if_splits sum.splits)
qed

interpretation lance: buffered "receive rt db batch_size vector_dim" stored_messages message_batch
  for rt db batch_size vector_dim
  by unfold_locales (rule receive_conserves)

text \<open>Every frame was made of its messages, and the total counts those stored and those left.\<close>

definition frames_ok :: "runtime \<Rightarrow> int \<Rightarrow> storing \<Rightarrow> bool" where
  "frames_ok rt vector_dim s \<longleftrightarrow>
     (\<forall>(ms, df) \<in> set (added s). \<exists>n. prepare_lancedb_data rt n vector_dim ms = Inr df) \<and>
     total_messages s = length (stored_messages s @ message_batch s)"

lemma receive_frames:
  assumes "frames_ok rt vector_dim s" "receive rt db batch_size vector_dim s msg = (e, t)"
  shows "frames_ok rt vector_dim t"
proof -
  let ?s = "s\<lparr>message_batch := message_batch s @ [msg], total_messages := total_messages s + 1\<rparr>"
  obtain r u where w: "write_batch rt db vector_dim ?s = (r, u)" by force
  from assms w write_batch_run [OF w] show ?thesis
    by (auto simp: receive_def Let_def frames_ok_def stored_messages_def split: if_splits sum.splits)
qed

lemma write_rest_run:
  assumes "write_rest rt db vector_dim s = (e, t)" "frames_ok rt vector_dim s"
  shows "stored_messages t @ message_batch t = stored_messages s @ message_batch s \<and> frames_ok rt vector_dim t"
proof -
  obtain r u where w: "write_batch rt db vector_dim s = (r, u)" by force
  from assms w write_batch_run [OF w] show ?thesis
    by (auto simp: write_rest_def stored_messages_def frames_ok_def split: if_splits sum.splits)
qed

lemma prefix_without:
  assumes "xs @ ys = pre @ x # post" "x \<notin> set xs"
  shows "\<exists>zs. pre = xs @ zs"
  using assms by (auto simp: append_eq_append_conv2) (metis append_Cons in_set_conv_decomp_first list.exhaust list.set_intros(1) append_Nil append_Nil2 list.inject)

text \<open>A run is the loop and the rest that is written at the end.\<close>

lemma consume_and_store_run:
  assumes "consume_and_store rt db db_path table_name batch_size vector_dim consumer = (e, t)"
    and "setup_lancedb_table db db_path table_name vector_dim = Inr ()"
  shows "\<exists>ms rest. values_of consumer = ms @ rest \<and> stored_messages t @ message_batch t = ms \<and>
    frames_ok rt vector_dim t"
proof -
  obtain raised s where it: "iterate (receive rt db batch_size vector_dim) consumer storing0 = (raised, s)" by force
  obtain e' t' where wr: "write_rest rt db vector_dim s = (e', t')" by force
  have "frames_ok rt vector_dim storing0" by (simp add: frames_ok_def storing0_def stored_messages_def)
  with it have fr: "frames_ok rt vector_dim s"
    using iterate_keeps [of "frames_ok rt vector_dim" "receive rt db batch_size vector_dim"] receive_frames by blast
  from assms it wr have t: "t = t'"
    by (auto simp: consume_and_store_def split: option.splits if_splits)
  from lance.iterate_conserves [OF it] obtain ms rest where
    ms: "values_of consumer = ms @ rest"
      "stored_messages s @ message_batch s = stored_messages storing0 @ message_batch storing0 @ ms" by blast
  then have "stored_messages s @ message_batch s = ms" by (simp add: storing0_def stored_messages_def)
  with ms(1) write_rest_run [OF wr fr] t show ?thesis by metis
qed

section \<open>Properties\<close>

text \<open>C12. What was received is stored once and in order: the messages of the frames that the table took, followed by
  the batch that is left, are the messages received; every frame has the rows of its messages, and the
  total that is logged counts the messages received.\<close>

theorem stored_in_order:
  assumes "consume_and_store rt db db_path table_name batch_size vector_dim consumer = (e, t)"
    and "setup_lancedb_table db db_path table_name vector_dim = Inr ()"
  shows "\<exists>ms rest. values_of consumer = ms @ rest \<and>
    concat (map fst (added t)) @ message_batch t = ms \<and> total_messages t = length ms \<and>
    (\<forall>(msgs, df) \<in> set (added t). length df = length msgs \<and> (\<exists>n. prepare_lancedb_data rt n vector_dim msgs = Inr df))"
proof -
  from consume_and_store_run [OF assms] obtain ms rest where
    r: "values_of consumer = ms @ rest" "stored_messages t @ message_batch t = ms" "frames_ok rt vector_dim t"
    by blast
  from r(3) have "\<forall>(msgs, df) \<in> set (added t). length df = length msgs \<and> (\<exists>n. prepare_lancedb_data rt n vector_dim msgs = Inr df)"
    by (auto simp: frames_ok_def prepare_lancedb_data_def dest: rmap_length)
  with r show ?thesis by (auto simp: frames_ok_def stored_messages_def)
qed

text \<open>C35. A message of which no row can be made blocks the table for ever: nothing that came after it is
  stored, only messages that came before it.\<close>

theorem poison_blocks_table:
  assumes "consume_and_store rt db db_path table_name batch_size vector_dim consumer = (e, t)"
    and "setup_lancedb_table db db_path table_name vector_dim = Inr ()"
    and "values_of consumer = before @ poison # after" "\<And>n. \<exists>x. prepare_row rt n vector_dim poison = Inl x"
  shows "\<exists>rest. before = concat (map fst (added t)) @ rest"
proof -
  from stored_in_order [OF assms(1,2)] obtain ms rest where
    r: "values_of consumer = ms @ rest" "concat (map fst (added t)) @ message_batch t = ms"
      "\<forall>(msgs, df) \<in> set (added t). length df = length msgs \<and> (\<exists>n. prepare_lancedb_data rt n vector_dim msgs = Inr df)"
    by blast
  have "poison \<notin> set (concat (map fst (added t)))"
  proof
    assume "poison \<in> set (concat (map fst (added t)))"
    then obtain msgs df where f: "(msgs, df) \<in> set (added t)" "poison \<in> set msgs" by auto
    with r(3) obtain n where "rmap (prepare_row rt n vector_dim) msgs = Inr df"
      by (auto simp: prepare_lancedb_data_def)
    from rmap_Inr_member [OF this f(2)] obtain y where "prepare_row rt n vector_dim poison = Inr y" by blast
    with assms(4) [of n] show False by auto
  qed
  moreover have "concat (map fst (added t)) @ message_batch t @ rest = before @ poison # after"
    using r(1) assms(3) unfolding r(2) [symmetric] by (simp only: append_assoc)
  ultimately show ?thesis by (intro prefix_without)
qed

text \<open>A vector has the dimension asked for, its components lie between -1 and 1, and it repeats with the
  length of the digest.\<close>

theorem vector_bounds:
  assumes "length (sha256 rt (dumps rt True message)) = 32"
  shows "length (create_vector_from_message rt message d) = nat d \<and>
    (\<forall>x \<in> set (create_vector_from_message rt message d). - 1 \<le> x \<and> x \<le> 1) \<and>
    (\<forall>i. i + 32 < nat d \<longrightarrow>
       create_vector_from_message rt message d ! (i + 32) = create_vector_from_message rt message d ! i)"
proof -
  have "- 1 \<le> normalized b \<and> normalized b \<le> 1" for b
  proof -
    obtain k where k: "k = uint b" "0 \<le> k" "k \<le> 255" using uint_lt2p [of b] by auto
    from k(2,3) have "(0 :: rat) \<le> of_int k" "of_int k \<le> (255 :: rat)" by auto
    then show ?thesis unfolding normalized_def k(1) [symmetric] by (simp add: field_simps)
  qed
  with assms show ?thesis by (auto simp: create_vector_from_message_def Let_def)
qed

section \<open>Runs\<close>

definition demo_runtime :: runtime where
  "demo_runtime = \<lparr>dumps = (\<lambda>_ v. case v of JObj _ \<Rightarrow> ''{}'' | _ \<Rightarrow> ''[]''), sha256 = (\<lambda>_. replicate 31 0 @ [255]),
     hash_of = (\<lambda>_. 17), now_iso = (\<lambda>_. ''2024-01-01'')\<rparr>"

text \<open>A table that refuses the first frame.\<close>

definition demo_table :: lance_db where
  "demo_table = \<lparr>connect_db = (\<lambda>_. Inr ()), open_table = (\<lambda>_. Inl (ValueError ''not found'')), create_db_table = (\<lambda>_ _. Inr ()),
     table_add = (\<lambda>n _. if n = 0 then Inl (OSError ''disk'') else Inr ())\<rparr>"

definition demo_message :: "int \<Rightarrow> json \<Rightarrow> kafka_message" where
  "demo_message n v = \<lparr>m_value = v, m_key = None, m_offset = n, m_partition = 0\<rparr>"

definition demo_stream :: "(exn + kafka_message) list" where
  "demo_stream = [Inr (demo_message 0 (JObj [(''id'', JInt 1)])), Inr (demo_message 1 (JObj [(''id'', JInt 2)])),
     Inr (demo_message 2 (JObj [(''id'', JInt 3)])), Inr (demo_message 3 (JList [])), Inr (demo_message 4 (JObj [])), Inl KeyboardInterrupt]"

definition demo_stored :: storing where
  "demo_stored = snd (consume_and_store demo_runtime demo_table ''db'' ''t'' 2 4 demo_stream)"

text \<open>The refused frame is written with the third message; the fourth cannot be written, nor what follows it.\<close>

lemma demo_stored_run:
  "consume_and_store demo_runtime demo_table ''db'' ''t'' 2 4 demo_stream = (None, demo_stored) \<and>
     map (map m_offset \<circ> fst) (added demo_stored) = [[0, 1, 2]] \<and> map m_offset (message_batch demo_stored) = [3, 4]"
  by code_simp

lemma demo_setup: "setup_lancedb_table demo_table ''db'' ''t'' 4 = Inr ()"
  by (simp add: setup_lancedb_table_def demo_table_def is_Exception_def)

theorem stored_in_order_witness:
  "\<exists>ms rest. values_of demo_stream = ms @ rest \<and> concat (map fst (added demo_stored)) @ message_batch demo_stored = ms"
  using stored_in_order [OF conjunct1 [OF demo_stored_run] demo_setup] by blast

theorem poison_blocks_table_witness:
  "\<exists>rest. [demo_message 0 (JObj [(''id'', JInt 1)]), demo_message 1 (JObj [(''id'', JInt 2)]), demo_message 2 (JObj [(''id'', JInt 3)])] =
     concat (map fst (added demo_stored)) @ rest"
proof -
  have "values_of demo_stream =
      [demo_message 0 (JObj [(''id'', JInt 1)]), demo_message 1 (JObj [(''id'', JInt 2)]), demo_message 2 (JObj [(''id'', JInt 3)])] @
      demo_message 3 (JList []) # [demo_message 4 (JObj [])]"
    by (simp add: demo_stream_def)
  moreover have "\<exists>x. prepare_row demo_runtime n 4 (demo_message 3 (JList [])) = Inl x" for n
    by (simp add: prepare_row_def demo_message_def py_get_def Let_def)
  ultimately show ?thesis
    using poison_blocks_table [OF conjunct1 [OF demo_stored_run] demo_setup] by blast
qed

theorem vector_bounds_witness:
  "length (create_vector_from_message demo_runtime JNull 40) = 40 \<and>
     create_vector_from_message demo_runtime JNull 40 ! 33 = create_vector_from_message demo_runtime JNull 40 ! 1"
proof -
  have "length (sha256 demo_runtime (dumps demo_runtime True JNull)) = 32" by (simp add: demo_runtime_def)
  from vector_bounds [OF this, of 40] have
    "length (create_vector_from_message demo_runtime JNull 40) = nat 40"
    "\<forall>i. i + 32 < nat 40 \<longrightarrow> create_vector_from_message demo_runtime JNull 40 ! (i + 32) = create_vector_from_message demo_runtime JNull 40 ! i"
    by blast+
  from this(1) spec [OF this(2), of 1] show ?thesis by simp
qed

end
