(* ===== verification/LanceProducer.thy ===== *)
theory LanceProducer
  imports LanceConsumer "HOL-Library.Sublist"
begin

text \<open>
  \<open>kafka_producer.py\<close> (\<open>diskless-lancedb\<close>): the configuration of the producer, the sample messages
  and the loop that sends them and waits for each, and the composition with the consumer of
  \<open>LanceConsumer\<close>. The Kafka client, the clock and \<open>time.sleep\<close> are the record \<open>producer_api\<close>, whose
  operations run on a world of their own; what is logged is kept as a list of reports.
\<close>

record metadata =
  md_topic :: string
  md_partition :: int
  md_offset :: int

record ('w, 'f) producer_api =
  p_now :: "'w \<Rightarrow> string"
  p_send :: "string \<Rightarrow> json \<Rightarrow> string \<Rightarrow> ('w, 'f) run"
  p_get :: "'f \<Rightarrow> int \<Rightarrow> ('w, metadata) run"
  p_sleep :: "rat \<Rightarrow> ('w, unit) run"
  p_flush :: "('w, unit) run"
  p_close :: "('w, unit) run"

datatype send_report = Producing int string | Delivered int metadata | Undelivered int string | AllSent

record 'w producing =
  broker_world :: 'w
  reports :: "send_report list"

section \<open>The producer's configuration\<close>

definition producer_config :: "(string, string) dict \<Rightarrow> string \<Rightarrow> (string, json) dict" where
  "producer_config environ servers =
     (let folder = dget_or environ ''KAFKA_CERT_FOLDER'' ''./certs''; rack = dget_or environ ''KAFKA_RACK'' [];
          config =
            [(''bootstrap_servers'', JStr servers), (''security_protocol'', JStr ''SSL''),
             (''ssl_cafile'', JStr (path_join folder ''ca.pem'')), (''ssl_certfile'', JStr (path_join folder ''service.cert'')),
             (''ssl_keyfile'', JStr (path_join folder ''service.key'')), (''linger_ms'', JInt 100), (''batch_size'', JInt 16384),
             (''max_request_size'', JInt 1048576), (''acks'', JStr ''all''), (''enable_idempotence'', JBool True),
             (''max_in_flight_requests_per_connection'', JInt 2), (''compression_type'', JStr ''snappy'')]
      in if rack \<noteq> [] then dset config ''client_id'' (JStr (''diskless-producer,diskless_az='' @ rack)) else config)"

definition create_producer ::
  "(string, string) dict \<Rightarrow> ((string, json) dict \<Rightarrow> ('w, 'p) run) \<Rightarrow> ('w, 'p) run" where
  "create_producer environ kafka_producer =
     (let servers = dget_or environ ''KAFKA_BOOTSTRAP_SERVERS'' []
      in if servers = [] then aret (Inl (ValueError ''KAFKA_BOOTSTRAP_SERVERS environment variable is required''))
         else kafka_producer (producer_config environ servers))"

section \<open>The messages\<close>

definition sample_message :: "string \<Rightarrow> int \<Rightarrow> json" where
  "sample_message now i =
     JObj [(''id'', JInt (i + 1)), (''timestamp'', JStr now), (''message'', JStr (''Sample message '' @ show_int (i + 1))),
       (''data'', JObj [(''value'', JInt (i * 10)), (''category'', JStr (''category_'' @ show_int (i mod 3))),
          (''metadata'', JObj [(''source'', JStr ''kafka-producer''), (''version'', JStr ''1.0'')])])]"

definition sample_key :: "int \<Rightarrow> string" where
  "sample_key i = ''key_'' @ show_int i"

section \<open>Sending them\<close>

text \<open>An operation of the client inside the producer's run, and a line of its log.\<close>

definition call_api :: "('w, 'a) run \<Rightarrow> ('w producing, 'a) run" where
  "call_api m = (\<lambda>s. case m (broker_world s) of (r, w) \<Rightarrow> (r, s\<lparr>broker_world := w\<rparr>))"

definition note_report :: "send_report \<Rightarrow> ('w producing, unit) run" where
  "note_report r = (\<lambda>s. (Inr (), s\<lparr>reports := reports s @ [r]\<rparr>))"

text \<open>\<open>time.sleep\<close> refuses a negative delay.\<close>

definition sleep_for :: "('w, 'f, 'z) producer_api_scheme \<Rightarrow> rat \<Rightarrow> ('w producing, unit) run" where
  "sleep_for api delay =
     (if delay < 0 then aret (Inl (ValueError ''sleep length must be non-negative'')) else call_api (p_sleep api delay))"

text \<open>\<open>except KafkaError as e\<close>: what the handler takes.\<close>

definition kafka_error :: "exn \<Rightarrow> string option" where
  "kafka_error e = (case e of KafkaError m \<Rightarrow> Some m | _ \<Rightarrow> None)"

text \<open>The body of the loop: the \<open>try\<close> block, and the handler of \<open>KafkaError\<close>, which logs and goes on.\<close>

definition send_message :: "('w, 'f, 'z) producer_api_scheme \<Rightarrow> string \<Rightarrow> rat \<Rightarrow> int \<Rightarrow> ('w producing, unit) run" where
  "send_message api topic_name delay i = (\<lambda>s.
     let message = sample_message (p_now api (broker_world s)) i in
     case abind (call_api (p_send api topic_name message (sample_key i))) (\<lambda>future.
          abind (call_api (p_get api future 10)) (\<lambda>record_metadata.
          abind (note_report (Delivered (i + 1) record_metadata)) (\<lambda>_.
          sleep_for api delay))) s of
       (Inr u, t) \<Rightarrow> (Inr u, t)
     | (Inl e, t) \<Rightarrow>
         (case kafka_error e of
            Some m \<Rightarrow> note_report (Undelivered (i + 1) m) t
          | None \<Rightarrow> (Inl e, t)))"

fun send_all :: "('w, 'f, 'z) producer_api_scheme \<Rightarrow> string \<Rightarrow> rat \<Rightarrow> int list \<Rightarrow> ('w producing, unit) run" where
  "send_all api topic_name delay [] = aret (Inr ())"
| "send_all api topic_name delay (i # is) = abind (send_message api topic_name delay i) (\<lambda>_. send_all api topic_name delay is)"

definition produce_sample_messages ::
  "('w, 'f, 'z) producer_api_scheme \<Rightarrow> string \<Rightarrow> int \<Rightarrow> rat \<Rightarrow> ('w producing, unit) run" where
  "produce_sample_messages api topic_name num_messages delay =
     abind (note_report (Producing num_messages topic_name)) (\<lambda>_.
     abind (send_all api topic_name delay [0..num_messages - 1]) (\<lambda>_.
     abind (call_api (p_flush api)) (\<lambda>_.
     note_report AllSent)))"

text \<open>
  \<open>main\<close>: the producer is closed when it was made, whatever happened to the messages; an exception of
  \<open>close\<close> takes the place of the one that was on its way. \<open>float_of\<close> is Python's \<open>float\<close> of a string.
\<close>

definition producer_main ::
  "(string \<Rightarrow> rat res) \<Rightarrow> (string, string) dict \<Rightarrow> ((string, json) dict \<Rightarrow> ('w, ('w, 'f) producer_api) run) \<Rightarrow> ('w producing, unit) run" where
  "producer_main float_of environ kafka_producer =
     (let topic_name = dget_or environ ''KAFKA_TOPIC_NAME'' ''diskless-topic'' in
      abind (aret (py_int (dget_or environ ''NUM_MESSAGES'' ''10''))) (\<lambda>num_messages.
      abind (aret (float_of (dget_or environ ''MESSAGE_DELAY'' ''1.0''))) (\<lambda>delay.
      abind (call_api (create_producer environ kafka_producer)) (\<lambda>producer. \<lambda>s.
        case produce_sample_messages producer topic_name num_messages delay s of
          (r, t) \<Rightarrow>
            (case call_api (p_close producer) t of
               (Inl e, u) \<Rightarrow> (Inl e, u)
             | (Inr _, u) \<Rightarrow> (r, u))))))"

section \<open>Facts\<close>

text \<open>
  What the client's operations do to the messages handed over: a \<open>send\<close> that returns adds its
  message, nothing else adds or removes one, and \<open>sleep\<close> is no source of Kafka errors.
\<close>

definition hands_over :: "('w, 'f, 'z) producer_api_scheme \<Rightarrow> ('w \<Rightarrow> (string \<times> json \<times> string) list) \<Rightarrow> bool" where
  "hands_over api sent \<longleftrightarrow>
     (\<forall>topic v k w. case p_send api topic v k w of
        (Inl e, w') \<Rightarrow> sent w' = sent w
      | (Inr f, w') \<Rightarrow> sent w' = sent w @ [(topic, v, k)]) \<and>
     (\<forall>f n w. sent (snd (p_get api f n w)) = sent w) \<and>
     (\<forall>d w. sent (snd (p_sleep api d w)) = sent w \<and> (\<forall>e. fst (p_sleep api d w) \<noteq> Inl (KafkaError e))) \<and>
     (\<forall>w. sent (snd (p_flush api w)) = sent w)"

lemma hands_overD:
  assumes "hands_over api sent"
  shows "p_send api topic v k w = (Inl e, w') \<Longrightarrow> sent w' = sent w"
    and "p_send api topic v k w = (Inr f, w') \<Longrightarrow> sent w' = sent w @ [(topic, v, k)]"
    and "p_get api f n w = (r, w') \<Longrightarrow> sent w' = sent w"
    and "p_sleep api d w = (u, w') \<Longrightarrow> sent w' = sent w \<and> u \<noteq> Inl (KafkaError x)"
    and "p_flush api w = (u, w') \<Longrightarrow> sent w' = sent w"
proof -
  have "case p_send api topic v k w of
      (Inl e, w') \<Rightarrow> sent w' = sent w
    | (Inr f, w') \<Rightarrow> sent w' = sent w @ [(topic, v, k)]"
    using assms by (simp add: hands_over_def)
  then show "p_send api topic v k w = (Inl e, w') \<Longrightarrow> sent w' = sent w"
    and "p_send api topic v k w = (Inr f, w') \<Longrightarrow> sent w' = sent w @ [(topic, v, k)]"
    by simp_all
  have "sent (snd (p_get api f n w)) = sent w" using assms unfolding hands_over_def by blast
  then show "p_get api f n w = (r, w') \<Longrightarrow> sent w' = sent w" by simp
  have "sent (snd (p_sleep api d w)) = sent w \<and> fst (p_sleep api d w) \<noteq> Inl (KafkaError x)"
    using assms unfolding hands_over_def by blast
  then show "p_sleep api d w = (u, w') \<Longrightarrow> sent w' = sent w \<and> u \<noteq> Inl (KafkaError x)" by auto
  have "sent (snd (p_flush api w)) = sent w" using assms unfolding hands_over_def by blast
  then show "p_flush api w = (u, w') \<Longrightarrow> sent w' = sent w" by simp
qed

lemma kafka_error_Some: "kafka_error e = Some m \<longleftrightarrow> e = KafkaError m"
  by (simp add: kafka_error_def split: exn.splits)

lemma call_api_run: "call_api m s = (r, t) \<longleftrightarrow> (\<exists>w. m (broker_world s) = (r, w) \<and> t = s\<lparr>broker_world := w\<rparr>)"
  by (auto simp: call_api_def split: prod.splits)

lemma note_report_run: "note_report x s = (r, t) \<longleftrightarrow> r = Inr () \<and> t = s\<lparr>reports := reports s @ [x]\<rparr>"
  by (auto simp: note_report_def)

lemma sleep_for_run:
  assumes "hands_over api sent" "sleep_for api delay s = (r, t)"
  shows "sent (broker_world t) = sent (broker_world s) \<and> reports t = reports s \<and> r \<noteq> Inl (KafkaError x)"
proof (cases "delay < 0")
  case False
  with assms(2) obtain w where "p_sleep api delay (broker_world s) = (r, w)" "t = s\<lparr>broker_world := w\<rparr>"
    by (auto simp: sleep_for_def call_api_run)
  with hands_overD(4) [OF assms(1)] show ?thesis by simp
qed (use assms(2) in \<open>auto simp: sleep_for_def\<close>)

text \<open>One message, when \<open>send\<close> raises, when the wait raises, and when both return.\<close>

lemma send_message_cases:
  assumes "send_message api topic_name delay i s = (r, t)"
  obtains (refused) e w where
      "p_send api topic_name (sample_message (p_now api (broker_world s)) i) (sample_key i) (broker_world s) = (Inl e, w)"
      "if \<exists>x. kafka_error e = Some x then r = Inr () \<and> (\<exists>x. t = s\<lparr>broker_world := w, reports := reports s @ [Undelivered (i + 1) x]\<rparr>)
       else r = Inl e \<and> t = s\<lparr>broker_world := w\<rparr>"
  | (lost) f w e w' where
      "p_send api topic_name (sample_message (p_now api (broker_world s)) i) (sample_key i) (broker_world s) = (Inr f, w)"
      "p_get api f 10 w = (Inl e, w')"
      "if \<exists>x. kafka_error e = Some x then r = Inr () \<and> (\<exists>x. t = s\<lparr>broker_world := w', reports := reports s @ [Undelivered (i + 1) x]\<rparr>)
       else r = Inl e \<and> t = s\<lparr>broker_world := w'\<rparr>"
  | (acknowledged) f w m w' r' u where
      "p_send api topic_name (sample_message (p_now api (broker_world s)) i) (sample_key i) (broker_world s) = (Inr f, w)"
      "p_get api f 10 w = (Inr m, w')"
      "sleep_for api delay (s\<lparr>broker_world := w', reports := reports s @ [Delivered (i + 1) m]\<rparr>) = (r', u)"
      "(\<And>x. r' \<noteq> Inl (KafkaError x)) \<Longrightarrow> r = r' \<and> t = u"
proof -
  let ?m = "sample_message (p_now api (broker_world s)) i"
  obtain r1 w1 where s1: "p_send api topic_name ?m (sample_key i) (broker_world s) = (r1, w1)" by force
  show thesis
  proof (cases r1)
    case (Inl e)
    with assms s1 show thesis
      by (intro refused [of e w1]) (auto simp: send_message_def Let_def abind_def call_api_def note_report_def split: option.splits)
  next
    case (Inr f)
    obtain r2 w2 where s2: "p_get api f 10 w1 = (r2, w2)" by force
    show thesis
    proof (cases r2)
      case (Inl e)
      with assms s1 s2 Inr show thesis
        by (intro lost [of f w1 e w2]) (auto simp: send_message_def Let_def abind_def call_api_def note_report_def split: option.splits)
    next
      case Inr2: (Inr m)
      obtain r3 u where s3: "sleep_for api delay (s\<lparr>broker_world := w2, reports := reports s @ [Delivered (i + 1) m]\<rparr>) = (r3, u)" by force
      show thesis
      proof (rule acknowledged [OF _ _ s3])
        show "p_send api topic_name ?m (sample_key i) (broker_world s) = (Inr f, w1)" using s1 Inr by simp
        show "p_get api f 10 w1 = (Inr m, w2)" using s2 Inr2 by simp
        assume n: "\<And>x. r3 \<noteq> Inl (KafkaError x)"
        have "send_message api topic_name delay i s =
            (case (r3, u) of
               (Inr v, t) \<Rightarrow> (Inr v, t)
             | (Inl e, t) \<Rightarrow>
                 (case kafka_error e of
                    Some m \<Rightarrow> note_report (Undelivered (i + 1) m) t
                  | None \<Rightarrow> (Inl e, t)))"
          using s1 s2 s3 Inr Inr2 by (simp add: send_message_def Let_def abind_def call_api_def note_report_def)
        with assms n show "r = r3 \<and> t = u"
          by (cases r3) (auto simp: kafka_error_Some split: option.splits)
      qed
    qed
  qed
qed

text \<open>What is reported about message \<open>i\<close>, and the messages that a report calls delivered.\<close>

definition reports_on :: "int \<Rightarrow> send_report \<Rightarrow> bool" where
  "reports_on i r \<longleftrightarrow> (\<exists>m. r = Delivered (i + 1) m) \<or> (\<exists>e. r = Undelivered (i + 1) e)"

definition delivered_of :: "send_report list \<Rightarrow> int list" where
  "delivered_of rs = List.map_filter (\<lambda>r. case r of Delivered k _ \<Rightarrow> Some (k - 1) | _ \<Rightarrow> None) rs"

definition sample_sent :: "string \<Rightarrow> int \<Rightarrow> string \<times> json \<times> string \<Rightarrow> bool" where
  "sample_sent topic_name i x \<longleftrightarrow> (\<exists>now. x = (topic_name, sample_message now i, sample_key i))"

lemma delivered_of_simps [simp]:
  "delivered_of [] = []"
  "delivered_of (Delivered k m # rs) = (k - 1) # delivered_of rs"
  "delivered_of (Undelivered k e # rs) = delivered_of rs"
  "delivered_of (Producing k t # rs) = delivered_of rs"
  "delivered_of (AllSent # rs) = delivered_of rs"
  "delivered_of (rs @ rs') = delivered_of rs @ delivered_of rs'"
  by (simp_all add: delivered_of_def map_filter_simps map_filter_def)

lemma send_message_run:
  assumes "hands_over api sent" "send_message api topic_name delay i s = (Inr (), t)"
  shows "\<exists>js new rep. (js = [i] \<or> js = []) \<and> list_all2 (sample_sent topic_name) js new \<and>
    sent (broker_world t) = sent (broker_world s) @ new \<and> reports t = reports s @ [rep] \<and> reports_on i rep \<and>
    subseq (delivered_of [rep]) js"
  using assms(2)
proof (cases rule: send_message_cases)
  case (refused e w)
  then obtain x where "t = s\<lparr>broker_world := w, reports := reports s @ [Undelivered (i + 1) x]\<rparr>" by (auto split: if_splits)
  moreover have "sent w = sent (broker_world s)" using hands_overD(1) [OF assms(1) refused(1)] .
  ultimately show ?thesis
    by - (rule exI [of _ "[]"], rule exI [of _ "[]"], rule exI [of _ "Undelivered (i + 1) x"], simp add: reports_on_def)
next
  case (lost f w e w')
  then obtain x where "t = s\<lparr>broker_world := w', reports := reports s @ [Undelivered (i + 1) x]\<rparr>" by (auto split: if_splits)
  moreover note hands_overD(2) [OF assms(1) lost(1)] hands_overD(3) [OF assms(1) lost(2)]
  ultimately show ?thesis
    by - (rule exI [of _ "[i]"], rule exI, rule exI [of _ "Undelivered (i + 1) x"], auto simp: reports_on_def sample_sent_def)
next
  case (acknowledged f w m w' r' u)
  note q = sleep_for_run [OF assms(1) acknowledged(3)]
  then have "t = u" using acknowledged(4) by blast
  with q hands_overD(2) [OF assms(1) acknowledged(1)] hands_overD(3) [OF assms(1) acknowledged(2)] show ?thesis
    by - (rule exI [of _ "[i]"], rule exI, rule exI [of _ "Delivered (i + 1) m"], auto simp: reports_on_def sample_sent_def)
qed

lemma delivered_of_Cons: "reports_on i r \<Longrightarrow> delivered_of (r # rs) = delivered_of [r] @ delivered_of rs"
  by (auto simp: reports_on_def)

lemma send_all_run:
  assumes "hands_over api sent" "send_all api topic_name delay is s = (Inr (), t)"
  shows "\<exists>js new rs. subseq js is \<and> list_all2 (sample_sent topic_name) js new \<and>
    sent (broker_world t) = sent (broker_world s) @ new \<and> reports t = reports s @ rs \<and> list_all2 reports_on is rs \<and>
    subseq (delivered_of rs) js"
  using assms(2)
proof (induction "is" arbitrary: s)
  case Nil
  then show ?case by - (rule exI [of _ "[]"], rule exI [of _ "[]"], rule exI [of _ "[]"], simp)
next
  case (Cons i "is")
  then obtain s1 where s1: "send_message api topic_name delay i s = (Inr (), s1)"
      "send_all api topic_name delay is s1 = (Inr (), t)"
    by (auto simp: abind_Inr)
  from send_message_run [OF assms(1) s1(1)] obtain js new rep where
    a: "js = [i] \<or> js = []" "list_all2 (sample_sent topic_name) js new" "sent (broker_world s1) = sent (broker_world s) @ new"
      "reports s1 = reports s @ [rep]" "reports_on i rep" "subseq (delivered_of [rep]) js" by blast
  from Cons.IH [OF s1(2)] obtain js' new' rs where
    b: "subseq js' is" "list_all2 (sample_sent topic_name) js' new'" "sent (broker_world t) = sent (broker_world s1) @ new'"
      "reports t = reports s1 @ rs" "list_all2 reports_on is rs" "subseq (delivered_of rs) js'" by blast
  have "subseq (js @ js') (i # is)" using a(1) b(1) by auto
  moreover have "list_all2 (sample_sent topic_name) (js @ js') (new @ new')" using a(2) b(2) by (rule list_all2_appendI)
  moreover have "subseq (delivered_of (rep # rs)) (js @ js')"
    using a(6) b(6) by (subst delivered_of_Cons [OF a(5)]) (rule list_emb_append_mono)
  ultimately show ?case
    using a b by - (rule exI [of _ "js @ js'"], rule exI [of _ "new @ new'"], rule exI [of _ "rep # rs"], simp)
qed

lemma produce_run:
  assumes "hands_over api sent" "produce_sample_messages api topic_name n delay s = (Inr (), t)"
  shows "\<exists>js new rs. subseq js [0..n - 1] \<and> list_all2 (sample_sent topic_name) js new \<and>
    sent (broker_world t) = sent (broker_world s) @ new \<and> reports t = reports s @ Producing n topic_name # rs @ [AllSent] \<and>
    list_all2 reports_on [0..n - 1] rs \<and> subseq (delivered_of rs) js"
proof -
  from assms(2) obtain s1 s2 where
    s1: "send_all api topic_name delay [0..n - 1] (s\<lparr>reports := reports s @ [Producing n topic_name]\<rparr>) = (Inr (), s1)"
    and s2: "call_api (p_flush api) s1 = (Inr (), s2)" and t: "t = s2\<lparr>reports := reports s2 @ [AllSent]\<rparr>"
    by (auto simp: produce_sample_messages_def abind_Inr note_report_run)
  from s2 hands_overD(5) [OF assms(1)] have "sent (broker_world s2) = sent (broker_world s1)" "reports s2 = reports s1"
    by (auto simp: call_api_run)
  moreover from send_all_run [OF assms(1) s1] obtain js new rs where
    "subseq js [0..n - 1]" "list_all2 (sample_sent topic_name) js new" "sent (broker_world s1) = sent (broker_world s) @ new"
    "reports s1 = reports s @ Producing n topic_name # rs" "list_all2 reports_on [0..n - 1] rs" "subseq (delivered_of rs) js"
    by auto
  ultimately show ?thesis using t
    by - (rule exI [of _ js], rule exI [of _ new], rule exI [of _ rs], simp)
qed

section \<open>What the consumer makes of the messages\<close>














section \<open>Properties\<close>

text \<open>C27. A run that ends reports once on every message, in order, and says at the end that all were sent; what it
  handed to the client is a subsequence of the messages, without repetition, that has every message
  reported as delivered.\<close>

theorem every_message_reported:
  assumes "hands_over api sent" "produce_sample_messages api topic_name n delay s = (Inr (), t)"
  shows "\<exists>js new rs. reports t = reports s @ Producing n topic_name # rs @ [AllSent] \<and>
    list_all2 reports_on [0..n - 1] rs \<and> sent (broker_world t) = sent (broker_world s) @ new \<and>
    list_all2 (sample_sent topic_name) js new \<and> subseq (delivered_of rs) js \<and> subseq js [0..n - 1]"
proof -
  from produce_run [OF assms] obtain js new rs where
    "subseq js [0..n - 1]" "list_all2 (sample_sent topic_name) js new" "sent (broker_world t) = sent (broker_world s) @ new"
    "reports t = reports s @ Producing n topic_name # rs @ [AllSent]" "list_all2 reports_on [0..n - 1] rs"
    "subseq (delivered_of rs) js" by blast
  then show ?thesis by - (rule exI [of _ js], rule exI [of _ new], rule exI [of _ rs], simp)
qed


section \<open>Runs\<close>

text \<open>A broker that refuses the message with the key \<open>key_1\<close>; its world is the list of what it was handed.\<close>

definition demo_api :: "((string \<times> json \<times> string) list, int) producer_api" where
  "demo_api = \<lparr>p_now = (\<lambda>w. ''2024-01-01''),
     p_send = (\<lambda>topic v k w. if k = ''key_1'' then (Inl (KafkaError ''timeout''), w) else (Inr (int (length w)), w @ [(topic, v, k)])),
     p_get = (\<lambda>f n w. (Inr \<lparr>md_topic = ''t'', md_partition = 0, md_offset = f\<rparr>, w)),
     p_sleep = (\<lambda>d w. (Inr (), w)), p_flush = (\<lambda>w. (Inr (), w)), p_close = (\<lambda>w. (Inr (), w))\<rparr>"

definition demo_start :: "(string \<times> json \<times> string) list producing" where
  "demo_start = \<lparr>broker_world = [], reports = []\<rparr>"

definition demo_sent :: "(string \<times> json \<times> string) list producing" where
  "demo_sent = snd (produce_sample_messages demo_api ''t'' 3 1 demo_start)"

lemma demo_hands_over: "hands_over demo_api (\<lambda>w. w)"
  by (simp add: hands_over_def demo_api_def)

lemma demo_sent_values:
  "fst (produce_sample_messages demo_api ''t'' 3 1 demo_start) = Inr () \<and>
     map (snd \<circ> snd) (broker_world demo_sent) = [''key_0'', ''key_2''] \<and> delivered_of (reports demo_sent) = [0, 2]"
  by (simp add: demo_sent_def produce_sample_messages_def demo_start_def demo_api_def abind_def call_api_def note_report_def
      send_message_def sleep_for_def kafka_error_def sample_key_def show_int_def show_nat.simps digit_def upto.simps)

lemma demo_sent_run: "produce_sample_messages demo_api ''t'' 3 1 demo_start = (Inr (), demo_sent)"
  using demo_sent_values by (simp add: demo_sent_def prod_eq_iff)

theorem every_message_reported_witness:
  "\<exists>js new rs. reports demo_sent = Producing 3 ''t'' # rs @ [AllSent] \<and> list_all2 reports_on [0..2] rs \<and>
     broker_world demo_sent = new \<and> list_all2 (sample_sent ''t'') js new"
  using every_message_reported [OF demo_hands_over demo_sent_run] by (auto simp: demo_start_def)




end
