(* ===== verification/LanceQuery.thy ===== *)
theory LanceQuery
  imports PyJson PyStr PyState
begin

text \<open>
  \<open>query_lancedb.py\<close> (\<open>diskless-lancedb\<close>): the queries on the table that the consumer of \<open>LanceConsumer\<close>
  fills, and the printed report. The table is a parameter: what \<open>to_pandas()\<close> gives, and what a query
  gives that was built with \<open>search\<close>, \<open>limit\<close> and \<open>where\<close>; so are the two operations of pandas on a frame that the
  code calls, \<open>head\<close> and \<open>value_counts\<close> of a column. A frame is the list of its columns and its
  rows, a row the values of the columns in order; \<open>JNull\<close> stands for a missing value.
\<close>

record frame =
  columns :: "string list"
  frame_rows :: "json list list"

record lance_query =
  q_vector :: "rat list"
  q_limit :: int
  q_where :: "string option"

record lance_table =
  to_pandas :: "frame res"
  run_query :: "lance_query \<Rightarrow> frame res"
  head :: "frame \<Rightarrow> int \<Rightarrow> frame"
  value_counts :: "frame \<Rightarrow> string \<Rightarrow> (json \<times> int) list"

section \<open>Queries\<close>

definition connect_to_lancedb :: "(string \<Rightarrow> 'd res) \<Rightarrow> ('d \<Rightarrow> string \<Rightarrow> lance_table res) \<Rightarrow> string \<Rightarrow> string \<Rightarrow> lance_table res" where
  "connect_to_lancedb connect open_tbl db_path table_name = rbind (connect db_path) (\<lambda>db. open_tbl db table_name)"

text \<open>No filter and the empty filter are both left out.\<close>

definition search_by_vector :: "lance_table \<Rightarrow> rat list \<Rightarrow> int \<Rightarrow> string option \<Rightarrow> frame res" where
  "search_by_vector table query_vector limit filters =
     (let query = \<lparr>q_vector = query_vector, q_limit = limit, q_where = None\<rparr>;
          query = (if filters \<noteq> None \<and> filters \<noteq> Some [] then query\<lparr>q_where := filters\<rparr> else query)
      in run_query table query)"

definition dummy_vector :: "rat list" where
  "dummy_vector = replicate 128 0"

definition get_all_messages :: "lance_table \<Rightarrow> int \<Rightarrow> frame res" where
  "get_all_messages table limit =
     (case to_pandas table of
        Inr df \<Rightarrow> Inr (head table df limit)
      | Inl e \<Rightarrow> if is_Exception e then search_by_vector table dummy_vector limit None else Inl e)"

definition category_filter :: "string \<Rightarrow> string" where
  "category_filter category = ''category = '' @ [CHR 0x27] @ category @ [CHR 0x27]"

definition filter_by_category :: "lance_table \<Rightarrow> string \<Rightarrow> int \<Rightarrow> frame res" where
  "filter_by_category table category limit =
     search_by_vector table dummy_vector limit (Some (category_filter category))"

section \<open>The report\<close>

datatype line =
    Title string
  | NoResults
  | Found int
  | Result int
  | Field string json
  | RawJson json
  | RawText json
  | Rule
  | Total int
  | Counts string "(json \<times> int) list"
  | NoStatistics string

text \<open>\<open>row.get(name, 'N/A')\<close>.\<close>

definition cell :: "string list \<Rightarrow> json list \<Rightarrow> string \<Rightarrow> json option" where
  "cell cols row name = map_of (zip cols row) name"

definition shown :: "string list \<Rightarrow> json list \<Rightarrow> string \<Rightarrow> json" where
  "shown cols row name = (case cell cols row name of None \<Rightarrow> JStr ''N/A'' | Some v \<Rightarrow> v)"

text \<open>
  The raw data is printed as JSON when it can be read, and as it is when anything at all goes wrong;
  \<open>loads\<close> is \<open>json.loads\<close>.
\<close>

definition raw_lines :: "(json \<Rightarrow> json res) \<Rightarrow> string list \<Rightarrow> json list \<Rightarrow> line list" where
  "raw_lines loads cols row =
     (case cell cols row ''raw_data'' of
        None \<Rightarrow> []
      | Some v \<Rightarrow>
          if v = JNull then []
          else (case loads v of Inr d \<Rightarrow> [RawJson d] | Inl _ \<Rightarrow> [RawText v]))"

definition shown_fields :: "(string \<times> string) list" where
  "shown_fields =
     [(''ID'', ''id''), (''Message'', ''message''), (''Timestamp'', ''timestamp''), (''Category'', ''category''),
      (''Value'', ''value''), (''Kafka Offset'', ''kafka_offset''), (''Kafka Partition'', ''kafka_partition'')]"

definition result_lines :: "(json \<Rightarrow> json res) \<Rightarrow> string list \<Rightarrow> nat \<times> json list \<Rightarrow> line list" where
  "result_lines loads cols = (\<lambda>(idx, row).
     Result (int idx + 1) # map (\<lambda>(l, name). Field l (shown cols row name)) shown_fields @ raw_lines loads cols row @ [Rule])"

definition display_results :: "(json \<Rightarrow> json res) \<Rightarrow> frame \<Rightarrow> line list" where
  "display_results loads results =
     (if frame_rows results = [] \<or> columns results = [] then [NoResults]
      else Found (int (length (frame_rows results))) # Rule #
        concat (map (result_lines loads (columns results)) (enumerate 0 (frame_rows results))))"

definition counts_of :: "lance_table \<Rightarrow> frame \<Rightarrow> string \<Rightarrow> string \<Rightarrow> line list" where
  "counts_of table df name title = (if name \<in> set (columns df) then [Counts title (value_counts table df name)] else [])"

definition statistics :: "lance_table \<Rightarrow> line list res" where
  "statistics table =
     (case to_pandas table of
        Inr df \<Rightarrow>
          Inr (Total (int (length (frame_rows df))) # counts_of table df ''category'' ''Messages by category'' @
            counts_of table df ''kafka_partition'' ''Messages by partition'')
      | Inl e \<Rightarrow> if is_Exception e then Inr [NoStatistics ''Could not get statistics''] else Inl e)"

section \<open>The program\<close>

text \<open>What is printed before an exception stays printed; the exception goes on.\<close>

definition print_next :: "line list \<times> exn option \<Rightarrow> string \<Rightarrow> line list res \<Rightarrow> line list \<times> exn option" where
  "print_next out title r =
     (case out of
        (ls, Some e) \<Rightarrow> (ls, Some e)
      | (ls, None) \<Rightarrow>
          (case r of
             Inl e \<Rightarrow> (ls @ [Title title], Some e)
           | Inr ls' \<Rightarrow> (ls @ Title title # ls', None)))"

definition query_main ::
  "(json \<Rightarrow> json res) \<Rightarrow> (string, string) dict \<Rightarrow> (string \<Rightarrow> 'd res) \<Rightarrow> ('d \<Rightarrow> string \<Rightarrow> lance_table res) \<Rightarrow> line list \<times> exn option" where
  "query_main loads environ connect open_tbl =
     (let db_path = dget_or environ ''LANCEDB_PATH'' ''./lancedb_data'';
          table_name = dget_or environ ''LANCEDB_TABLE_NAME'' ''kafka_messages'';
          show_results = \<lambda>r. rbind r (\<lambda>results. Inr (display_results loads results))
      in case connect_to_lancedb connect open_tbl db_path table_name of
           Inl e \<Rightarrow> ([], Some e)
         | Inr table \<Rightarrow>
             (let out = print_next ([], None) ''Example 1: Get All Messages'' (show_results (get_all_messages table 5));
                  out = print_next out ''Example 2: Vector Similarity Search'' (show_results (search_by_vector table (replicate 128 (1 / 10)) 5 None));
                  out = print_next out ''Example 3: Filter by Category'' (show_results (filter_by_category table ''category_0'' 5))
              in print_next out ''Example 4: Table Statistics'' (statistics table)))"

section \<open>Facts\<close>

definition numbers :: "line list \<Rightarrow> int list" where
  "numbers ls = List.map_filter (\<lambda>l. case l of Result k \<Rightarrow> Some k | _ \<Rightarrow> None) ls"

lemma numbers_append [simp]: "numbers (xs @ ys) = numbers xs @ numbers ys"
  by (simp add: numbers_def map_filter_def)

lemma numbers_Cons: "numbers (l # ls) = (case l of Result k \<Rightarrow> [k] | _ \<Rightarrow> []) @ numbers ls"
  by (simp add: numbers_def map_filter_simps split: line.splits)

lemma numbers_Nil [simp]: "numbers [] = []"
  by (simp add: numbers_def map_filter_simps)

lemma numbers_result: "numbers (result_lines loads cols (k, row)) = [int k + 1]"
  by (simp add: result_lines_def shown_fields_def raw_lines_def numbers_Cons split: option.splits sum.splits)

text \<open>The results of a frame are numbered from one.\<close>

lemma numbers_results:
  "numbers (concat (map (result_lines loads cols) (enumerate n rows))) = map (\<lambda>i. int i + 1) [n..<n + length rows]"
proof (induction rows arbitrary: n)
  case (Cons row rows)
  have "[n..<n + length (row # rows)] = n # [Suc n..<Suc n + length rows]" by (simp add: upt_conv_Cons del: upt_Suc)
  with Cons show ?case by (simp add: numbers_result del: upt_Suc)
qed simp

lemma numbers_display:
  "numbers (display_results loads df) =
     (if columns df = [] then [] else map (\<lambda>i. int i + 1) [0..<length (frame_rows df)])"
  using numbers_results [of loads "columns df" 0 "frame_rows df"] by (auto simp: display_results_def numbers_Cons)

lemma numbers_statistics: "statistics table = Inr ls \<Longrightarrow> numbers ls = []"
  by (auto simp: statistics_def counts_of_def numbers_Cons split: sum.splits if_splits)

text \<open>The limit is kept by queries and by \<open>head\<close>, as LanceDB and pandas document.\<close>

definition limits_kept :: "lance_table \<Rightarrow> bool" where
  "limits_kept table \<longleftrightarrow>
     (\<forall>q df. run_query table q = Inr df \<longrightarrow> 0 \<le> q_limit q \<longrightarrow> int (length (frame_rows df)) \<le> q_limit q) \<and>
     (\<forall>df n. 0 \<le> n \<longrightarrow> int (length (frame_rows (head table df n))) \<le> n)"

lemma search_limit:
  assumes "limits_kept table" "search_by_vector table v n filters = Inr df" "0 \<le> n"
  shows "int (length (frame_rows df)) \<le> n"
proof -
  let ?q = "\<lparr>q_vector = v, q_limit = n, q_where = if filters = Some [] then None else filters\<rparr>"
  have "run_query table ?q = Inr df" using assms(2) by (auto simp: search_by_vector_def Let_def split: if_splits)
  with assms(1) have "0 \<le> q_limit ?q \<longrightarrow> int (length (frame_rows df)) \<le> q_limit ?q" unfolding limits_kept_def by blast
  with assms(3) show ?thesis by simp
qed

lemma get_all_limit:
  assumes "limits_kept table" "get_all_messages table n = Inr df" "0 \<le> n"
  shows "int (length (frame_rows df)) \<le> n"
  using assms search_limit [OF assms(1)] by (auto simp: get_all_messages_def limits_kept_def split: sum.splits if_splits)

text \<open>The numbers a part of the report adds.\<close>

definition few :: "int list \<Rightarrow> bool" where
  "few ks \<longleftrightarrow> (\<exists>m \<le> 5. ks = map (\<lambda>i. int i + 1) [0..<m])"

lemma numbers_few:
  assumes "\<And>df. r = Inr df \<Longrightarrow> int (length (frame_rows df)) \<le> 5"
    "print_next (ls, x) t (rbind r (\<lambda>df. Inr (display_results loads df))) = (ls', e)"
  shows "\<exists>ks. few ks \<and> numbers ls' = numbers ls @ ks"
proof -
  have z: "few []" unfolding few_def by (rule exI [of _ 0]) simp
  show ?thesis
  proof (cases x)
    case None
    show ?thesis
    proof (cases r)
      case (Inr df)
      with None assms(2) have "numbers ls' = numbers ls @ numbers (display_results loads df)"
        by (auto simp: print_next_def numbers_Cons)
      moreover have "few (numbers (display_results loads df))"
        using assms(1) [OF Inr] z unfolding numbers_display few_def by auto
      ultimately show ?thesis by blast
    qed (use None assms(2) z in \<open>auto simp: print_next_def numbers_Cons intro!: exI [of _ "[]"]\<close>)
  qed (use assms(2) z in \<open>auto simp: print_next_def intro!: exI [of _ "[]"]\<close>)
qed

section \<open>Properties\<close>

text \<open>However large the table is, each of the three examples prints at most five results, numbered from one, also when the
  frame cannot be read as a whole or when a query fails.\<close>

theorem query_report_bounded:
  assumes "query_main loads environ connect open_tbl = (ls, e)"
    and "\<And>db name table. open_tbl db name = Inr table \<Longrightarrow> limits_kept table"
  shows "\<exists>k1 k2 k3. few k1 \<and> few k2 \<and> few k3 \<and> numbers ls = k1 @ k2 @ k3"
proof -
  have z: "few []" unfolding few_def by (rule exI [of _ 0]) simp
  obtain r where r: "connect_to_lancedb connect open_tbl (dget_or environ ''LANCEDB_PATH'' ''./lancedb_data'')
      (dget_or environ ''LANCEDB_TABLE_NAME'' ''kafka_messages'') = r" by blast
  show ?thesis
  proof (cases r)
    case (Inl x)
    with assms(1) r have "ls = []" by (simp add: query_main_def)
    with z show ?thesis by (metis append_Nil numbers_Nil)
  next
    case (Inr table)
    with r assms(2) have l: "limits_kept table" by (auto simp: connect_to_lancedb_def rbind_eq_Inr)
    obtain l1 e1 where p1: "print_next ([], None) ''Example 1: Get All Messages''
        (rbind (get_all_messages table 5) (\<lambda>df. Inr (display_results loads df))) = (l1, e1)" by force
    obtain l2 e2 where p2: "print_next (l1, e1) ''Example 2: Vector Similarity Search''
        (rbind (search_by_vector table (replicate 128 (1 / 10)) 5 None) (\<lambda>df. Inr (display_results loads df))) = (l2, e2)" by force
    obtain l3 e3 where p3: "print_next (l2, e2) ''Example 3: Filter by Category''
        (rbind (filter_by_category table ''category_0'' 5) (\<lambda>df. Inr (display_results loads df))) = (l3, e3)" by force
    have "print_next (l3, e3) ''Example 4: Table Statistics'' (statistics table) = (ls, e)"
      using assms(1) p1 p2 p3 unfolding query_main_def Let_def r Inr by simp
    then have "numbers ls = numbers l3"
      using numbers_statistics [of table] by (auto simp: print_next_def numbers_Cons split: option.splits sum.splits)
    moreover obtain k1 where "few k1" "numbers l1 = k1"
      using numbers_few [OF _ p1] get_all_limit [OF l] by (metis append_Nil numbers_Nil zero_le_numeral)
    moreover obtain k2 where "few k2" "numbers l2 = numbers l1 @ k2"
      using numbers_few [OF _ p2] search_limit [OF l] by (metis zero_le_numeral)
    moreover obtain k3 where "few k3" "numbers l3 = numbers l2 @ k3"
      using numbers_few [OF _ p3] search_limit [OF l] unfolding filter_by_category_def by (metis zero_le_numeral)
    ultimately show ?thesis by (metis append_assoc)
  qed
qed

section \<open>Runs\<close>

text \<open>A table whose frame cannot be read as a whole, with one row that every query finds.\<close>

definition demo_frame :: frame where
  "demo_frame = \<lparr>columns = [''id'', ''category''], frame_rows = [[JInt 1, JStr ''category_0'']]\<rparr>"

definition demo_lance_table :: lance_table where
  "demo_lance_table = \<lparr>to_pandas = Inl (OSError ''io''), run_query = (\<lambda>q. Inr (demo_frame\<lparr>frame_rows := take (nat (q_limit q)) (frame_rows demo_frame)\<rparr>)),
     head = (\<lambda>df n. df\<lparr>frame_rows := take (nat n) (frame_rows df)\<rparr>), value_counts = (\<lambda>_ _. [])\<rparr>"

definition demo_report :: "line list \<times> exn option" where
  "demo_report = query_main Inr [] (\<lambda>p. Inr ()) (\<lambda>_ _. Inr demo_lance_table)"

lemma demo_report_run: "numbers (fst demo_report) = [1, 1, 1] \<and> last (fst demo_report) = NoStatistics ''Could not get statistics'' \<and> snd demo_report = None"
  by code_simp

theorem query_report_bounded_witness: "\<exists>k1 k2 k3. few k1 \<and> few k2 \<and> few k3 \<and> numbers (fst demo_report) = k1 @ k2 @ k3"
proof -
  have "limits_kept demo_lance_table" by (auto simp: limits_kept_def demo_lance_table_def)
  moreover have "query_main Inr [] (\<lambda>p. Inr ()) (\<lambda>_ _. Inr demo_lance_table) = (fst demo_report, snd demo_report)"
    by (simp add: demo_report_def)
  ultimately show ?thesis
    by (intro query_report_bounded [of Inr "[]" "\<lambda>p. Inr ()" "\<lambda>_ _. Inr demo_lance_table" "fst demo_report" "snd demo_report"]) auto
qed

end
