(* ===== verification/PyNumber.thy ===== *)
theory PyNumber
  imports PyPrelude Complex_Main
begin

text \<open>
  Python's rounding to hundredths and the range of \<open>random.uniform\<close>. A float is the rational number it stands for; the
  rounding of sums and products to doubles is left out.
\<close>

text \<open>\<open>round(x, 2)\<close>: to the nearest hundredth, a tie to the even one.\<close>

definition half_even :: "rat \<Rightarrow> int" where
  "half_even x =
     (let f = \<lfloor>x\<rfloor>; d = x - of_int f
      in if d < 1 / 2 then f else if 1 / 2 < d then f + 1 else if even f then f else f + 1)"

definition round2 :: "rat \<Rightarrow> rat" where
  "round2 x = of_int (half_even (x * 100)) / 100"

lemma half_even_bounds: "of_int m \<le> x \<Longrightarrow> x \<le> of_int n \<Longrightarrow> m \<le> half_even x \<and> half_even x \<le> n"
proof -
  assume m: "of_int m \<le> x" and n: "x \<le> of_int n"
  from m have f: "m \<le> \<lfloor>x\<rfloor>" by (simp add: le_floor_iff)
  show ?thesis
  proof (cases "x = of_int \<lfloor>x\<rfloor>")
    case True
    then have "half_even x = \<lfloor>x\<rfloor>" by (simp add: half_even_def Let_def)
    with f n show ?thesis by (simp add: floor_le_iff)
  next
    case False
    with n have "\<lfloor>x\<rfloor> + 1 \<le> n" by linarith
    with f show ?thesis by (auto simp: half_even_def Let_def)
  qed
qed

lemma round2_bounds: "of_int m \<le> x \<Longrightarrow> x \<le> of_int n \<Longrightarrow> of_int m \<le> round2 x \<and> round2 x \<le> of_int n"
proof -
  assume "of_int m \<le> x" "x \<le> of_int n"
  then have "of_int (m * 100) \<le> x * 100" "x * 100 \<le> of_int (n * 100)" by simp_all
  from half_even_bounds [OF this] have "m * 100 \<le> half_even (x * 100)" "half_even (x * 100) \<le> n * 100" by auto
  then have "(of_int (m * 100) :: rat) \<le> of_int (half_even (x * 100))" "(of_int (half_even (x * 100)) :: rat) \<le> of_int (n * 100)"
    by (simp_all only: of_int_le_iff)
  then show ?thesis by (simp add: round2_def field_simps)
qed

text \<open>A number of hundredths, moved by a number of hundredths at most, stays within them.\<close>

lemma round2_moves:
  assumes "c = of_int m / 100" "\<bar>x - c\<bar> \<le> of_int k / 100"
  shows "(\<exists>n. round2 x = of_int n / 100) \<and> \<bar>round2 x - c\<bar> \<le> of_int k / 100"
proof -
  have c: "c * 100 = of_int m" using assms(1) by simp
  have d: "x - c \<le> of_int k / 100" "c - x \<le> of_int k / 100" using abs_le_D1 [OF assms(2)] abs_le_D2 [OF assms(2)] by simp_all
  have "of_int (m - k) \<le> x * 100" "x * 100 \<le> of_int (m + k)" using c d by (simp_all; linarith)+
  from half_even_bounds [OF this] have h: "m - k \<le> half_even (x * 100)" "half_even (x * 100) \<le> m + k" by auto
  then have "(of_int (half_even (x * 100)) :: rat) \<le> of_int (m + k)" "(of_int (m - k) :: rat) \<le> of_int (half_even (x * 100))"
    by (simp_all only: of_int_le_iff)
  then show ?thesis using assms(1) by (auto simp: round2_def abs_le_iff field_simps)
qed

end
