(* ===== verification/ClaimsStream.thy ===== *)
theory ClaimsStream
  imports PyJson PyStr PyState PyNumber
begin

text \<open>
  The claims use case of \<open>diskless-lancedb\<close>: \<open>claims_usecase_aiven_kafka_producer.py\<close> makes random insurance
  claims and sends them, \<open>claims_usecase_aiven_kafka_lance_cloud_consumer.py\<close> collects what it polls in
  batches of ten and adds them to a LanceDB table. The random generator, the fake data, the Kafka clients and
  the database are parameters that run on a world of their own; a float is the rational number it
  stands for.
\<close>

section \<open>The claims\<close>

record 'w claim_source =
  random :: "'w \<Rightarrow> rat \<times> 'w"
  uuid4 :: "'w \<Rightarrow> string \<times> 'w"
  random_int :: "int \<Rightarrow> int \<Rightarrow> 'w \<Rightarrow> int \<times> 'w"
  sentence :: "int \<Rightarrow> 'w \<Rightarrow> string \<times> 'w"
  date_this_year :: "'w \<Rightarrow> string \<times> 'w"
  fake_name :: "'w \<Rightarrow> string \<times> 'w"
  random_element :: "string list \<Rightarrow> 'w \<Rightarrow> string \<times> 'w"

definition uniform :: "('w, 'z) claim_source_scheme \<Rightarrow> rat \<Rightarrow> rat \<Rightarrow> 'w \<Rightarrow> rat \<times> 'w" where
  "uniform src a b w = (case random src w of (r, w') \<Rightarrow> (a + (b - a) * r, w'))"

definition total_loss :: string where
  "total_loss = ''Total loss, multiple vehicles involved, severe structural damage.''"

definition generate_claim :: "('w, 'z) claim_source_scheme \<Rightarrow> 'w \<Rightarrow> (string, json) dict \<times> 'w" where
  "generate_claim src w0 =
     (case random src w0 of (r, w1) \<Rightarrow>
      let is_suspicious = r < 15 / 100 in
      case (if \<not> is_suspicious then uniform src 500 3000 w1 else uniform src 10000 50000 w1) of (claim_amount, w2) \<Rightarrow>
      case uuid4 src w2 of (claim_id, w3) \<Rightarrow>
      case random_int src 1000 9999 w3 of (policy, w4) \<Rightarrow>
      case (if \<not> is_suspicious then sentence src 12 w4 else (total_loss, w4)) of (description, w5) \<Rightarrow>
      case date_this_year src w5 of (incident_date, w6) \<Rightarrow>
      case fake_name src w6 of (policy_holder, w7) \<Rightarrow>
      case random_element src [''Auto'', ''Home'', ''Life'', ''Health''] w7 of (claim_type, w8) \<Rightarrow>
        ([(''id'', JStr claim_id), (''policy_id'', JStr (''POL-'' @ show_int policy)), (''description'', JStr description),
          (''amount'', JFloat (round2 claim_amount)), (''policy_limit'', JInt 25000), (''incident_date'', JStr incident_date),
          (''policy_holder'', JStr policy_holder), (''claim_type'', JStr claim_type)], w8))"

text \<open>The report of a delivery.\<close>

datatype delivery_note = Failed string | SentTo string string

definition delivery_report :: "string option \<Rightarrow> string \<times> string \<Rightarrow> delivery_note" where
  "delivery_report err msg = (case err of Some e \<Rightarrow> Failed e | None \<Rightarrow> SentTo (fst msg) (snd msg))"

text \<open>
  The endless loop that sends them. \<open>produce\<close> takes the topic, the key and the value and ends in the callback
  \<open>delivery_report\<close>; an interrupt flushes the producer, any other exception leaves it as it is.
\<close>

record 'w claim_producer = "'w claim_source" +
  produce :: "string \<Rightarrow> json \<Rightarrow> (string, json) dict \<Rightarrow> (string option \<Rightarrow> string \<times> string \<Rightarrow> delivery_note) \<Rightarrow> ('w, unit) run"
  poll_events :: "int \<Rightarrow> ('w, unit) run"
  pause_for :: "rat \<Rightarrow> ('w, unit) run"
  flush_claims :: "('w, unit) run"

definition send_claim :: "'w claim_producer \<Rightarrow> ('w, unit) run" where
  "send_claim api = (\<lambda>w.
     case generate_claim api w of (data, w1) \<Rightarrow>
       abind (aret (ditem data ''id'')) (\<lambda>key.
       abind (produce api ''insurance-claims'' key data delivery_report) (\<lambda>_.
       abind (poll_events api 0) (\<lambda>_. \<lambda>w2.
         case uniform api 1 5 w2 of (d, w3) \<Rightarrow> pause_for api d w3))) w1)"

fun stream_claims :: "'w claim_producer \<Rightarrow> nat \<Rightarrow> 'w \<Rightarrow> (unit res \<times> 'w) option" where
  "stream_claims api 0 w = None"
| "stream_claims api (Suc n) w =
     (case send_claim api w of
        (Inr _, w') \<Rightarrow> stream_claims api n w'
      | (Inl e, w') \<Rightarrow> Some (if e = KeyboardInterrupt then flush_claims api w' else (Inl e, w')))"

section \<open>Collecting them\<close>

record 'd claim_table =
  table_names :: "('d, string list) run"
  add_rows :: "string \<Rightarrow> json list \<Rightarrow> ('d, unit) run"
  create_rows :: "string \<Rightarrow> json list \<Rightarrow> ('d, unit) run"

definition TABLE_NAME :: string where
  "TABLE_NAME = ''insurance_claims''"

definition ingest_to_lancedb :: "'d claim_table \<Rightarrow> json list \<Rightarrow> ('d, unit) run" where
  "ingest_to_lancedb db data =
     (if data = [] then aret (Inr ())
      else abind (table_names db) (\<lambda>names.
        if TABLE_NAME \<in> set names then add_rows db TABLE_NAME data else create_rows db TABLE_NAME data))"

text \<open>
  The state of the loop: the database, the batch, and the record of the calls of \<open>ingest_to_lancedb\<close>, all of them and
  those that returned.
\<close>

record 'd claiming =
  store :: 'd
  batch :: "json list"
  tried :: "json list list"
  ingested :: "json list list"

definition ingest :: "'d claim_table \<Rightarrow> 'd claiming \<Rightarrow> unit res \<times> 'd claiming" where
  "ingest db s =
     (case ingest_to_lancedb db (batch s) (store s) of
        (r, d) \<Rightarrow>
          (r, s\<lparr>store := d, tried := tried s @ [batch s],
             ingested := (case r of Inr _ \<Rightarrow> ingested s @ [batch s] | Inl _ \<Rightarrow> ingested s)\<rparr>))"

definition claim_received :: "'d claim_table \<Rightarrow> 'd claiming \<Rightarrow> json \<Rightarrow> exn option \<times> 'd claiming" where
  "claim_received db s claim =
     (let s = s\<lparr>batch := batch s @ [claim]\<rparr> in
      if 10 \<le> length (batch s) then
        (case ingest db s of
           (Inr _, t) \<Rightarrow> (None, t\<lparr>batch := []\<rparr>)
         | (Inl e, t) \<Rightarrow> (Some e, t))
      else (None, s))"

datatype polled = NoMessage | PartitionEof | PollError string | Payload string

datatype claims_ending = StillPolling | Left | Stopped exn

text \<open>\<open>loads\<close> decodes the bytes of a message and reads the JSON in them. A poll may raise itself.\<close>

fun claims_loop ::
  "'d claim_table \<Rightarrow> (string \<Rightarrow> json res) \<Rightarrow> (exn + polled) list \<Rightarrow> 'd claiming \<Rightarrow> claims_ending \<times> 'd claiming" where
  "claims_loop db loads [] s = (StillPolling, s)"
| "claims_loop db loads (Inl e # polls) s = (Stopped e, s)"
| "claims_loop db loads (Inr NoMessage # polls) s = claims_loop db loads polls s"
| "claims_loop db loads (Inr PartitionEof # polls) s = claims_loop db loads polls s"
| "claims_loop db loads (Inr (PollError m) # polls) s = (Left, s)"
| "claims_loop db loads (Inr (Payload v) # polls) s =
     (case loads v of
        Inl e \<Rightarrow> (Stopped e, s)
      | Inr claim \<Rightarrow>
          (case claim_received db s claim of
             (Some e, t) \<Rightarrow> (Stopped e, t)
           | (None, t) \<Rightarrow> claims_loop db loads polls t))"

text \<open>
  The program: an interrupt ends it quietly, the \<open>finally\<close> block ingests the batch that is left, and an exception
  of that ingest takes the place of the one on its way. \<open>None\<close> when it still polls.
\<close>

definition claims_start :: "'d \<Rightarrow> 'd claiming" where
  "claims_start d = \<lparr>store = d, batch = [], tried = [], ingested = []\<rparr>"

definition claims_main ::
  "'d claim_table \<Rightarrow> (string \<Rightarrow> json res) \<Rightarrow> (exn + polled) list \<Rightarrow> 'd \<Rightarrow> (exn option \<times> 'd claiming) option" where
  "claims_main db loads polls d =
     (case claims_loop db loads polls (claims_start d) of
        (StillPolling, s) \<Rightarrow> None
      | (claims_ending, s) \<Rightarrow>
          (let raised = (case claims_ending of Stopped e \<Rightarrow> if e = KeyboardInterrupt then None else Some e | _ \<Rightarrow> None)
           in if batch s \<noteq> [] then
                (case ingest db s of
                   (Inr _, t) \<Rightarrow> Some (raised, t\<lparr>batch := []\<rparr>)
                 | (Inl e, t) \<Rightarrow> Some (Some e, t))
              else Some (raised, s)))"

section \<open>Facts about the claims\<close>

definition draws_ok :: "('w, 'z) claim_source_scheme \<Rightarrow> bool" where
  "draws_ok src \<longleftrightarrow> (\<forall>w. 0 \<le> fst (random src w) \<and> fst (random src w) < 1)"

lemma uniform_bounds:
  assumes "draws_ok src" "uniform src a b w = (x, w')" "a \<le> b"
  shows "a \<le> x \<and> x \<le> b"
proof -
  obtain r where r: "random src w = (r, w')" "x = a + (b - a) * r"
    using assms(2) by (auto simp: uniform_def split: prod.splits)
  with assms(1) have "0 \<le> r" "r \<le> 1" unfolding draws_ok_def by (metis fst_conv, metis fst_conv less_imp_le)
  with assms(3) have "0 \<le> (b - a) * r" "(b - a) * r \<le> (b - a) * 1"
    by (simp, intro mult_left_mono) simp_all
  with r(2) show ?thesis by simp
qed

section \<open>Facts about the consumer\<close>

lemma ingest_run:
  assumes "ingest db s = (r, t)"
  shows "batch t = batch s \<and> tried t = tried s @ [batch s] \<and>
    ingested t = (case r of Inr _ \<Rightarrow> ingested s @ [batch s] | Inl _ \<Rightarrow> ingested s)"
  using assms by (auto simp: ingest_def split: prod.splits)

lemma claim_received_run:
  assumes "claim_received db s claim = (e, t)"
  shows "concat (ingested t) @ batch t = concat (ingested s) @ batch s @ [claim]"
proof -
  let ?s = "s\<lparr>batch := batch s @ [claim]\<rparr>"
  obtain r u where i: "ingest db ?s = (r, u)" by force
  from assms i ingest_run [OF i] show ?thesis
    by (auto simp: claim_received_def Let_def split: if_splits sum.splits)
qed

interpretation claims: buffered "claim_received db" "\<lambda>s. concat (ingested s)" batch
  for db :: "'d claim_table"
  by unfold_locales (rule claim_received_run)

text \<open>The polls as a stream of claims: nothing after an error of the poll, of the message or of its JSON is read.\<close>

fun claims_read :: "(string \<Rightarrow> json res) \<Rightarrow> (exn + polled) list \<Rightarrow> (exn + json) list" where
  "claims_read loads [] = []"
| "claims_read loads (Inl e # polls) = [Inl e]"
| "claims_read loads (Inr NoMessage # polls) = claims_read loads polls"
| "claims_read loads (Inr PartitionEof # polls) = claims_read loads polls"
| "claims_read loads (Inr (PollError m) # polls) = []"
| "claims_read loads (Inr (Payload v) # polls) =
     (case loads v of Inl e \<Rightarrow> [Inl e] | Inr claim \<Rightarrow> Inr claim # claims_read loads polls)"

lemma claims_loop_iterate:
  "claims_loop db loads polls s = (r, t) \<Longrightarrow>
     iterate (claim_received db) (claims_read loads polls) s = (case r of Stopped e \<Rightarrow> Some e | _ \<Rightarrow> None, t)"
  by (induction db loads polls s rule: claims_loop.induct) (auto split: sum.splits prod.splits option.splits)

text \<open>Between two rounds every batch that was ingested had ten claims and the batch has fewer.\<close>

definition tens :: "'d claiming \<Rightarrow> bool" where
  "tens s \<longleftrightarrow> (\<forall>b \<in> set (ingested s). length b = 10) \<and> tried s = ingested s \<and> length (batch s) < 10"

text \<open>After a batch that was refused, it is still there, with its ten claims.\<close>

definition refused :: "'d claiming \<Rightarrow> bool" where
  "refused s \<longleftrightarrow> (\<forall>b \<in> set (ingested s). length b = 10) \<and> tried s = ingested s @ [batch s] \<and> length (batch s) = 10"

lemma claim_received_tens:
  assumes "tens s" "claim_received db s claim = (e, t)"
  shows "case e of None \<Rightarrow> tens t | Some x \<Rightarrow> refused t"
proof -
  let ?s = "s\<lparr>batch := batch s @ [claim]\<rparr>"
  obtain r u where i: "ingest db ?s = (r, u)" by force
  from assms i ingest_run [OF i] show ?thesis
    by (auto simp: claim_received_def Let_def tens_def refused_def split: if_splits sum.splits)
qed

lemma claims_loop_tens:
  "claims_loop db loads polls s = (r, t) \<Longrightarrow> tens s \<Longrightarrow> tens t \<or> (\<exists>e. r = Stopped e) \<and> refused t"
proof (induction db loads polls s rule: claims_loop.induct)
  case (6 db loads v polls s)
  show ?case
  proof (cases "loads v")
    case (Inr claim)
    obtain e u where c: "claim_received db s claim = (e, u)" by force
    from claim_received_tens [OF "6.prems"(2) c] "6.IH" [OF Inr c [symmetric]] "6.prems" Inr c show ?thesis
      by (cases e) auto
  qed (use "6.prems" in simp)
qed auto

section \<open>Properties\<close>

text \<open>A claim is small, at most 3,000, or a total loss of 10,000 to 50,000; only a total loss can exceed the limit
  of its policy.\<close>

theorem claim_amounts:
  assumes "draws_ok src" "generate_claim src w = (claim, w')"
  shows "\<exists>a d. dget claim ''amount'' = Some (JFloat a) \<and> dget claim ''description'' = Some (JStr d) \<and>
    (500 \<le> a \<and> a \<le> 3000 \<or> 10000 \<le> a \<and> a \<le> 50000 \<and> d = total_loss)"
proof -
  obtain r w1 where r: "random src w = (r, w1)" by force
  obtain x w2 where x: "(if \<not> r < 15 / 100 then uniform src 500 3000 w1 else uniform src 10000 50000 w1) = (x, w2)" by force
  from assms(2) r x obtain d where
    d: "dget claim ''amount'' = Some (JFloat (round2 x))" "dget claim ''description'' = Some (JStr d)"
      "r < 15 / 100 \<longrightarrow> d = total_loss"
    by (auto simp: generate_claim_def Let_def split: prod.splits if_splits)
  show ?thesis
  proof (cases "r < 15 / 100")
    case True
    with x uniform_bounds [OF assms(1), of 10000 50000 w1] have "of_int 10000 \<le> x" "x \<le> of_int 50000" by auto
    from round2_bounds [OF this] d True show ?thesis by auto
  next
    case False
    with x uniform_bounds [OF assms(1), of 500 3000 w1] have "of_int 500 \<le> x" "x \<le> of_int 3000" by auto
    from round2_bounds [OF this] d show ?thesis by auto
  qed
qed

text \<open>C14. When the consumer ends, every claim it read was ingested, once and in order, in batches of ten and a shorter last
  one, or is left in a last batch of which the ingest raised. Either every batch of ten was tried once and ingested, and
  what may be left had fewer than ten claims and was tried once; or a batch of ten was refused, and then it was tried
  exactly twice, the second time by the \<open>finally\<close> block, as the last thing tried.\<close>

theorem claims_ingested_once:
  assumes "claims_main db loads polls d = Some (e, t)"
  shows "\<exists>cs rest. values_of (claims_read loads polls) = cs @ rest \<and> concat (ingested t) @ batch t = cs \<and>
    (\<forall>b \<in> set (butlast (ingested t)). length b = 10) \<and> (\<forall>b \<in> set (ingested t). 0 < length b \<and> length b \<le> 10) \<and>
    (batch t \<noteq> [] \<longrightarrow> e \<noteq> None) \<and>
    (tried t = ingested t @ (if batch t = [] then [] else [batch t]) \<and> length (batch t) < 10 \<or>
     (\<exists>b. length b = 10 \<and>
        (ingested t \<noteq> [] \<and> last (ingested t) = b \<and> tried t = butlast (ingested t) @ [b, b] \<or>
         batch t = b \<and> tried t = ingested t @ [b, b])))"
proof -
  obtain r s where l: "claims_loop db loads polls (claims_start d) = (r, s)" by force
  obtain q u where i: "ingest db s = (q, u)" by force
  note ir = ingest_run [OF i]
  have "tens (claims_start d)" by (simp add: tens_def claims_start_def)
  from claims_loop_tens [OF l this] have ts: "tens s \<or> refused s" by blast
  from claims.iterate_conserves [OF claims_loop_iterate [OF l]] obtain cs rest where
    c: "values_of (claims_read loads polls) = cs @ rest"
      "concat (ingested s) @ batch s = concat (ingested (claims_start d)) @ batch (claims_start d) @ cs" by blast
  from c(2) have c2: "concat (ingested s) @ batch s = cs" by (simp add: claims_start_def)
  have t: "t = (if batch s = [] then s else case q of Inl x \<Rightarrow> u | Inr _ \<Rightarrow> u\<lparr>batch := []\<rparr>) \<and>
      (batch s \<noteq> [] \<longrightarrow> (\<forall>x. q = Inl x \<longrightarrow> e = Some x))"
    using assms l i by (cases r) (auto simp: claims_main_def Let_def split: if_splits sum.splits)
  have "concat (ingested t) @ batch t = cs"
    using c2 ir t by (auto split: sum.splits if_splits)
  moreover have "(\<forall>b \<in> set (butlast (ingested t)). length b = 10) \<and> (\<forall>b \<in> set (ingested t). 0 < length b \<and> length b \<le> 10)"
    using ts ir t by (auto simp: tens_def refused_def split: sum.splits if_splits dest: in_set_butlastD)
  moreover have "batch t \<noteq> [] \<longrightarrow> e \<noteq> None"
    using ir t by (auto split: sum.splits if_splits)
  moreover have "tried t = ingested t @ (if batch t = [] then [] else [batch t]) \<and> length (batch t) < 10 \<or>
     (\<exists>b. length b = 10 \<and>
        (ingested t \<noteq> [] \<and> last (ingested t) = b \<and> tried t = butlast (ingested t) @ [b, b] \<or>
         batch t = b \<and> tried t = ingested t @ [b, b]))"
    using ts ir t by (auto simp: tens_def refused_def split: sum.splits if_splits)
  ultimately show ?thesis using c(1) by blast
qed

section \<open>Runs\<close>

text \<open>A database that takes one ingest and refuses the others, and twelve claims with a message in between that is no claim.\<close>

definition demo_claims_db :: "nat claim_table" where
  "demo_claims_db = \<lparr>table_names = (\<lambda>n. (Inr [''other''], n)),
     add_rows = (\<lambda>_ _ n. (Inl (OSError ''full''), n)),
     create_rows = (\<lambda>_ _ n. (if n = 0 then Inr () else Inl (OSError ''full''), Suc n))\<rparr>"

definition demo_polls :: "(exn + polled) list" where
  "demo_polls = map (\<lambda>c. Inr (Payload [c])) ''abcdefghij'' @ [Inr NoMessage, Inr PartitionEof, Inr (Payload ''k''), Inl KeyboardInterrupt]"

definition demo_claims :: "nat claiming" where
  "demo_claims = snd (the (claims_main demo_claims_db (\<lambda>v. Inr (JStr v)) demo_polls 0))"

lemma demo_claims_run:
  "claims_main demo_claims_db (\<lambda>v. Inr (JStr v)) demo_polls 0 = Some (Some (OSError ''full''), demo_claims)"
  "map length (ingested demo_claims) = [10]" "batch demo_claims = [JStr ''k'']"
  by code_simp+

theorem claims_ingested_once_witness:
  "\<exists>cs rest. values_of (claims_read (\<lambda>v. Inr (JStr v)) demo_polls) = cs @ rest \<and>
     concat (ingested demo_claims) @ batch demo_claims = cs"
  using claims_ingested_once [OF demo_claims_run(1)] by blast

definition demo_claim_source :: "rat \<Rightarrow> unit claim_source" where
  "demo_claim_source r = \<lparr>random = (\<lambda>w. (r, w)), uuid4 = (\<lambda>w. (''u'', w)), random_int = (\<lambda>a b w. (a, w)), sentence = (\<lambda>n w. (''s'', w)),
     date_this_year = (\<lambda>w. (''2024-01-01'', w)), fake_name = (\<lambda>w. (''n'', w)), random_element = (\<lambda>es w. (hd es, w))\<rparr>"

theorem claim_amounts_witness:
  "dget (fst (generate_claim (demo_claim_source (1 / 10)) ())) ''amount'' = Some (JFloat 14000) \<and>
     (\<exists>a d. dget (fst (generate_claim (demo_claim_source (1 / 10)) ())) ''amount'' = Some (JFloat a) \<and>
       dget (fst (generate_claim (demo_claim_source (1 / 10)) ())) ''description'' = Some (JStr d) \<and>
       (500 \<le> a \<and> a \<le> 3000 \<or> 10000 \<le> a \<and> a \<le> 50000 \<and> d = total_loss))"
proof
  show "dget (fst (generate_claim (demo_claim_source (1 / 10)) ())) ''amount'' = Some (JFloat 14000)"
    by (simp add: generate_claim_def demo_claim_source_def uniform_def round2_def half_even_def Let_def)
  have "draws_ok (demo_claim_source (1 / 10))" by (simp add: draws_ok_def demo_claim_source_def)
  then show "\<exists>a d. dget (fst (generate_claim (demo_claim_source (1 / 10)) ())) ''amount'' = Some (JFloat a) \<and>
       dget (fst (generate_claim (demo_claim_source (1 / 10)) ())) ''description'' = Some (JStr d) \<and>
       (500 \<le> a \<and> a \<le> 3000 \<or> 10000 \<le> a \<and> a \<le> 50000 \<and> d = total_loss)"
    by (rule claim_amounts [OF _ prod.collapse [symmetric]])
qed

end
