(* ===== verification/AesMessages.thy ===== *)
theory AesMessages
  imports PyJson Base64 PyState
begin

text \<open>
  \<open>aes_producer.py\<close> and \<open>aes_consumer.py\<close> (\<open>kafka-client-aes\<close>): messages that are padded, encrypted with
  AES in CBC mode and sent in Base64, and the way back. The padder and the cipher belong to the package
  \<open>cryptography\<close> and are parameters; what is relied on is \<open>crypto_ok\<close>, that each undoes the other.
\<close>

record crypto =
  pkcs7_pad :: "int \<Rightarrow> byte list \<Rightarrow> byte list res"
  pkcs7_unpad :: "int \<Rightarrow> byte list \<Rightarrow> byte list res"
  cbc_encrypt :: "byte list \<Rightarrow> byte list \<Rightarrow> byte list \<Rightarrow> byte list res"
  cbc_decrypt :: "byte list \<Rightarrow> byte list \<Rightarrow> byte list \<Rightarrow> byte list res"

text \<open>The key of the producer and that of the consumer.\<close>

definition producer_key :: "byte list" where
  "producer_key = [0x2b, 0x7e, 0x15, 0x16, 0x28, 0xae, 0xd2, 0xa6, 0xab, 0xf7, 0x15, 0x88, 0x09, 0xcf, 0x4f, 0x3c]"

definition consumer_key :: "byte list" where
  "consumer_key = [0x2b, 0x7e, 0x15, 0x16, 0x28, 0xae, 0xd2, 0xa6, 0xab, 0xf7, 0x15, 0x88, 0x09, 0xcf, 0x4f, 0x3c]"

section \<open>The producer\<close>

definition pad :: "crypto \<Rightarrow> byte list \<Rightarrow> byte list res" where
  "pad cr data = pkcs7_pad cr 128 data"

text \<open>The key is the initialisation vector, too.\<close>

definition encrypt :: "crypto \<Rightarrow> byte list \<Rightarrow> string res" where
  "encrypt cr plaintext =
     rbind (pad cr plaintext) (\<lambda>padded_plaintext.
     rbind (cbc_encrypt cr producer_key producer_key padded_plaintext) (\<lambda>ciphertext.
       Inr (b64encode ciphertext)))"

text \<open>\<open>bytes(msg, "utf-8")\<close>, for code points below 256.\<close>

definition utf8 :: "string \<Rightarrow> byte list" where
  "utf8 msg = concat (map (\<lambda>c.
     let n = (of_char c :: nat) in
     if n < 128 then [word_of_nat n] else [word_of_nat (192 + n div 64), word_of_nat (128 + n mod 64)]) msg)"

definition encrypted_value_serializer :: "crypto \<Rightarrow> string \<Rightarrow> string res" where
  "encrypted_value_serializer cr msg = encrypt cr (utf8 msg)"

text \<open>
  Ten messages with the time of each; the producer serialises what it sends before the broker gets it.
  \<open>now\<close> is the clock at each message, \<open>dumps\<close> is \<open>json.dumps\<close>.
\<close>

definition secret_text :: "(json \<Rightarrow> string) \<Rightarrow> string \<Rightarrow> string" where
  "secret_text dumps time = dumps (JObj [(''msg'', JStr ''this is a test''), (''time'', JStr time)])"

record 'w secret_broker =
  broker_time :: "'w \<Rightarrow> string"
  broker_send :: "string \<Rightarrow> string \<Rightarrow> ('w, unit) run"
  broker_flush :: "('w, unit) run"

definition send_secret :: "crypto \<Rightarrow> (json \<Rightarrow> string) \<Rightarrow> 'w secret_broker \<Rightarrow> ('w, unit) run" where
  "send_secret cr dumps api = (\<lambda>w.
     abind (aret (encrypted_value_serializer cr (secret_text dumps (broker_time api w)))) (\<lambda>v.
       broker_send api ''my-secrets'' v) w)"

fun send_secrets :: "crypto \<Rightarrow> (json \<Rightarrow> string) \<Rightarrow> 'w secret_broker \<Rightarrow> nat \<Rightarrow> ('w, unit) run" where
  "send_secrets cr dumps api 0 = broker_flush api"
| "send_secrets cr dumps api (Suc n) = abind (send_secret cr dumps api) (\<lambda>_. send_secrets cr dumps api n)"

definition aes_producer :: "crypto \<Rightarrow> (json \<Rightarrow> string) \<Rightarrow> 'w secret_broker \<Rightarrow> ('w, unit) run" where
  "aes_producer cr dumps api = send_secrets cr dumps api 10"

section \<open>The consumer\<close>

definition unpad :: "crypto \<Rightarrow> byte list \<Rightarrow> byte list res" where
  "unpad cr data = pkcs7_unpad cr 128 data"

definition decrypt :: "crypto \<Rightarrow> string \<Rightarrow> byte list res" where
  "decrypt cr ciphertext =
     rbind (b64decode ciphertext) (\<lambda>ciphertext.
     rbind (cbc_decrypt cr consumer_key consumer_key ciphertext) (\<lambda>plaintext.
       unpad cr plaintext))"

definition encrypted_value_deserializer :: "crypto \<Rightarrow> string \<Rightarrow> byte list res" where
  "encrypted_value_deserializer cr v = decrypt cr v"

text \<open>The loop prints each value as bytes; a value that cannot be deserialised ends it.\<close>

fun aes_consumer :: "crypto \<Rightarrow> string list \<Rightarrow> byte list list \<times> exn option" where
  "aes_consumer cr [] = ([], None)"
| "aes_consumer cr (v # vs) =
     (case encrypted_value_deserializer cr v of
        Inl e \<Rightarrow> ([], Some e)
      | Inr value \<Rightarrow> (case aes_consumer cr vs of (printed, e) \<Rightarrow> (value # printed, e)))"

section \<open>Facts\<close>

text \<open>
  PKCS 7 padding to 128 bits gives whole blocks of 16 bytes and can be removed; CBC with a key of 16 bytes, encrypts
  whole blocks to whole blocks, and decrypting with the same key and vector gives them back.
\<close>

definition pad_ok :: "crypto \<Rightarrow> byte list \<Rightarrow> bool" where
  "pad_ok cr data \<longleftrightarrow> (\<exists>p. pkcs7_pad cr 128 data = Inr p \<and> 16 dvd length p \<and> pkcs7_unpad cr 128 p = Inr data)"

definition cbc_ok :: "crypto \<Rightarrow> byte list \<Rightarrow> byte list \<Rightarrow> byte list \<Rightarrow> bool" where
  "cbc_ok cr k iv p \<longleftrightarrow> (\<exists>c. cbc_encrypt cr k iv p = Inr c \<and> length c = length p \<and> cbc_decrypt cr k iv c = Inr p)"

definition crypto_ok :: "crypto \<Rightarrow> bool" where
  "crypto_ok cr \<longleftrightarrow>
     (\<forall>data. pad_ok cr data) \<and>
     (\<forall>k iv p. length k = 16 \<longrightarrow> length iv = 16 \<longrightarrow> 16 dvd length p \<longrightarrow> cbc_ok cr k iv p)"

lemma keys_agree: "consumer_key = producer_key" "length producer_key = 16"
  by (simp_all add: consumer_key_def producer_key_def)

lemma decrypt_encrypt: "crypto_ok cr \<Longrightarrow> \<exists>v. encrypt cr p = Inr v \<and> decrypt cr v = Inr p"
proof -
  assume ok: "crypto_ok cr"
  then have "pad_ok cr p" by (simp add: crypto_ok_def)
  then obtain q where q: "pkcs7_pad cr 128 p = Inr q" "16 dvd length q" "pkcs7_unpad cr 128 q = Inr p"
    unfolding pad_ok_def by blast
  have "cbc_ok cr producer_key producer_key q"
    using ok keys_agree(2) q(2) by (simp add: crypto_ok_def)
  then obtain c where "cbc_encrypt cr producer_key producer_key q = Inr c" "cbc_decrypt cr producer_key producer_key c = Inr q"
    unfolding cbc_ok_def by blast
  with q show ?thesis by (simp add: encrypt_def decrypt_def pad_def unpad_def keys_agree(1) b64decode_encode)
qed

text \<open>A broker keeps what it is sent: each value is appended to one of the partitions of the topic.\<close>

definition keeps_sent :: "'w secret_broker \<Rightarrow> ('w \<Rightarrow> nat \<Rightarrow> string list) \<Rightarrow> bool" where
  "keeps_sent api logs \<longleftrightarrow>
     (\<forall>topic v w w' u. broker_send api topic v w = (Inr u, w') \<longrightarrow> (\<exists>p. logs w' = (logs w)(p := logs w p @ [v]))) \<and>
     (\<forall>w w' u. broker_flush api w = (Inr u, w') \<longrightarrow> logs w' = logs w)"

text \<open>The time at which message number \<open>k\<close> is made.\<close>

definition secret_time :: "crypto \<Rightarrow> (json \<Rightarrow> string) \<Rightarrow> 'w secret_broker \<Rightarrow> 'w \<Rightarrow> nat \<Rightarrow> string" where
  "secret_time cr dumps api w k = broker_time api (((\<lambda>w. snd (send_secret cr dumps api w)) ^^ k) w)"

lemma secret_time_simps [simp]:
  "secret_time cr dumps api w 0 = broker_time api w"
  "secret_time cr dumps api w (Suc k) = secret_time cr dumps api (snd (send_secret cr dumps api w)) k"
  unfolding secret_time_def by (simp, simp only: funpow_Suc_right comp_apply)

text \<open>The messages as they were placed, with their partitions.\<close>

definition in_partition :: "nat \<Rightarrow> (nat \<times> 'a) list \<Rightarrow> 'a list" where
  "in_partition p xs = map snd (filter (\<lambda>x. fst x = p) xs)"

lemma send_secrets_run:
  assumes "crypto_ok cr" "keeps_sent api logs" "send_secrets cr dumps api n w = (Inr (), w')"
  shows "\<exists>placed. length placed = n \<and> (\<forall>p. logs w' p = logs w p @ in_partition p placed) \<and>
    (\<forall>k<n. encrypted_value_deserializer cr (snd (placed ! k)) = Inr (utf8 (secret_text dumps (secret_time cr dumps api w k))))"
  using assms(3)
proof (induction n arbitrary: w)
  case 0
  then show ?case using assms(2) by (auto simp: keeps_sent_def in_partition_def)
next
  case (Suc n)
  let ?t = "broker_time api w"
  obtain v where v: "encrypt cr (utf8 (secret_text dumps ?t)) = Inr v" "decrypt cr v = Inr (utf8 (secret_text dumps ?t))"
    using decrypt_encrypt [OF assms(1)] by blast
  from Suc.prems obtain w1 where w1: "send_secret cr dumps api w = (Inr (), w1)" "send_secrets cr dumps api n w1 = (Inr (), w')"
    by (auto simp: abind_Inr)
  with v have "broker_send api ''my-secrets'' v w = (Inr (), w1)"
    by (auto simp: send_secret_def abind_Inr encrypted_value_serializer_def)
  with assms(2) obtain p where p: "logs w1 = (logs w)(p := logs w p @ [v])" unfolding keeps_sent_def by blast
  from Suc.IH [OF w1(2)] obtain placed where i: "length placed = n" "\<forall>p. logs w' p = logs w1 p @ in_partition p placed"
      "\<forall>k<n. encrypted_value_deserializer cr (snd (placed ! k)) = Inr (utf8 (secret_text dumps (secret_time cr dumps api w1 k)))" by blast
  have "encrypted_value_deserializer cr (snd (((p, v) # placed) ! k)) = Inr (utf8 (secret_text dumps (secret_time cr dumps api w k)))"
    if "k < Suc n" for k
    using that i(3) v(2) w1(1) by (cases k) (simp_all add: encrypted_value_deserializer_def)
  with i(1,2) p show ?case
    by - (rule exI [of _ "(p, v) # placed"], simp add: in_partition_def)
qed

lemma aes_consumer_reads:
  "\<forall>k \<in> set ks. encrypted_value_deserializer cr (v k) = Inr (g k) \<Longrightarrow> aes_consumer cr (map v ks) = (map g ks, None)"
  by (induction ks) auto

text \<open>What is read from partitions is an interleaving of them: the numbers of its elements.\<close>

lemma interleaving:
  "(\<And>p. in_partition p xs = map v (L p)) \<Longrightarrow>
     \<exists>ks. length ks = length xs \<and> map snd xs = map v ks \<and> (\<forall>p. in_partition p (zip (map fst xs) ks) = L p)"
proof (induction xs arbitrary: L)
  case Nil
  then show ?case by (auto simp: in_partition_def)
next
  case (Cons x xs)
  obtain p y where x: "x = (p, y)" by force
  from Cons.prems [of p] x obtain k ks' where k: "L p = k # ks'" "v k = y" "in_partition p xs = map v ks'"
    by (auto simp: in_partition_def)
  have "in_partition q xs = map v ((L(p := ks')) q)" for q
    using Cons.prems [of q] x k by (cases "q = p") (simp_all add: in_partition_def)
  from Cons.IH [OF this] obtain ks where ks: "length ks = length xs" "map snd xs = map v ks"
    "\<forall>q. in_partition q (zip (map fst xs) ks) = (L(p := ks')) q" by blast
  have "in_partition q (zip (map fst (x # xs)) (k # ks)) = L q" for q
    using ks(3) [rule_format, of q] k(1) x by (cases "q = p") (simp_all add: in_partition_def)
  with ks(1,2) k(2) x show ?case by (intro exI [of _ "k # ks"]) simp
qed

lemma sorted_wrt_filter_nth:
  "sorted_wrt P (filter Q zs) \<Longrightarrow> i < j \<Longrightarrow> j < length zs \<Longrightarrow> Q (zs ! i) \<Longrightarrow> Q (zs ! j) \<Longrightarrow> P (zs ! i) (zs ! j)"
proof (induction zs arbitrary: i j)
  case (Cons z zs)
  then obtain j' where j: "j = Suc j'" by (cases j) auto
  show ?case
  proof (cases i)
    case 0
    with Cons.prems j have "zs ! j' \<in> set (filter Q zs)" by simp
    with Cons.prems 0 j show ?thesis by (simp split: if_splits)
  next
    case (Suc i')
    with Cons j show ?thesis by (simp split: if_splits)
  qed
qed simp

lemma in_partition_placed:
  "in_partition p placed = map (\<lambda>k. snd (placed ! k)) (filter (\<lambda>k. fst (placed ! k) = p) [0..<length placed])"
  by (subst map_nth [of placed, symmetric]) (simp add: in_partition_def filter_map comp_def del: upt_Suc)

text \<open>Reading partitions that hold \<open>placed\<close>: each element once, and those of a partition in order.\<close>

lemma reading_order:
  assumes "\<And>p. in_partition p received = in_partition p placed"
  obtains ks where "map snd received = map (\<lambda>k. snd (placed ! k)) ks" "set ks = {..<length placed}" "distinct ks" "length ks = length received"
    "\<And>i j. i < j \<Longrightarrow> j < length ks \<Longrightarrow> fst (received ! i) = fst (received ! j) \<Longrightarrow> ks ! i < ks ! j"
proof -
  define L where "L p = filter (\<lambda>k. fst (placed ! k) = p) [0..<length placed]" for p
  have "in_partition p received = map (\<lambda>k. snd (placed ! k)) (L p)" for p
    by (simp only: assms [of p] in_partition_placed [of p placed] L_def)
  from interleaving [OF this] obtain ks where ks: "length ks = length received" "map snd received = map (\<lambda>k. snd (placed ! k)) ks"
    "\<forall>p. in_partition p (zip (map fst received) ks) = L p" by blast
  let ?zs = "zip (map fst received) ks"
  have zs: "?zs ! i = (fst (received ! i), ks ! i)" if "i < length ks" for i using that ks(1) by simp
  have mem: "k \<in> set (L p) \<longleftrightarrow> (p, k) \<in> set ?zs" for k p
    unfolding ks(3) [rule_format, symmetric] in_partition_def by force
  have up: "ks ! i < ks ! j" if "i < j" "j < length ks" "fst (received ! i) = fst (received ! j)" for i j
  proof -
    have "sorted_wrt (\<lambda>x y. snd x < snd y) (filter (\<lambda>x. fst x = fst (received ! i)) ?zs)"
      using ks(3) [rule_format, of "fst (received ! i)"] sorted_wrt_upt [of 0 "length placed"]
      by (metis L_def in_partition_def sorted_wrt_filter sorted_wrt_map)
    have "i < length ks" using that by simp
    from sorted_wrt_filter_nth [OF \<open>sorted_wrt _ (filter _ ?zs)\<close> that(1)] that(2,3) ks(1) zs [OF this] zs [OF that(2)]
    show ?thesis by simp
  qed
  have from_L: "ks ! i < length placed \<and> fst (placed ! (ks ! i)) = fst (received ! i)" if "i < length ks" for i
  proof -
    have "?zs ! i \<in> set ?zs" using that ks(1) by (intro nth_mem) simp
    then have "ks ! i \<in> set (L (fst (received ! i)))" using that by (simp only: mem zs)
    then show ?thesis by (simp add: L_def)
  qed
  have "ks ! i \<noteq> ks ! j" if "i < j" "j < length ks" for i j
    using up [OF that] from_L [of i] from_L [of j] that by (metis less_irrefl order.strict_trans)
  then have "distinct ks" by (metis distinct_conv_nth nat_neq_iff)
  moreover have "set ks = {..<length placed}"
  proof
    show "set ks \<subseteq> {..<length placed}" using from_L by (auto simp: in_set_conv_nth)
    show "{..<length placed} \<subseteq> set ks"
    proof
      fix k assume "k \<in> {..<length placed}"
      then have "k \<in> set (L (fst (placed ! k)))" by (simp add: L_def)
      then show "k \<in> set ks" unfolding mem by (rule set_zip_rightD)
    qed
  qed
  ultimately show thesis using that ks(1,2) up by blast
qed

section \<open>Properties\<close>

text \<open>C21. What the encrypting producer sends, the consumer decrypts: when the producer ends normally, its broker, which keeps the
  topic in partitions, has the ten messages, and a consumer that gets each partition in its order, in any interleaving,
  prints the bytes of each of them exactly once, with the time at which it was made, and stops at none; two messages
  of the same partition are printed in the order in which they were sent.\<close>

theorem secrets_arrive:
  assumes "crypto_ok cr" "keeps_sent api logs" "aes_producer cr dumps api w = (Inr (), w')" "\<And>p. logs w p = []"
    and "\<And>p. in_partition p received = logs w' p"
  shows "\<exists>ks. distinct ks \<and> set ks = {..<10} \<and>
    aes_consumer cr (map snd received) = (map (\<lambda>k. utf8 (secret_text dumps (secret_time cr dumps api w k))) ks, None) \<and>
    (\<forall>i j. i < j \<and> j < 10 \<and> fst (received ! i) = fst (received ! j) \<longrightarrow> ks ! i < ks ! j)"
proof -
  from send_secrets_run [OF assms(1,2) assms(3) [unfolded aes_producer_def]] obtain placed where
    p: "length placed = 10" "\<forall>p. logs w' p = logs w p @ in_partition p placed"
      "\<forall>k<10. encrypted_value_deserializer cr (snd (placed ! k)) = Inr (utf8 (secret_text dumps (secret_time cr dumps api w k)))" by blast
  then have "in_partition q received = in_partition q placed" for q by (simp add: assms(4,5))
  then obtain ks where ks: "map snd received = map (\<lambda>k. snd (placed ! k)) ks" "set ks = {..<length placed}" "distinct ks"
    "\<And>i j. i < j \<Longrightarrow> j < length ks \<Longrightarrow> fst (received ! i) = fst (received ! j) \<Longrightarrow> ks ! i < ks ! j"
    using reading_order [of received placed] by metis
  have "length ks = 10" using distinct_card [OF ks(3)] ks(2) p(1) by simp
  moreover have "aes_consumer cr (map snd received) = (map (\<lambda>k. utf8 (secret_text dumps (secret_time cr dumps api w k))) ks, None)"
    unfolding ks(1) using p(1,3) ks(2) by (intro aes_consumer_reads) auto
  ultimately show ?thesis using ks p(1) by (intro exI [of _ ks]) auto
qed

section \<open>Runs\<close>

text \<open>PKCS 7 as it is specified, and a cipher that adds the key to every byte.\<close>

definition pkcs7 :: "int \<Rightarrow> byte list \<Rightarrow> byte list" where
  "pkcs7 bits data =
     (let k = nat (bits div 8); n = k - length data mod k in data @ replicate n (word_of_nat n))"

definition unpkcs7 :: "int \<Rightarrow> byte list \<Rightarrow> byte list res" where
  "unpkcs7 bits p =
     (if p = [] then Inl (ValueError ''Invalid padding bytes.'')
      else (let n = unat (last p) in
        if 0 < n \<and> n \<le> nat (bits div 8) \<and> n \<le> length p \<and> drop (length p - n) p = replicate n (last p)
        then Inr (take (length p - n) p) else Inl (ValueError ''Invalid padding bytes.'')))"

definition demo_crypto :: crypto where
  "demo_crypto = \<lparr>pkcs7_pad = (\<lambda>bits data. Inr (pkcs7 bits data)), pkcs7_unpad = unpkcs7,
     cbc_encrypt = (\<lambda>k iv p. Inr (map (\<lambda>b. b + hd k) p)), cbc_decrypt = (\<lambda>k iv c. Inr (map (\<lambda>b. b - hd k) c))\<rparr>"

lemma unpkcs7_pkcs7: "16 dvd length (pkcs7 128 data) \<and> unpkcs7 128 (pkcs7 128 data) = Inr data"
proof -
  define n where "n = 16 - length data mod 16"
  have m: "length data mod 16 < 16" by simp
  then have n: "0 < n" "n \<le> 16" by (simp_all add: n_def)
  have p: "pkcs7 128 data = data @ replicate n (word_of_nat n)"
    by (simp add: pkcs7_def Let_def n_def)
  have u: "unat (word_of_nat n :: byte) = n"
    using n by (simp add: unat_of_nat)
  have "16 dvd length data + n"
    using m unfolding n_def by presburger
  with n u show ?thesis by (simp add: p unpkcs7_def Let_def)
qed

lemma demo_crypto_ok: "crypto_ok demo_crypto"
  using unpkcs7_pkcs7 by (auto simp: crypto_ok_def pad_ok_def cbc_ok_def demo_crypto_def comp_def)

text \<open>A broker with two partitions in turn: its world is the number of values it took and the two logs.\<close>

definition demo_secret_broker :: "(nat \<times> (nat \<Rightarrow> string list)) secret_broker" where
  "demo_secret_broker = \<lparr>broker_time = (\<lambda>w. replicate (fst w) (CHR ''i'')),
     broker_send = (\<lambda>topic v (n, logs). (Inr (), Suc n, logs(n mod 2 := logs (n mod 2) @ [v]))), broker_flush = (\<lambda>w. (Inr (), w))\<rparr>"

lemma demo_keeps_sent: "keeps_sent demo_secret_broker snd"
  by (auto simp: keeps_sent_def demo_secret_broker_def)

lemma demo_secrets_sent:
  assumes "\<forall>p\<ge>2. snd w p = []"
  shows "\<exists>w'. send_secrets demo_crypto dumps demo_secret_broker n w = (Inr (), w') \<and> (\<forall>p\<ge>2. snd w' p = [])"
  using assms
proof (induction n arbitrary: w)
  case (Suc n)
  obtain m logs where w: "w = (m, logs)" by force
  obtain v where "encrypt demo_crypto (utf8 (secret_text dumps (replicate m (CHR ''i'')))) = Inr v"
    using decrypt_encrypt [OF demo_crypto_ok] by blast
  with Suc.IH [of "(Suc m, logs(m mod 2 := logs (m mod 2) @ [v]))"] Suc.prems w show ?case
    by (simp add: abind_def send_secret_def encrypted_value_serializer_def demo_secret_broker_def)
qed (simp add: demo_secret_broker_def)

lemma in_partition_map: "in_partition p (map (Pair q) xs) = (if p = q then xs else [])"
  by (auto simp: in_partition_def filter_map comp_def)

theorem secrets_arrive_witness:
  "\<exists>w' ks. aes_producer demo_crypto (\<lambda>_. ''{}'') demo_secret_broker (0, \<lambda>_. []) = (Inr (), w') \<and> distinct ks \<and> set ks = {..<10} \<and>
     aes_consumer demo_crypto (snd w' 1 @ snd w' 0) =
       (map (\<lambda>k. utf8 (secret_text (\<lambda>_. ''{}'') (secret_time demo_crypto (\<lambda>_. ''{}'') demo_secret_broker (0, \<lambda>_. []) k))) ks, None)"
proof -
  obtain w' where w': "aes_producer demo_crypto (\<lambda>_. ''{}'') demo_secret_broker (0, \<lambda>_. []) = (Inr (), w')" "\<forall>p\<ge>2. snd w' p = []"
    using demo_secrets_sent [of "(0, \<lambda>_. [])" "\<lambda>_. ''{}''" 10] unfolding aes_producer_def by auto
  let ?received = "map (Pair 1) (snd w' 1) @ map (Pair (0::nat)) (snd w' 0)"
  have "in_partition p ?received = snd w' p" for p
  proof -
    have "in_partition p (xs @ ys) = in_partition p xs @ in_partition p ys" for xs ys :: "(nat \<times> string) list"
      by (simp add: in_partition_def)
    then have "in_partition p ?received = (if p = 1 then snd w' 1 else []) @ (if p = 0 then snd w' 0 else [])"
      by (simp only: in_partition_map)
    also have "\<dots> = snd w' p" using w'(2) by (cases "p = 0"; cases "p = 1") auto
    finally show ?thesis .
  qed
  from secrets_arrive [OF demo_crypto_ok demo_keeps_sent w'(1) _ this] obtain ks where
    "distinct ks" "set ks = {..<10}" "aes_consumer demo_crypto (map snd ?received) =
       (map (\<lambda>k. utf8 (secret_text (\<lambda>_. ''{}'') (secret_time demo_crypto (\<lambda>_. ''{}'') demo_secret_broker (0, \<lambda>_. []) k))) ks, None)" by auto
  with w'(1) show ?thesis by (intro exI [of _ w'] exI [of _ ks]) (simp add: comp_def)
qed

end
