(* ===== verification/DebeziumConnector.thy ===== *)
theory DebeziumConnector
  imports PyJson PyState
begin

text \<open>
  \<open>debezium_pg.py\<close> (\<open>kafka/python/connector\<close>): the script that creates a PostgreSQL and a Kafka service,
  waits for them, creates the topic, the Debezium connector and the table, and then stores and reads
  sensor data. The Aiven client, the database, Kafka and the sensors are parameters: their answers
  may depend on the number of calls made before, and each call takes some time of the monotonic clock,
  which is counted in milliseconds. The client's \<open>Error\<close> is the \<open>ServiceError\<close>, the
  \<open>OperationalError\<close> of psycopg2 the \<open>ConnectionError\<close>. The state keeps the effects in their order.
\<close>

section \<open>The world and the state\<close>

record world =
  took :: "nat \<Rightarrow> nat"
  authenticate :: "nat \<Rightarrow> json \<Rightarrow> json \<Rightarrow> json res"
  get_service :: "nat \<Rightarrow> json \<Rightarrow> json \<Rightarrow> json res"
  create_service :: "nat \<Rightarrow> json \<Rightarrow> json \<Rightarrow> string \<Rightarrow> string \<Rightarrow> json res"
  update_service :: "nat \<Rightarrow> json \<Rightarrow> json \<Rightarrow> json res"
  create_service_topic :: "nat \<Rightarrow> json \<Rightarrow> json \<Rightarrow> json \<Rightarrow> unit res"
  list_kafka_connectors :: "nat \<Rightarrow> json \<Rightarrow> json \<Rightarrow> json res"
  create_kafka_connector :: "nat \<Rightarrow> json \<Rightarrow> json \<Rightarrow> json \<Rightarrow> unit res"
  pg_connect :: "nat \<Rightarrow> json \<Rightarrow> unit res"
  pg_execute :: "nat \<Rightarrow> string \<Rightarrow> json list \<Rightarrow> unit res"
  project_ca :: "nat \<Rightarrow> json \<Rightarrow> json res"
  read_file :: "string \<Rightarrow> string res"

datatype action =
    MadeService json string
  | EnabledConnect json
  | MadeTopic json
  | MadeConnector json
  | RanSql string "json list"
  | WroteFile string json

record connector =
  calls :: nat
  now :: nat
  actions :: "action list"
  auth_token :: json
  pg :: json
  kafka :: json
  topic_name :: json

type_synonym 'a conn_run = "(connector, 'a) run"

text \<open>A call of the world: the clock moves on.\<close>

definition call :: "world \<Rightarrow> (nat \<Rightarrow> 'a res) \<Rightarrow> 'a conn_run" where
  "call w f = (\<lambda>s. (f (calls s), s\<lparr>calls := calls s + 1, now := now s + took w (calls s)\<rparr>))"

definition update :: "(connector \<Rightarrow> connector) \<Rightarrow> unit conn_run" where
  "update f = (\<lambda>s. (Inr (), f s))"

definition look :: "(connector \<Rightarrow> 'a res) \<Rightarrow> 'a conn_run" where
  "look f = (\<lambda>s. (f s, s))"

definition act :: "action \<Rightarrow> unit conn_run" where
  "act a = update (\<lambda>s. s\<lparr>actions := actions s @ [a]\<rparr>)"

definition conf :: "(string, json) dict \<Rightarrow> string \<Rightarrow> json conn_run" where
  "conf config k = aret (ditem config k)"

section \<open>The timeout decorator\<close>

text \<open>
  The decorated function runs until it asks for no other round, every round followed by a sleep of at least
  three seconds, as long as the clock is below the limit. The result says whether it was done; \<open>None\<close>
  means that the fuel did not last.
\<close>

definition sleep_ms :: "world \<Rightarrow> nat \<Rightarrow> connector \<Rightarrow> connector" where
  "sleep_ms w ms s = s\<lparr>calls := calls s + 1, now := now s + ms + took w (calls s)\<rparr>"

fun timed_loop :: "world \<Rightarrow> nat \<Rightarrow> nat \<Rightarrow> bool conn_run \<Rightarrow> connector \<Rightarrow> (bool res \<times> connector) option" where
  "timed_loop w 0 limit func s = None"
| "timed_loop w (Suc fuel) limit func s =
     (if now s < limit then
        (case func s of
           (Inl e, t) \<Rightarrow> Some (Inl e, t)
         | (Inr again, t) \<Rightarrow>
             (if again then timed_loop w fuel limit func (sleep_ms w 3000 t) else Some (Inr True, t)))
      else Some (Inr False, s))"

definition timeout :: "world \<Rightarrow> nat \<Rightarrow> bool conn_run \<Rightarrow> connector \<Rightarrow> (bool res \<times> connector) option" where
  "timeout w stop_after func s =
     timed_loop w (stop_after div 3 + 2) (now s + stop_after * 1000) func s"

section \<open>The steps\<close>

definition login :: "world \<Rightarrow> (string, json) dict \<Rightarrow> json \<Rightarrow> unit conn_run" where
  "login w config token =
     abind
       (if truthy token then aret (Inr token)
        else abind (conf config ''email'') (\<lambda>email. abind (conf config ''password'') (\<lambda>password.
             abind (call w (\<lambda>n. authenticate w n email password)) (\<lambda>r. aret (py_item r ''token'')))))
       (\<lambda>token. update (\<lambda>s. s\<lparr>auth_token := token\<rparr>))"

text \<open>\<open>json.loads(e)["message"]\<close>: an exception is not a string, and \<open>json.loads\<close> refuses it.\<close>

definition get_error_message :: "exn \<Rightarrow> json res" where
  "get_error_message e = Inl (TypeError ''the JSON object must be str, bytes or bytearray'')"

text \<open>\<open>try: body except Error: handler\<close>\<close>

definition except_error :: "(exn \<Rightarrow> bool) \<Rightarrow> 'a conn_run \<Rightarrow> (exn \<Rightarrow> 'a conn_run) \<Rightarrow> 'a conn_run" where
  "except_error caught body handler =
     (\<lambda>s. case body s of
        (Inl e, t) \<Rightarrow> if caught e then handler e t else (Inl e, t)
      | (Inr x, t) \<Rightarrow> (Inr x, t))"

definition is_client_error :: "exn \<Rightarrow> bool" where
  "is_client_error e = (case e of ServiceError _ \<Rightarrow> True | _ \<Rightarrow> False)"

definition is_operational_error :: "exn \<Rightarrow> bool" where
  "is_operational_error e = (case e of ConnectionError _ \<Rightarrow> True | _ \<Rightarrow> False)"

definition make_service :: "world \<Rightarrow> (string, json) dict \<Rightarrow> string \<Rightarrow> string \<Rightarrow> string \<Rightarrow> json conn_run" where
  "make_service w config name_key kind plan =
     abind (conf config ''project'') (\<lambda>project. abind (conf config name_key) (\<lambda>name.
     abind (call w (\<lambda>n. create_service w n project name kind plan)) (\<lambda>r.
     abind (act (MadeService name kind)) (\<lambda>_. aret (Inr r)))))"

definition find_service :: "world \<Rightarrow> (string, json) dict \<Rightarrow> string \<Rightarrow> json conn_run" where
  "find_service w config name_key =
     abind (conf config ''project'') (\<lambda>project. abind (conf config name_key) (\<lambda>name.
       call w (\<lambda>n. get_service w n project name)))"

definition ensure_kafka_connect :: "world \<Rightarrow> (string, json) dict \<Rightarrow> unit conn_run" where
  "ensure_kafka_connect w config =
     abind (find_service w config ''kafka_name'') (\<lambda>r.
     abind (update (\<lambda>s. s\<lparr>kafka := r\<rparr>)) (\<lambda>_.
     abind (aret (rbind (py_item r ''user_config'') (\<lambda>u. py_item u ''kafka_connect''))) (\<lambda>enabled.
       if truthy enabled then aret (Inr ())
       else abind (conf config ''project'') (\<lambda>project. abind (conf config ''kafka_name'') (\<lambda>name.
            abind (call w (\<lambda>n. update_service w n project name)) (\<lambda>r.
            abind (act (EnabledConnect name)) (\<lambda>_. update (\<lambda>s. s\<lparr>kafka := r\<rparr>))))))))"

definition create_services :: "world \<Rightarrow> (string, json) dict \<Rightarrow> unit conn_run" where
  "create_services w config =
     abind
       (except_error is_client_error
         (abind (find_service w config ''pg_name'') (\<lambda>r. update (\<lambda>s. s\<lparr>pg := r\<rparr>)))
         (\<lambda>_. abind (make_service w config ''pg_name'' ''pg'' ''hobbyist'') (\<lambda>r. update (\<lambda>s. s\<lparr>pg := r\<rparr>))))
       (\<lambda>_. except_error is_client_error
         (ensure_kafka_connect w config)
         (\<lambda>_. abind (make_service w config ''kafka_name'' ''kafka'' ''business-4'') (\<lambda>r. update (\<lambda>s. s\<lparr>kafka := r\<rparr>))))"

text \<open>True asks for another round.\<close>

definition services_waiting :: "world \<Rightarrow> (string, json) dict \<Rightarrow> bool conn_run" where
  "services_waiting w config =
     abind (find_service w config ''kafka_name'') (\<lambda>k. abind (update (\<lambda>s. s\<lparr>kafka := k\<rparr>)) (\<lambda>_.
     abind (find_service w config ''pg_name'') (\<lambda>p. abind (update (\<lambda>s. s\<lparr>pg := p\<rparr>)) (\<lambda>_.
     abind (aret (py_item p ''state'')) (\<lambda>ps. abind (aret (py_item k ''state'')) (\<lambda>ks.
       aret (Inr (\<not> (py_eq ps (JStr ''RUNNING'') \<and> py_eq ks (JStr ''RUNNING''))))))))))"

definition wait_for_running :: "world \<Rightarrow> (string, json) dict \<Rightarrow> connector \<Rightarrow> (bool res \<times> connector) option" where
  "wait_for_running w config = timeout w 300 (services_waiting w config)"

text \<open>Is there an element whose entry for the key equals the value?\<close>

fun find_named :: "string \<Rightarrow> json \<Rightarrow> json list \<Rightarrow> bool res" where
  "find_named key v [] = Inr False"
| "find_named key v (x # xs) =
     rbind (py_item x key) (\<lambda>y. if py_eq y v then Inr True else find_named key v xs)"

text \<open>\<open>f"{v}.public.sensor_temperature"\<close>, of a name that is a string.\<close>

definition topic_of :: "json \<Rightarrow> json res" where
  "topic_of p =
     rbind (py_item p ''service_name'') (\<lambda>v.
       case v of JStr s \<Rightarrow> Inr (JStr (s @ ''.public.sensor_temperature'')) | _ \<Rightarrow> Inl (TypeError ''service_name''))"

definition create_topic :: "world \<Rightarrow> (string, json) dict \<Rightarrow> unit conn_run" where
  "create_topic w config =
     abind (look (\<lambda>s. if truthy (topic_name s) then Inr (topic_name s) else topic_of (pg s))) (\<lambda>name.
     abind (update (\<lambda>s. s\<lparr>topic_name := name\<rparr>)) (\<lambda>_.
     abind (look (\<lambda>s. rbind (py_item (kafka s) ''topics'') (\<lambda>ts. rbind (py_iter ts) (find_named ''topic_name'' name)))) (\<lambda>found.
       if found then aret (Inr ())
       else abind (conf config ''project'') (\<lambda>project. abind (conf config ''kafka_name'') (\<lambda>kn.
            abind (call w (\<lambda>n. create_service_topic w n project kn name)) (\<lambda>_. act (MadeTopic name)))))))"

definition connector_round :: "world \<Rightarrow> (string, json) dict \<Rightarrow> json \<Rightarrow> bool conn_run" where
  "connector_round w config connector_config =
     except_error is_client_error
       (abind (conf config ''project'') (\<lambda>project. abind (conf config ''kafka_name'') (\<lambda>kn.
        abind (call w (\<lambda>n. list_kafka_connectors w n project kn)) (\<lambda>connectors.
        abind (aret (rbind (py_item connectors ''connectors'') (\<lambda>cs. rbind (py_iter cs) (\<lambda>cs.
                 if cs = [] then Inr False
                 else rbind (py_item connector_config ''name'') (\<lambda>name. find_named ''name'' name cs))))) (\<lambda>found.
          if found then aret (Inr False)
          else abind (call w (\<lambda>n. create_kafka_connector w n project kn connector_config)) (\<lambda>_.
               abind (act (MadeConnector connector_config)) (\<lambda>_. aret (Inr False))))))))
       (\<lambda>e. abind (aret (get_error_message e)) (\<lambda>_. aret (Inr True)))"

text \<open>The settings of the connector that come from the PostgreSQL service.\<close>

definition set_item :: "string \<Rightarrow> json res \<Rightarrow> (string, json) dict res \<Rightarrow> (string, json) dict res" where
  "set_item k v d = rbind d (\<lambda>d. rbind v (\<lambda>v. Inr (dset d k v)))"

definition uri_param :: "json \<Rightarrow> string \<Rightarrow> json res" where
  "uri_param p k = rbind (py_item p ''service_uri_params'') (\<lambda>u. py_item u k)"

definition connector_settings :: "json \<Rightarrow> (string, json) dict \<Rightarrow> (string, json) dict res" where
  "connector_settings p d =
     set_item ''database.server.name'' (py_item p ''service_name'')
    (set_item ''database.dbname'' (uri_param p ''dbname'')
    (set_item ''database.password'' (uri_param p ''password'')
    (set_item ''database.user'' (uri_param p ''user'')
    (set_item ''database.port'' (uri_param p ''port'')
    (set_item ''database.hostname'' (uri_param p ''host'') (Inr d))))))"

definition create_conector ::
  "world \<Rightarrow> (string, json) dict \<Rightarrow> (string \<Rightarrow> (string, json) dict res) \<Rightarrow> connector \<Rightarrow> (bool res \<times> connector) option" where
  "create_conector w config parse s =
     (case rbind (rbind (read_file w ''debezium_pg.json'') parse) (connector_settings (pg s)) of
        Inl e \<Rightarrow> Some (Inl e, s)
      | Inr d \<Rightarrow> timeout w 300 (connector_round w config (JObj d)) s)"

definition table_round :: "world \<Rightarrow> bool conn_run" where
  "table_round w =
     abind
       (except_error is_operational_error
         (abind (look (\<lambda>s. py_item (pg s) ''service_uri'')) (\<lambda>uri.
          abind (call w (\<lambda>n. pg_connect w n uri)) (\<lambda>_. aret (Inr True))))
         (\<lambda>e. abind (aret (get_error_message e)) (\<lambda>_. aret (Inr False))))
       (\<lambda>connected.
         if \<not> connected then aret (Inr True)
         else abind (aret (read_file w ''sensor_temperature.sql'')) (\<lambda>sql.
              abind (call w (\<lambda>n. pg_execute w n sql [])) (\<lambda>_.
              abind (act (RanSql sql [])) (\<lambda>_. aret (Inr False)))))"

definition create_table_pg :: "world \<Rightarrow> connector \<Rightarrow> (bool res \<times> connector) option" where
  "create_table_pg w = timeout w 300 (table_round w)"

definition write_file :: "string \<Rightarrow> json res \<Rightarrow> unit conn_run" where
  "write_file name content = abind (aret content) (\<lambda>c. act (WroteFile name c))"

definition create_cert_files :: "world \<Rightarrow> (string, json) dict \<Rightarrow> unit conn_run" where
  "create_cert_files w config =
     abind (conf config ''project'') (\<lambda>project.
     abind (call w (\<lambda>n. project_ca w n project)) (\<lambda>ca.
     abind (write_file ''cafile'' (py_item ca ''certificate'')) (\<lambda>_.
     abind (look (\<lambda>s. rbind (py_item (kafka s) ''connection_info'') (\<lambda>i. py_item i ''kafka_access_cert''))) (\<lambda>cert.
     abind (write_file ''certfile'' (Inr cert)) (\<lambda>_.
     abind (look (\<lambda>s. rbind (py_item (kafka s) ''connection_info'') (\<lambda>i. py_item i ''kafka_access_key''))) (\<lambda>key.
       write_file ''keyfile'' (Inr key)))))))"

text \<open>The rows of the sensors whose label starts with C: a label and a temperature each.\<close>

fun store_rows :: "world \<Rightarrow> json \<Rightarrow> (string \<times> json) list \<Rightarrow> unit conn_run" where
  "store_rows w host [] = aret (Inr ())"
| "store_rows w host ((label, current) # cores) =
     (if label \<noteq> [] \<and> hd label = CHR ''C'' then
        abind (call w (\<lambda>n. pg_execute w n ''INSERT INTO sensor_temperature (device, label, temperature) VALUES (%s, %s, %s);''
          [host, JStr label, current])) (\<lambda>_.
        abind (act (RanSql ''INSERT INTO sensor_temperature (device, label, temperature) VALUES (%s, %s, %s);''
          [host, JStr label, current])) (\<lambda>_. store_rows w host cores))
      else store_rows w host cores)"

definition store_sensor_data :: "world \<Rightarrow> json \<Rightarrow> (string \<times> json) list \<Rightarrow> unit conn_run" where
  "store_sensor_data w host cores =
     abind (look (\<lambda>s. py_item (pg s) ''service_uri'')) (\<lambda>uri.
     abind (call w (\<lambda>n. pg_connect w n uri)) (\<lambda>_. store_rows w host cores))"

text \<open>The steps of \<open>run\<close>, up to the reading of the topic: a step that timed out is not noticed.\<close>

definition obind :: "('a res \<times> connector) option \<Rightarrow> ('a \<Rightarrow> connector \<Rightarrow> ('b res \<times> connector) option) \<Rightarrow> ('b res \<times> connector) option" where
  "obind r f =
     (case r of
        None \<Rightarrow> None
      | Some (Inl e, s) \<Rightarrow> Some (Inl e, s)
      | Some (Inr x, s) \<Rightarrow> f x s)"

definition run_connector ::
  "world \<Rightarrow> (string, json) dict \<Rightarrow> (string \<Rightarrow> (string, json) dict res) \<Rightarrow> json \<Rightarrow> (string \<times> json) list \<Rightarrow>
   connector \<Rightarrow> (unit res \<times> connector) option" where
  "run_connector w config parse host cores s =
     obind (Some (abind (conf config ''token'') (login w config) s)) (\<lambda>_ s.
     obind (Some (create_services w config s)) (\<lambda>_ s.
     obind (wait_for_running w config s) (\<lambda>_ s.
     obind (Some (create_topic w config s)) (\<lambda>_ s.
     obind (create_conector w config parse s) (\<lambda>_ s.
     obind (create_table_pg w s) (\<lambda>_ s.
     obind (Some (store_sensor_data w host cores s)) (\<lambda>_ s.
       Some (create_cert_files w config s))))))))"

section \<open>The clock\<close>

named_theorems forward "runs that do not turn the clock back"

definition forwards :: "'a conn_run \<Rightarrow> bool" where
  "forwards m \<longleftrightarrow> (\<forall>s. now s \<le> now (snd (m s)))"

lemma forwards_basic [forward]:
  "forwards (aret r)" "forwards (call w f)" "forwards (look g)" "forwards (conf config k)"
  "(\<And>s. now (u s) = now s) \<Longrightarrow> forwards (update u)"
  by (simp_all add: forwards_def call_def look_def conf_def update_def)

lemma forwards_act [forward]: "forwards (act a)"
  by (simp add: act_def forward)

lemma forwards_abind [forward]:
  assumes "forwards m" "\<And>x. forwards (f x)"
  shows "forwards (abind m f)"
  unfolding forwards_def
proof
  fix s
  obtain r t where m: "m s = (r, t)" by force
  then have "now s \<le> now t" using assms(1) by (metis forwards_def snd_conv)
  moreover have "now t \<le> now (snd (f x t))" for x using assms(2) by (simp add: forwards_def)
  ultimately show "now s \<le> now (snd (abind m f s))"
    using m by (auto simp: abind_def intro: order_trans split: sum.split)
qed

lemma forwards_except [forward]:
  assumes "forwards m" "\<And>e. forwards (h e)"
  shows "forwards (except_error c m h)"
  unfolding forwards_def
proof
  fix s
  obtain r t where m: "m s = (r, t)" by force
  then have "now s \<le> now t" using assms(1) by (metis forwards_def snd_conv)
  moreover have "now t \<le> now (snd (h x t))" for x using assms(2) by (simp add: forwards_def)
  ultimately show "now s \<le> now (snd (except_error c m h s))"
    using m by (auto simp: except_error_def intro: order_trans split: sum.split)
qed

lemma forwards_if [forward]: "forwards a \<Longrightarrow> forwards b \<Longrightarrow> forwards (if c then a else b)"
  by simp

lemma forwards_rounds:
  "forwards (services_waiting w config)" "forwards (connector_round w config c)" "forwards (table_round w)"
  unfolding services_waiting_def connector_round_def table_round_def find_service_def
  by (intro forward; simp)+

lemma timed_loop_ends:
  assumes "forwards func"
  shows "limit \<le> now s + 3000 * fuel \<Longrightarrow> 0 < fuel \<or> limit \<le> now s \<Longrightarrow> \<exists>r t. timed_loop w (Suc fuel) limit func s = Some (r, t)"
proof (induction fuel arbitrary: s)
  case (Suc fuel)
  obtain r t where f: "func s = (r, t)" by force
  then have "now s \<le> now t" using assms by (metis forwards_def snd_conv)
  with Suc.prems have "limit \<le> now (sleep_ms w 3000 t) + 3000 * fuel" by (simp add: sleep_ms_def)
  with Suc.IH [of "sleep_ms w 3000 t"] f show ?case
    by (cases "0 < fuel \<or> limit \<le> now (sleep_ms w 3000 t)") (auto split: sum.split)
qed simp

lemma timeout_returns:
  assumes "forwards func"
  shows "\<exists>r t. timeout w stop_after func s = Some (r, t)"
  unfolding timeout_def
  using timed_loop_ends [OF assms, of "now s + stop_after * 1000" s "stop_after div 3 + 1" w] by simp

lemma timeout_raises: "func s = (Inl e, t) \<Longrightarrow> 0 < stop_after \<Longrightarrow> timeout w stop_after func s = Some (Inl e, t)"
  by (simp add: timeout_def)

section \<open>Properties\<close>

text \<open>C38. Every run of the script up to the reading of the topic ends, whatever the services answer: the waits are
  bounded by the clock, which every call and every sleep moves on.\<close>

theorem connector_run_ends:
  "\<exists>r t. run_connector w config parse host cores s = Some (r, t)"
proof -
  have o: "\<exists>r t. obind x f = Some (r, t)" if "\<exists>r t. x = Some (r, t)" "\<And>y s. \<exists>r t. f y s = Some (r, t)" for x f
    using that by (auto simp: obind_def split: sum.split)
  have some: "\<exists>r t. Some p = Some (r, t)" for p :: "'x res \<times> connector" by (cases p) auto
  have c: "\<exists>r t. create_conector w config parse s = Some (r, t)" for s
    using timeout_returns [OF forwards_rounds(2)] by (auto simp: create_conector_def split: sum.split)
  show ?thesis
    unfolding run_connector_def
    by (intro o some c; simp add: wait_for_running_def create_table_pg_def timeout_returns forwards_rounds)
qed

text \<open>While Kafka Connect is not yet available the script means to wait: instead the first error of the client
  ends it with a \<open>TypeError\<close>, since the message of the error is read with \<open>json.loads\<close> of the exception;
  the same holds for the first failed connection to the database.\<close>

theorem first_error_aborts:
  assumes "rbind (rbind (read_file w ''debezium_pg.json'') parse) (connector_settings (pg s)) = Inr d"
    and "ditem config ''project'' = Inr project" "ditem config ''kafka_name'' = Inr name"
    and "list_kafka_connectors w (calls s) project name = Inl (ServiceError m)"
    and "py_item (pg s) ''service_uri'' = Inr uri" "pg_connect w (calls s) uri = Inl (ConnectionError m)"
  shows "(\<exists>x t. create_conector w config parse s = Some (Inl (TypeError x), t) \<and> actions t = actions s \<and> calls t = calls s + 1) \<and>
    (\<exists>x t. create_table_pg w s = Some (Inl (TypeError x), t) \<and> actions t = actions s \<and> calls t = calls s + 1)"
proof -
  have "connector_round w config (JObj d) s =
      (Inl (TypeError ''the JSON object must be str, bytes or bytearray''), s\<lparr>calls := calls s + 1, now := now s + took w (calls s)\<rparr>)"
    using assms(2-4)
    by (simp add: connector_round_def except_error_def conf_def abind_def call_def is_client_error_def get_error_message_def)
  moreover have "table_round w s =
      (Inl (TypeError ''the JSON object must be str, bytes or bytearray''), s\<lparr>calls := calls s + 1, now := now s + took w (calls s)\<rparr>)"
    using assms(5,6)
    by (simp add: table_round_def except_error_def look_def abind_def call_def is_operational_error_def get_error_message_def)
  ultimately show ?thesis
    using assms(1) by (simp add: create_conector_def create_table_pg_def timeout_raises)
qed

text \<open>The topic is named after the PostgreSQL service, and is created only when Kafka does not list it, once.\<close>

theorem topic_created_once:
  assumes "\<not> truthy (topic_name s)" "py_item (pg s) ''service_name'' = Inr (JStr name)"
    and "py_item (kafka s) ''topics'' = Inr (JList (map (\<lambda>n. JObj [(''topic_name'', JStr n)]) names))"
    and "ditem config ''project'' = Inr project" "ditem config ''kafka_name'' = Inr kn"
    and "\<And>n t. create_service_topic w n project kn t = Inr ()"
  shows "\<exists>t. create_topic w config s = (Inr (), t) \<and>
    topic_name t = JStr (name @ ''.public.sensor_temperature'') \<and>
    actions t = actions s @ (if name @ ''.public.sensor_temperature'' \<in> set names then [] else [MadeTopic (topic_name t)])"
proof -
  let ?topic = "name @ ''.public.sensor_temperature''"
  have "find_named ''topic_name'' (JStr t) (map (\<lambda>n. JObj [(''topic_name'', JStr n)]) names) = Inr (t \<in> set names)" for t
    by (induction names) (auto simp: py_item_def ditem_def)
  from this [of ?topic] assms show ?thesis
    by (simp add: create_topic_def look_def topic_of_def abind_def update_def conf_def call_def act_def py_iter_def)
qed

section \<open>Runs\<close>

definition demo_world :: world where
  "demo_world =
     \<lparr>took = (\<lambda>_. 200), authenticate = (\<lambda>_ _ _. Inr (JObj [(''token'', JStr ''t'')])),
      get_service = (\<lambda>_ _ _. Inl (ServiceError ''404'')), create_service = (\<lambda>_ _ _ _ _. Inr (JObj [])),
      update_service = (\<lambda>_ _ _. Inr (JObj [])), create_service_topic = (\<lambda>_ _ _ _. Inr ()),
      list_kafka_connectors = (\<lambda>_ _ _. Inl (ServiceError ''503'')), create_kafka_connector = (\<lambda>_ _ _ _. Inr ()),
      pg_connect = (\<lambda>_ _. Inl (ConnectionError ''503'')), pg_execute = (\<lambda>_ _ _. Inr ()),
      project_ca = (\<lambda>_ _. Inr (JObj [(''certificate'', JStr ''pem'')])), read_file = (\<lambda>_. Inr ''{}'')\<rparr>"

definition demo_connector :: connector where
  "demo_connector =
     \<lparr>calls = 0, now = 0, actions = [], auth_token = JNull,
      pg = JObj [(''service_name'', JStr ''pg-demo''), (''service_uri'', JStr ''postgres://''),
        (''service_uri_params'', JObj [(''host'', JStr ''h''), (''port'', JStr ''1''), (''user'', JStr ''u''), (''password'', JStr ''p''), (''dbname'', JStr ''d'')])],
      kafka = JObj [(''topics'', JList (map (\<lambda>n. JObj [(''topic_name'', JStr n)]) [''other'']))], topic_name = JNull\<rparr>"

definition demo_settings :: "(string, json) dict" where
  "demo_settings = [(''project'', JStr ''demo''), (''kafka_name'', JStr ''k''), (''pg_name'', JStr ''p'')]"

theorem first_error_aborts_witness:
  "\<exists>x t. create_table_pg demo_world demo_connector = Some (Inl (TypeError x), t)"
proof -
  have d: "\<exists>d. rbind (rbind (read_file demo_world ''debezium_pg.json'') (\<lambda>_. Inr [(''name'', JStr ''c'')])) (connector_settings (pg demo_connector)) = Inr d"
    by (simp add: demo_world_def demo_connector_def connector_settings_def set_item_def uri_param_def py_item_def ditem_def)
  then obtain d where "rbind (rbind (read_file demo_world ''debezium_pg.json'') (\<lambda>_. Inr [(''name'', JStr ''c'')])) (connector_settings (pg demo_connector)) = Inr d"
    by blast
  moreover have "ditem demo_settings ''project'' = Inr (JStr ''demo'')" "ditem demo_settings ''kafka_name'' = Inr (JStr ''k'')"
    "list_kafka_connectors demo_world (calls demo_connector) (JStr ''demo'') (JStr ''k'') = Inl (ServiceError ''503'')"
    "py_item (pg demo_connector) ''service_uri'' = Inr (JStr ''postgres://'')"
    "pg_connect demo_world (calls demo_connector) (JStr ''postgres://'') = Inl (ConnectionError ''503'')"
    by (simp_all add: demo_settings_def demo_world_def demo_connector_def py_item_def ditem_def)
  ultimately have "\<exists>x t. create_table_pg demo_world demo_connector = Some (Inl (TypeError x), t) \<and>
      actions t = actions demo_connector \<and> calls t = calls demo_connector + 1"
    using first_error_aborts by blast
  then show ?thesis by blast
qed

theorem topic_created_once_witness:
  "\<exists>t. create_topic demo_world demo_settings demo_connector = (Inr (), t) \<and>
     actions t = [MadeTopic (JStr ''pg-demo.public.sensor_temperature'')]"
  using topic_created_once [of demo_connector "''pg-demo''" "[''other'']" demo_settings "JStr ''demo''" "JStr ''k''" demo_world]
  by (auto simp: demo_settings_def demo_world_def demo_connector_def py_item_def ditem_def)

end
