(* ===== verification/DebeziumMain.thy ===== *)
theory DebeziumMain
  imports DebeziumConnector
begin

text \<open>
  The rest of \<open>debezium_pg.py\<close>: the configuration from the arguments, the environment and the prompts, the reading of the
  topic, and the whole program, which is the steps of \<open>DebeziumConnector\<close> between the two.
\<close>

section \<open>The configuration\<close>

definition AIVEN_API_URL :: string where
  "AIVEN_API_URL = ''https://api.aiven.io''"

text \<open>A variable of the environment, or \<open>None\<close>; and one that gives way to a default when it is empty, too.\<close>

definition env_or_none :: "(string, string) dict \<Rightarrow> string \<Rightarrow> json" where
  "env_or_none environ k = (case dget environ k of None \<Rightarrow> JNull | Some v \<Rightarrow> JStr v)"

definition env_or :: "(string, string) dict \<Rightarrow> string \<Rightarrow> string \<Rightarrow> json" where
  "env_or environ k v0 = (if truthy (env_or_none environ k) then env_or_none environ k else JStr v0)"

definition option_defaults :: "(string, string) dict \<Rightarrow> (string, json) dict" where
  "option_defaults environ =
     [(''token'', env_or_none environ ''AIVEN_TOKEN''), (''email'', env_or_none environ ''AIVEN_EMAIL''),
      (''password'', env_or_none environ ''AIVEN_PASSWORD''), (''project'', env_or_none environ ''AIVEN_PROJECT''),
      (''url'', env_or environ ''AIVEN_API_URL'' AIVEN_API_URL), (''pg_name'', env_or environ ''AIVEN_PG_NAME'' ''pgconnector''),
      (''kafka_name'', env_or environ ''AIVEN_KAFKA_NAME'' ''kafkaconnector'')]"

text \<open>The options that were given take the place of the defaults.\<close>

definition parsed_options :: "(string, string) dict \<Rightarrow> (string \<Rightarrow> string option) \<Rightarrow> (string, json) dict" where
  "parsed_options environ given =
     map (\<lambda>(k, v). (k, case given k of None \<Rightarrow> v | Some x \<Rightarrow> JStr x)) (option_defaults environ)"

text \<open>What is missing is asked for; \<open>ask\<close> is \<open>input\<close> and \<open>getpass\<close>.\<close>

definition ask_for :: "(string \<Rightarrow> string res) \<Rightarrow> string \<Rightarrow> string \<Rightarrow> (string, json) dict \<Rightarrow> (string, json) dict res" where
  "ask_for ask k prompt config =
     (if truthy (dget_or config k JNull) then Inr config
      else rbind (ask prompt) (\<lambda>v. Inr (dset config k (JStr v))))"

definition complete_options :: "(string \<Rightarrow> string res) \<Rightarrow> (string, json) dict \<Rightarrow> (string, json) dict res" where
  "complete_options ask config =
     rbind
       (if \<not> (truthy (dget_or config ''token'' JNull) \<or>
              truthy (dget_or config ''email'' JNull) \<and> truthy (dget_or config ''password'' JNull))
        then rbind (ask_for ask ''email'' ''Username (email): '' config) (ask_for ask ''password'' ''Password: '')
        else Inr config)
       (ask_for ask ''project'' ''Project name: '')"

section \<open>Reading the topic\<close>

record topic_reading =
  shown_payloads :: "(int \<times> json) list"
  offsets_committed :: bool
  consumer_closed :: bool

text \<open>A message has its offset and its value; a value that is none has no \<open>decode\<close>.\<close>

definition show_payload :: "(string \<Rightarrow> json res) \<Rightarrow> topic_reading \<Rightarrow> int \<times> string option \<Rightarrow> exn option \<times> topic_reading" where
  "show_payload loads s m =
     (case rbind (case snd m of None \<Rightarrow> Inl (AttributeError ''decode'') | Some v \<Rightarrow> loads v) (\<lambda>d. py_item d ''after'') of
        Inl e \<Rightarrow> (Some e, s)
      | Inr after \<Rightarrow> (None, s\<lparr>shown_payloads := shown_payloads s @ [(fst m, after)]\<rparr>))"

text \<open>An interrupt commits and closes; any other exception leaves the consumer as it is. \<open>None\<close>: it reads on.\<close>

definition read_from_kafka :: "(string \<Rightarrow> json res) \<Rightarrow> (exn + int \<times> string option) list \<Rightarrow> (exn option \<times> topic_reading) option" where
  "read_from_kafka loads messages =
     (case iterate (show_payload loads) messages \<lparr>shown_payloads = [], offsets_committed = False, consumer_closed = False\<rparr> of
        (None, s) \<Rightarrow> None
      | (Some e, s) \<Rightarrow>
          if e = KeyboardInterrupt then Some (None, s\<lparr>offsets_committed := True, consumer_closed := True\<rparr>)
          else Some (Some e, s))"

section \<open>The program\<close>

text \<open>The state before the first step: no service is known, and nothing was called.\<close>

definition connector0 :: connector where
  "connector0 = \<lparr>calls = 0, now = 0, actions = [], auth_token = JNull, pg = JNull, kafka = JNull, topic_name = JNull\<rparr>"

definition debezium_main ::
  "world \<Rightarrow> (string, string) dict \<Rightarrow> (string \<Rightarrow> string option) \<Rightarrow> (string \<Rightarrow> string res) \<Rightarrow> (string \<Rightarrow> (string, json) dict res) \<Rightarrow>
   json \<Rightarrow> (string \<times> json) list \<Rightarrow> (string \<Rightarrow> json res) \<Rightarrow> (exn + int \<times> string option) list \<Rightarrow>
   (exn option \<times> connector \<times> topic_reading option) option" where
  "debezium_main w environ given ask parse host cores loads messages =
     (case complete_options ask (parsed_options environ given) of
        Inl e \<Rightarrow> Some (Some e, connector0, None)
      | Inr config \<Rightarrow>
          (case run_connector w config parse host cores connector0 of
             None \<Rightarrow> None
           | Some (Inl e, s) \<Rightarrow> Some (Some e, s, None)
           | Some (Inr _, s) \<Rightarrow>
               (case read_from_kafka loads messages of
                  None \<Rightarrow> None
                | Some (e, r) \<Rightarrow> Some (e, s, Some r))))"

section \<open>Facts\<close>

lemma ask_for_keeps:
  assumes "ask_for ask k prompt config = Inr config'"
  shows "(k' \<noteq> k \<longrightarrow> dget config' k' = dget config k') \<and>
    (truthy (dget_or config k JNull) \<longrightarrow> config' = config) \<and> (dget config k \<noteq> None \<longrightarrow> dget config' k \<noteq> None)"
  using assms by (auto simp: ask_for_def rbind_eq_Inr pd.get_put split: if_splits)

text \<open>Every option has a value in the end, and one that was given or set in the environment is not asked for.\<close>

lemma complete_options_keeps:
  assumes "complete_options ask (parsed_options environ given) = Inr config" "k \<in> fst ` set (option_defaults environ)"
  shows "dget config k \<noteq> None"
proof -
  have "fst ` set (parsed_options environ given) = fst ` set (option_defaults environ)"
    by (force simp: parsed_options_def)
  with assms(2) have k: "dget (parsed_options environ given) k \<noteq> None" by (simp add: dget_eq_None)
  have step: "dget c' k \<noteq> None" if "ask_for ask x p c = Inr c'" "dget c k \<noteq> None" for x p c c'
    using ask_for_keeps [OF that(1), of k] that(2) by (cases "k = x") auto
  from assms(1) obtain c where "c = parsed_options environ given \<or>
      (\<exists>c1. ask_for ask ''email'' ''Username (email): '' (parsed_options environ given) = Inr c1 \<and> ask_for ask ''password'' ''Password: '' c1 = Inr c)"
    and "ask_for ask ''project'' ''Project name: '' c = Inr config"
    by (auto simp: complete_options_def rbind_eq_Inr split: if_splits)
  with step k show ?thesis by blast
qed

text \<open>What is shown are the first messages, with their offsets, in order; only an interrupt commits them.\<close>

lemma show_payloads_prefix:
  "iterate (show_payload loads) messages s = (e, t) \<Longrightarrow>
     \<exists>ms rest. values_of messages = ms @ rest \<and>
       list_all2 (\<lambda>m p. fst p = fst m \<and> (\<exists>v d. snd m = Some v \<and> loads v = Inr d \<and> py_item d ''after'' = Inr (snd p)))
         ms (drop (length (shown_payloads s)) (shown_payloads t)) \<and>
       take (length (shown_payloads s)) (shown_payloads t) = shown_payloads s"
proof (induction messages arbitrary: s)
  case Nil
  then show ?case by simp
next
  case (Cons ev messages)
  show ?case
  proof (cases ev)
    case (Inl x)
    with Cons.prems show ?thesis by - (rule exI [of _ "[]"], rule exI [of _ "values_of messages"], auto)
  next
    case (Inr m)
    obtain r s1 where r: "show_payload loads s m = (r, s1)" by force
    show ?thesis
    proof (cases r)
      case (Some x)
      with Cons.prems Inr r show ?thesis
        by - (rule exI [of _ "[]"], rule exI [of _ "m # values_of messages"], auto simp: show_payload_def split: sum.splits)
    next
      case None
      with r obtain v d a where v: "snd m = Some v" "loads v = Inr d" "py_item d ''after'' = Inr a"
          "s1 = s\<lparr>shown_payloads := shown_payloads s @ [(fst m, a)]\<rparr>"
        by (auto simp: show_payload_def rbind_eq_Inr split: sum.splits option.splits)
      from None Cons.prems Inr r have "iterate (show_payload loads) messages s1 = (e, t)" by simp
      from Cons.IH [OF this] obtain ms rest where
        i: "values_of messages = ms @ rest"
          "list_all2 (\<lambda>m p. fst p = fst m \<and> (\<exists>v d. snd m = Some v \<and> loads v = Inr d \<and> py_item d ''after'' = Inr (snd p)))
             ms (drop (length (shown_payloads s1)) (shown_payloads t))"
          "take (length (shown_payloads s1)) (shown_payloads t) = shown_payloads s1" by blast
      let ?n = "length (shown_payloads s)"
      from i(3) v(4) have "take (Suc ?n) (shown_payloads t) = shown_payloads s @ [(fst m, a)]" by simp
      then have "shown_payloads t = shown_payloads s @ [(fst m, a)] @ drop (Suc ?n) (shown_payloads t)"
        by (metis append_assoc append_take_drop_id)
      then have "take ?n (shown_payloads t) = shown_payloads s" "drop ?n (shown_payloads t) = (fst m, a) # drop (Suc ?n) (shown_payloads t)"
        by (metis append_eq_conv_conj, metis append_Cons append_Nil append_eq_conv_conj)
      with i v Inr show ?thesis
        by - (rule exI [of _ "m # ms"], rule exI [of _ rest], auto)
    qed
  qed
qed

end
