(* ===== verification/Transitions.thy ===== *)
theory Transitions
  imports PyPrelude
begin

text \<open>
  Transition systems for the programs whose threads run interleaved: the states that can be reached, invariants by
  induction on the steps, and the interface \<open>simulation\<close>: a concrete system whose steps are steps of an
  abstract one, or no step of it, under an abstraction function, as long as an invariant of its own holds.
\<close>

inductive reach :: "('s \<Rightarrow> bool) \<Rightarrow> ('s \<Rightarrow> 's \<Rightarrow> bool) \<Rightarrow> 's \<Rightarrow> bool"
  for init :: "'s \<Rightarrow> bool" and step :: "'s \<Rightarrow> 's \<Rightarrow> bool" where
  reach_init [intro]: "init s \<Longrightarrow> reach init step s"
| reach_step: "reach init step s \<Longrightarrow> step s t \<Longrightarrow> reach init step t"

lemma reach_invariant:
  assumes "\<And>s. init s \<Longrightarrow> P s" "\<And>s t. reach init step s \<Longrightarrow> P s \<Longrightarrow> step s t \<Longrightarrow> P t"
  shows "reach init step s \<Longrightarrow> P s"
  by (induction rule: reach.induct) (auto intro: assms)

lemma reach_many: "reach init step s \<Longrightarrow> step\<^sup>*\<^sup>* s t \<Longrightarrow> reach init step t"
  by (rotate_tac 1, induction rule: rtranclp_induct) (auto intro: reach_step)

locale simulation =
  fixes cinit :: "'c \<Rightarrow> bool"
    and cstep :: "'c \<Rightarrow> 'c \<Rightarrow> bool"
    and inv :: "'c \<Rightarrow> bool"
    and ainit :: "'a \<Rightarrow> bool"
    and astep :: "'a \<Rightarrow> 'a \<Rightarrow> bool"
    and abst :: "'c \<Rightarrow> 'a"
  assumes inv_init: "cinit s \<Longrightarrow> inv s"
    and inv_step: "inv s \<Longrightarrow> cstep s t \<Longrightarrow> inv t"
    and sim_init: "cinit s \<Longrightarrow> ainit (abst s)"
    and sim_step: "inv s \<Longrightarrow> cstep s t \<Longrightarrow> abst t = abst s \<or> astep (abst s) (abst t)"
begin

lemma reach_inv: "reach cinit cstep s \<Longrightarrow> inv s"
  by (induction rule: reach.induct) (auto intro: inv_init inv_step)

lemma simulated: "reach cinit cstep s \<Longrightarrow> reach ainit astep (abst s)"
proof (induction rule: reach.induct)
  case (reach_step s t)
  with sim_step [OF reach_inv] have "abst t = abst s \<or> astep (abst s) (abst t)" by blast
  with reach_step show ?case by (auto intro: reach.reach_step)
qed (auto intro: sim_init)

text \<open>What holds in every abstract state holds of what the concrete system reaches.\<close>

lemma transfer:
  assumes "\<And>a. reach ainit astep a \<Longrightarrow> Q a" "reach cinit cstep s"
  shows "Q (abst s)"
  using assms simulated by blast

end

end
