(* ===== verification/DisklessTest.thy ===== *)
theory DisklessTest
  imports PyJson PyStr PyState Transitions
begin

text \<open>
  \<open>test.py\<close> of \<open>debezium-diskless\<close>: a producer thread that inserts rows into PostgreSQL and publishes their ids,
  a consumer thread that reads the changes which Debezium captured from Kafka, and the main thread that compares the
  two sets. The operations of each thread are functions of the state the threads share; the database,
  Debezium and Kafka choose what they get: the ids of the rows, the messages, the time and the failures.
\<close>

section \<open>Preparing the run\<close>

text \<open>
  \<open>get_terraform_output\<close> exits with status 1 when the command fails. \<open>run\<close> is \<open>subprocess.run\<close>: the output, \<open>None\<close> for the
  \<open>CalledProcessError\<close> that is handled, or an exception that is not, as when there is no such command.
\<close>

definition get_terraform_output :: "(string \<Rightarrow> string option res) \<Rightarrow> string \<Rightarrow> string res" where
  "get_terraform_output run name =
     rbind (run name) (\<lambda>out. case out of Some out \<Rightarrow> Inr (strip out) | None \<Rightarrow> Inl (SystemExit 1))"

definition terraform_outputs :: "string list" where
  "terraform_outputs =
     [''postgres_service_uri'', ''kafka_service_uri'', ''topic_name'', ''table_name'', ''kafka_ca_cert'',
      ''kafka_certificate'', ''kafka_access_key'']"

text \<open>The certificates: each is written, and the key made private; any exception is reported as \<open>False\<close>.\<close>

record 'w files =
  save_file :: "string \<Rightarrow> string \<Rightarrow> ('w, unit) run"
  chmod :: "string \<Rightarrow> int \<Rightarrow> ('w, unit) run"
  rmtree :: "string \<Rightarrow> 'w \<Rightarrow> 'w"

definition certificate_path :: "string \<Rightarrow> string \<Rightarrow> string" where
  "certificate_path cert_dir name = (if cert_dir = [] \<or> last cert_dir = CHR ''/'' then cert_dir @ name else cert_dir @ ''/'' @ name)"

definition create_certificate_files ::
  "('w, 'z) files_scheme \<Rightarrow> string \<Rightarrow> string \<Rightarrow> string \<Rightarrow> string \<Rightarrow> ('w, bool) run" where
  "create_certificate_files fs ca_cert access_cert access_key cert_dir =
     acatch
       (abind (save_file fs (certificate_path cert_dir ''ca.pem'') ca_cert) (\<lambda>_.
        abind (save_file fs (certificate_path cert_dir ''service.cert'') access_cert) (\<lambda>_.
        abind (save_file fs (certificate_path cert_dir ''service.key'') access_key) (\<lambda>_.
        abind (chmod fs (certificate_path cert_dir ''service.key'') 384) (\<lambda>_.
        aret (Inr True))))))
       (\<lambda>e. if is_Exception e then Inr False else Inl e)"

text \<open>
  What \<open>main\<close> does before the threads: the outputs are read, a directory is made for the certificates, and without them the
  test ends with status 1. The directory is removed in that case, and at the end of every other.
\<close>

definition prepare_test ::
  "(string \<Rightarrow> string option res) \<Rightarrow> ('w, 'z) files_scheme \<Rightarrow> ('w, string) run \<Rightarrow> ('w, string list \<times> string) run" where
  "prepare_test run fs mkdtemp =
     abind (aret (rmap (get_terraform_output run) terraform_outputs)) (\<lambda>outs.
     abind mkdtemp (\<lambda>cert_dir.
     abind (create_certificate_files fs (outs ! 4) (outs ! 5) (outs ! 6) cert_dir) (\<lambda>made. \<lambda>w.
       if \<not> made then (Inl (SystemExit 1), rmtree fs cert_dir w) else (Inr (outs, cert_dir), w))))"

section \<open>The table\<close>

definition required_columns :: "(string \<times> string \<times> string) list" where
  "required_columns =
     [(''id'', ''SERIAL PRIMARY KEY'', ''SERIAL''), (''name'', ''VARCHAR(100)'', ''VARCHAR(100)''),
      (''value'', ''INTEGER'', ''INTEGER''), (''test_run_id'', ''VARCHAR(100)'', ''VARCHAR(100)''),
      (''created_at'', ''TIMESTAMP DEFAULT CURRENT_TIMESTAMP'', ''TIMESTAMP DEFAULT CURRENT_TIMESTAMP'')]"

definition missing_columns :: "string set \<Rightarrow> (string \<times> string) list" where
  "missing_columns existing =
     map (\<lambda>(name, create_def, alter_def). (name, alter_def)) (filter (\<lambda>(name, _). name \<notin> existing) required_columns)"

text \<open>The columns that are added: \<open>id\<close> is skipped when the table has columns already.\<close>

definition added_columns :: "string set \<Rightarrow> (string \<times> string) list" where
  "added_columns existing = filter (\<lambda>(name, _). \<not> (name = ''id'' \<and> existing \<noteq> {})) (missing_columns existing)"

datatype sql_statement =
    CreateTable string "(string \<times> string) list"
  | SelectColumns string
  | AddColumn string string string
  | InsertRow string string int string
  | CommitAll

record 'w sql_connection =
  exec_statement :: "sql_statement \<Rightarrow> ('w, unit) run"
  fetch_columns :: "('w, string set) run"
  sleep2 :: "('w, unit) run"

text \<open>Adding a column: whatever goes wrong is printed only.\<close>

fun add_columns :: "('w, 'z) sql_connection_scheme \<Rightarrow> string \<Rightarrow> (string \<times> string) list \<Rightarrow> ('w, unit) run" where
  "add_columns conn table_name [] = aret (Inr ())"
| "add_columns conn table_name ((name, col_def) # cols) =
     abind (acatch (exec_statement conn (AddColumn table_name name col_def)) (\<lambda>e. if is_Exception e then Inr () else Inl e)) (\<lambda>_.
       add_columns conn table_name cols)"

definition prepare_table :: "('w, 'z) sql_connection_scheme \<Rightarrow> string \<Rightarrow> ('w, unit) run" where
  "prepare_table conn table_name =
     abind (exec_statement conn (CreateTable table_name (map (\<lambda>(name, create_def, _). (name, create_def)) required_columns))) (\<lambda>_.
     abind (exec_statement conn CommitAll) (\<lambda>_.
     abind (exec_statement conn (SelectColumns table_name)) (\<lambda>_.
     abind (fetch_columns conn) (\<lambda>existing.
     abind (if missing_columns existing \<noteq> [] then
              abind (add_columns conn table_name (added_columns existing)) (\<lambda>_. exec_statement conn CommitAll)
            else aret (Inr ())) (\<lambda>_.
     sleep2 conn)))))"

text \<open>The row number \<open>i\<close> of the run.\<close>

definition test_row :: "string \<Rightarrow> string \<Rightarrow> int \<Rightarrow> sql_statement" where
  "test_row table_name run_id i = InsertRow table_name (''test_record_'' @ show_int i) (i * 10) run_id"

text \<open>The consumer reads what comes after it subscribed, and commits by hand.\<close>

definition test_consumer_config :: "string \<Rightarrow> string \<Rightarrow> string \<Rightarrow> (string, json) dict" where
  "test_consumer_config kafka_uri cert_dir run_id =
     [(''bootstrap.servers'', JStr kafka_uri),
      (''group.id'', JStr (''debezium-test-consumer-'' @ (if run_id = [] then ''default'' else run_id))),
      (''auto.offset.reset'', JStr ''latest''), (''security.protocol'', JStr ''ssl''),
      (''ssl.ca.location'', JStr (certificate_path cert_dir ''ca.pem'')),
      (''ssl.certificate.location'', JStr (certificate_path cert_dir ''service.cert'')),
      (''ssl.key.location'', JStr (certificate_path cert_dir ''service.key'')), (''enable.auto.commit'', JBool False)]"

section \<open>What a message says\<close>

text \<open>
  A message without a usable value is left without a commit of its offset; a change that is no insert, and an insert of another
  run, are committed; an insert of this run has the id of its row.
\<close>

datatype row_change = Unusable | Skipped | Foreign | Inserted json

definition change_of :: "(string \<Rightarrow> json res) \<Rightarrow> string \<Rightarrow> string option \<Rightarrow> row_change" where
  "change_of loads run_id v =
     (case v of
        None \<Rightarrow> Unusable
      | Some bytes \<Rightarrow>
          (case loads bytes of
             Inr (JObj message_data) \<Rightarrow>
               (let payload = (case dget message_data ''payload'' of Some p \<Rightarrow> p | None \<Rightarrow> JObj message_data) in
                if \<not> truthy payload then Unusable
                else
                  (case rbind (py_get payload ''op'' (JStr '''')) (\<lambda>op.
                        if op = JStr ''c'' \<or> op = JStr ''r'' then
                          rbind (py_get payload ''after'' (JObj [])) (\<lambda>after.
                          rbind (py_get after ''id'' JNull) (\<lambda>msg_id.
                          rbind (py_get after ''test_run_id'' JNull) (\<lambda>msg_run_id.
                            Inr (if run_id \<noteq> [] \<and> msg_run_id \<noteq> JStr run_id then Foreign else Inserted msg_id))))
                        else Inr Skipped) of
                     Inl e \<Rightarrow> Unusable
                   | Inr c \<Rightarrow> c))
           | _ \<Rightarrow> Unusable))"

section \<open>The state of the threads\<close>

datatype producer_pc = PIdle | PSetup | Inserting int | Committing int | Closing | Publishing | Disconnecting | PDone | PFailed

datatype consumer_pc = CStarting | CWaiting | CPolling | CVerifying | CDone | CFailed

datatype main_pc = MStarting | MJoining | MWaiting | MChecking | MComparing | MCompared "json set" | MDone | MInterrupted

record test_config =
  num_messages :: int
  batch_size :: int

record threads =
  ppc :: producer_pc
  inserted_ids_list :: "json list"
  committed_rows :: "json list"
  inserted_ids :: "json set"
  cpc :: consumer_pc
  deadline :: int
  last_message_time :: int
  message_count :: int
  received_ids :: "json set"
  offsets :: "int list"
  consumer_verdict :: "(json set \<times> json set) option"
  mpc :: main_pc
  main_verdict :: "(json set \<times> json set) option"
  test_completed :: bool

definition threads0 :: threads where
  "threads0 = \<lparr>ppc = PIdle, inserted_ids_list = [], committed_rows = [], inserted_ids = {}, cpc = CStarting, deadline = 0,
     last_message_time = 0, message_count = 0, received_ids = {}, offsets = [], consumer_verdict = None,
     mpc = MStarting, main_verdict = None, test_completed = False\<rparr>"

section \<open>The producer thread\<close>

text \<open>The loop goes on with row \<open>i\<close> or, after the last one, to the final commit.\<close>

definition next_row :: "test_config \<Rightarrow> int \<Rightarrow> producer_pc" where
  "next_row cfg i = (if i \<le> num_messages cfg then Inserting i else Closing)"

definition table_ready :: "test_config \<Rightarrow> threads \<Rightarrow> threads" where
  "table_ready cfg s = s\<lparr>ppc := next_row cfg 1\<rparr>"

text \<open>Row \<open>i\<close> is inserted under the id that the database returns; \<open>i % batch_size\<close> fails for a batch size of 0.\<close>

definition insert_row :: "test_config \<Rightarrow> json \<Rightarrow> int \<Rightarrow> threads \<Rightarrow> threads" where
  "insert_row cfg row_id i s =
     s\<lparr>inserted_ids_list := inserted_ids_list s @ [row_id],
       ppc := (if batch_size cfg = 0 then PFailed
               else if i mod batch_size cfg = 0 then Committing i else next_row cfg (i + 1))\<rparr>"

definition commit_rows :: "producer_pc \<Rightarrow> threads \<Rightarrow> threads" where
  "commit_rows pc s = s\<lparr>committed_rows := inserted_ids_list s, ppc := pc\<rparr>"

definition publish_ids :: "threads \<Rightarrow> threads" where
  "publish_ids s = s\<lparr>inserted_ids := inserted_ids s \<union> set (inserted_ids_list s), ppc := Disconnecting\<rparr>"

section \<open>The consumer thread\<close>

text \<open>The certificates are there, or the thread returns; the topic is ready, or it is waited for until the deadline.\<close>

definition check_certificates :: "bool \<Rightarrow> int \<Rightarrow> threads \<Rightarrow> threads" where
  "check_certificates exist now s =
     (if exist then s\<lparr>cpc := CWaiting, deadline := now + 180\<rparr> else s\<lparr>cpc := CDone\<rparr>)"

definition wait_for_topic :: "bool \<Rightarrow> int \<Rightarrow> threads \<Rightarrow> threads" where
  "wait_for_topic ready now s =
     (if ready then s\<lparr>cpc := CPolling, message_count := 0, last_message_time := now\<rparr>
      else if deadline s \<le> now then s\<lparr>cpc := CFailed\<rparr>
      else s)"

text \<open>
  What a poll gives. A message has its offset, and the commit of its offset succeeds or raises; an exception of the commit,
  as any other of the processing, is printed and the loop goes on.
\<close>

datatype poll_result =
    Nothing
  | EndOfPartition
  | ErrorMessage
  | PollRaises
  | Record int row_change bool

definition commit_offset :: "bool \<Rightarrow> int \<Rightarrow> threads \<Rightarrow> threads" where
  "commit_offset ok offset s = (if ok then s\<lparr>offsets := offsets s @ [offset]\<rparr> else s)"

definition process_change :: "test_config \<Rightarrow> int \<Rightarrow> row_change \<Rightarrow> bool \<Rightarrow> threads \<Rightarrow> threads" where
  "process_change cfg offset c commit_ok s =
     (case c of
        Unusable \<Rightarrow> s
      | Skipped \<Rightarrow> commit_offset commit_ok offset s
      | Foreign \<Rightarrow> commit_offset commit_ok offset s
      | Inserted msg_id \<Rightarrow>
          (let s = s\<lparr>message_count := message_count s + 1\<rparr> in
           if \<not> hashable msg_id then s
           else
             (let s = (if msg_id \<noteq> JNull then s\<lparr>received_ids := insert msg_id (received_ids s)\<rparr> else s) in
              if num_messages cfg \<le> message_count s then s\<lparr>cpc := CVerifying\<rparr>
              else commit_offset commit_ok offset s)))"

definition poll_once :: "test_config \<Rightarrow> int \<Rightarrow> poll_result \<Rightarrow> threads \<Rightarrow> threads" where
  "poll_once cfg now r s =
     (if \<not> message_count s < num_messages cfg then s\<lparr>cpc := CVerifying\<rparr>
      else
        (case r of
           Nothing \<Rightarrow> (if 120 < now - last_message_time s then s\<lparr>cpc := CVerifying\<rparr> else s)
         | EndOfPartition \<Rightarrow> s
         | ErrorMessage \<Rightarrow> s\<lparr>cpc := CVerifying\<rparr>
         | PollRaises \<Rightarrow> s\<lparr>cpc := CFailed\<rparr>
         | Record offset c commit_ok \<Rightarrow> process_change cfg offset c commit_ok (s\<lparr>last_message_time := now\<rparr>)))"

text \<open>The verification of the consumer compares with what the producer has published by then.\<close>

definition verify_received :: "threads \<Rightarrow> threads" where
  "verify_received s =
     s\<lparr>consumer_verdict := Some (inserted_ids s - received_ids s, received_ids s - inserted_ids s), cpc := CDone\<rparr>"

section \<open>The main thread\<close>

definition start_producer :: "threads \<Rightarrow> threads" where
  "start_producer s = s\<lparr>mpc := MJoining, ppc := PSetup\<rparr>"

text \<open>The final verification reads the two sets for the test, for the missing ids and for the extra ids, one after the other.\<close>

definition check_sets :: "threads \<Rightarrow> threads" where
  "check_sets s =
     (if inserted_ids s \<noteq> {} \<and> received_ids s \<noteq> {} then s\<lparr>mpc := MComparing\<rparr>
      else s\<lparr>mpc := MDone, test_completed := True\<rparr>)"

definition compare_missing :: "threads \<Rightarrow> threads" where
  "compare_missing s = s\<lparr>mpc := MCompared (inserted_ids s - received_ids s)\<rparr>"

definition compare_extra :: "json set \<Rightarrow> threads \<Rightarrow> threads" where
  "compare_extra missing s =
     s\<lparr>main_verdict := Some (missing, received_ids s - inserted_ids s), mpc := MDone, test_completed := True\<rparr>"

section \<open>Facts\<close>

text \<open>The two formats of a change, with a payload around it and without, are read alike.\<close>

lemma change_of_wrapped:
  assumes "loads a = Inr (JObj m)" "dget m ''payload'' = Some (JObj p)" "loads b = Inr (JObj p)" "dget p ''payload'' = None"
  shows "change_of loads run_id (Some a) = change_of loads run_id (Some b)"
  using assms by (simp add: change_of_def)

text \<open>What counts: an insert or a snapshot row with the id of the run.\<close>

lemma change_of_Inserted:
  assumes "change_of loads run_id v = Inserted i" "run_id \<noteq> []"
  shows "\<exists>bytes m p after. v = Some bytes \<and> loads bytes = Inr (JObj m) \<and>
    JObj p = (case dget m ''payload'' of Some p \<Rightarrow> p | None \<Rightarrow> JObj m) \<and> dget_or p ''op'' (JStr []) \<in> {JStr ''c'', JStr ''r''} \<and>
    JObj after = dget_or p ''after'' (JObj []) \<and> dget_or after ''test_run_id'' JNull = JStr run_id \<and> dget_or after ''id'' JNull = i"
proof -
  from assms(1) obtain bytes m where m: "v = Some bytes" "loads bytes = Inr (JObj m)"
    by (auto simp: change_of_def split: option.splits sum.splits json.splits)
  let ?p = "case dget m ''payload'' of Some p \<Rightarrow> p | None \<Rightarrow> JObj m"
  from assms m obtain op where op: "py_get ?p ''op'' (JStr []) = Inr op" "op = JStr ''c'' \<or> op = JStr ''r''"
      and r: "rbind (py_get ?p ''after'' (JObj [])) (\<lambda>after. rbind (py_get after ''id'' JNull) (\<lambda>msg_id.
        rbind (py_get after ''test_run_id'' JNull) (\<lambda>msg_run_id.
          Inr (if run_id \<noteq> [] \<and> msg_run_id \<noteq> JStr run_id then Foreign else Inserted msg_id)))) = Inr (Inserted i)"
    by (cases "py_get ?p ''op'' (JStr [])") (auto simp: change_of_def Let_def split: sum.splits if_splits)
  from op(1) obtain p where p: "?p = JObj p" "op = dget_or p ''op'' (JStr [])" by (auto simp: py_get_Inr)
  from r p(1) obtain a where a: "JObj a = dget_or p ''after'' (JObj [])" "dget_or a ''id'' JNull = i" "dget_or a ''test_run_id'' JNull = JStr run_id"
    using assms(2) by (auto simp: rbind_eq_Inr py_get_Inr split: if_splits)
  show ?thesis
    by (rule exI [of _ bytes], rule exI [of _ m], rule exI [of _ p], rule exI [of _ a]) (use m p op(2) a in auto)
qed

text \<open>After the columns are added the table has every required one, but for the id of a table that had columns already.\<close>

lemma columns_complete:
  assumes "(name, create_def, alter_def) \<in> set required_columns" "name \<noteq> ''id'' \<or> existing = {}"
  shows "name \<in> existing \<or> (name, alter_def) \<in> set (added_columns existing)"
proof (cases "name \<in> existing")
  case False
  with assms(1) have "(name, alter_def) \<in> set (missing_columns existing)"
    unfolding missing_columns_def by (force simp: image_iff)
  with assms(2) show ?thesis by (simp add: added_columns_def)
qed simp

end
