(* ===== verification/DisklessProps.thy ===== *)
theory DisklessProps
  imports DisklessTest
begin

text \<open>
  The interleavings of the threads of \<open>DisklessTest\<close> as a step relation, the invariants of what it reaches, and the refinement of
  the delivery that the test is about: ids become available, are seen, and a verdict is given.
\<close>

section \<open>The steps\<close>

text \<open>
  Debezium reports rows that were committed, more than once at times, and any other messages: an insert with the id
  of this run is one of its committed rows.
\<close>

definition honest :: "threads \<Rightarrow> poll_result \<Rightarrow> bool" where
  "honest s r = (case r of Record offset (Inserted v) ok \<Rightarrow> v \<in> set (committed_rows s) | _ \<Rightarrow> True)"

inductive test_step :: "test_config \<Rightarrow> threads \<Rightarrow> threads \<Rightarrow> bool" for cfg where
  producer_started: "mpc s = MStarting \<Longrightarrow> test_step cfg s (start_producer s)"
| table_prepared: "ppc s = PSetup \<Longrightarrow> test_step cfg s (table_ready cfg s)"
| row_inserted: "ppc s = Inserting i \<Longrightarrow> JInt k \<notin> set (inserted_ids_list s) \<Longrightarrow> test_step cfg s (insert_row cfg (JInt k) i s)"
| rows_committed: "ppc s = Committing i \<Longrightarrow> test_step cfg s (commit_rows (next_row cfg (i + 1)) s)"
| all_committed: "ppc s = Closing \<Longrightarrow> test_step cfg s (commit_rows Publishing s)"
| commit_unconfirmed: "ppc s = Committing i \<or> ppc s = Closing \<Longrightarrow> test_step cfg s (commit_rows PFailed s)"
| ids_published: "ppc s = Publishing \<Longrightarrow> test_step cfg s (publish_ids s)"
| producer_ended: "ppc s = Disconnecting \<Longrightarrow> test_step cfg s (s\<lparr>ppc := PDone\<rparr>)"
| producer_raised: "ppc s \<notin> {PIdle, PDone, PFailed} \<Longrightarrow> test_step cfg s (s\<lparr>ppc := PFailed\<rparr>)"
| certificates_checked: "cpc s = CStarting \<Longrightarrow> test_step cfg s (check_certificates exist now s)"
| topic_looked_up: "cpc s = CWaiting \<Longrightarrow> test_step cfg s (wait_for_topic ready now s)"
| message_polled: "cpc s = CPolling \<Longrightarrow> honest s r \<Longrightarrow> test_step cfg s (poll_once cfg now r s)"
| consumer_verified: "cpc s = CVerifying \<Longrightarrow> test_step cfg s (verify_received s)"
| consumer_raised: "cpc s \<notin> {CDone, CFailed} \<Longrightarrow> test_step cfg s (s\<lparr>cpc := CFailed\<rparr>)"
| producer_joined: "mpc s = MJoining \<Longrightarrow> ppc s \<in> {PDone, PFailed} \<Longrightarrow> test_step cfg s (s\<lparr>mpc := MWaiting\<rparr>)"
| consumer_joined_or_timeout: "mpc s = MWaiting \<Longrightarrow> test_step cfg s (s\<lparr>mpc := MChecking\<rparr>)"
| sets_checked: "mpc s = MChecking \<Longrightarrow> test_step cfg s (check_sets s)"
| missing_compared: "mpc s = MComparing \<Longrightarrow> test_step cfg s (compare_missing s)"
| extra_compared: "mpc s = MCompared missing \<Longrightarrow> test_step cfg s (compare_extra missing s)"
| main_interrupted: "mpc s \<noteq> MDone \<Longrightarrow> test_step cfg s (s\<lparr>mpc := MInterrupted\<rparr>)"

lemmas thread_ops = start_producer_def table_ready_def insert_row_def commit_rows_def publish_ids_def check_certificates_def
  wait_for_topic_def verify_received_def check_sets_def compare_missing_def compare_extra_def next_row_def

section \<open>Invariants\<close>

text \<open>The producer: where it is tells how many rows there are; what it published are all of them, committed.\<close>

definition rows_inv :: "test_config \<Rightarrow> threads \<Rightarrow> bool" where
  "rows_inv cfg s \<longleftrightarrow>
     (let rows = inserted_ids_list s; n = int (length rows) in
      distinct rows \<and> set (committed_rows s) \<subseteq> set rows \<and> (\<forall>v \<in> set rows. \<exists>k. v = JInt k) \<and>
      (case ppc s of
         PIdle \<Rightarrow> rows = []
       | PSetup \<Rightarrow> rows = []
       | Inserting i \<Rightarrow> n = i - 1 \<and> i \<le> num_messages cfg
       | Committing i \<Rightarrow> n = i \<and> i \<le> num_messages cfg
       | Closing \<Rightarrow> n = max 0 (num_messages cfg)
       | PFailed \<Rightarrow> True
       | _ \<Rightarrow> n = max 0 (num_messages cfg) \<and> committed_rows s = rows) \<and>
      (ppc s \<notin> {Disconnecting, PDone, PFailed} \<longrightarrow> inserted_ids s = {}) \<and>
      (inserted_ids s \<noteq> {} \<longrightarrow> n = max 0 (num_messages cfg) \<and> committed_rows s = rows \<and> inserted_ids s = set rows) \<and>
      (mpc s = MStarting \<longrightarrow> ppc s = PIdle))"

text \<open>The consumer: it received rows that were committed, and counted at least as many messages, at most those wanted.\<close>

definition received_inv :: "test_config \<Rightarrow> threads \<Rightarrow> bool" where
  "received_inv cfg s \<longleftrightarrow>
     received_ids s \<subseteq> set (committed_rows s) \<and> (\<forall>v \<in> set (committed_rows s). \<exists>k. v = JInt k) \<and>
     finite (received_ids s) \<and> int (card (received_ids s)) \<le> message_count s \<and>
     message_count s \<le> max 0 (num_messages cfg) \<and> (cpc s \<in> {CStarting, CWaiting} \<longrightarrow> received_ids s = {})"

text \<open>The main thread: its comparison is of published ids, and what it found missing covers what is missing still.\<close>

definition verdict_inv :: "threads \<Rightarrow> bool" where
  "verdict_inv s \<longleftrightarrow>
     (mpc s = MComparing \<longrightarrow> inserted_ids s \<noteq> {}) \<and>
     (\<forall>m. mpc s = MCompared m \<longrightarrow> inserted_ids s \<noteq> {} \<and> inserted_ids s - received_ids s \<subseteq> m) \<and>
     (\<forall>m x. main_verdict s = Some (m, x) \<longrightarrow> inserted_ids s \<noteq> {} \<and> inserted_ids s - received_ids s \<subseteq> m \<and> x = {})"

definition test_inv :: "test_config \<Rightarrow> threads \<Rightarrow> bool" where
  "test_inv cfg s \<longleftrightarrow> rows_inv cfg s \<and> received_inv cfg s \<and> verdict_inv s"

lemma process_change_frame:
  "ppc (process_change cfg off c ok s) = ppc s" "inserted_ids_list (process_change cfg off c ok s) = inserted_ids_list s"
  "committed_rows (process_change cfg off c ok s) = committed_rows s" "inserted_ids (process_change cfg off c ok s) = inserted_ids s"
  "mpc (process_change cfg off c ok s) = mpc s" "main_verdict (process_change cfg off c ok s) = main_verdict s"
  "received_ids s \<subseteq> received_ids (process_change cfg off c ok s)"
  by (auto simp: process_change_def commit_offset_def Let_def split: row_change.splits)

lemma poll_once_frame:
  "ppc (poll_once cfg now r s) = ppc s" "inserted_ids_list (poll_once cfg now r s) = inserted_ids_list s"
  "committed_rows (poll_once cfg now r s) = committed_rows s" "inserted_ids (poll_once cfg now r s) = inserted_ids s"
  "mpc (poll_once cfg now r s) = mpc s" "main_verdict (poll_once cfg now r s) = main_verdict s"
  by (auto simp: poll_once_def process_change_frame split: poll_result.splits)

lemma poll_once_completed: "test_completed (poll_once cfg now r s) = test_completed s"
  by (auto simp: poll_once_def process_change_def commit_offset_def Let_def split: poll_result.splits row_change.splits)

lemma poll_once_grows: "received_ids s \<subseteq> received_ids (poll_once cfg now r s)"
proof (cases r)
  case (Record off c ok)
  with process_change_frame(7) [of "s\<lparr>last_message_time := now\<rparr>" cfg off c ok] show ?thesis
    by (auto simp: poll_once_def)
qed (auto simp: poll_once_def)

lemma rows_inv_step: "test_step cfg s t \<Longrightarrow> rows_inv cfg s \<Longrightarrow> rows_inv cfg t"
  by (induction rule: test_step.induct)
    (auto simp: rows_inv_def Let_def thread_ops poll_once_frame split: if_splits producer_pc.splits)


text \<open>One message: an id received is that of a committed row, and every new id was counted.\<close>

lemma process_change_received:
  assumes "\<And>v. c = Inserted v \<Longrightarrow> v \<in> set (committed_rows s)" "finite (received_ids s)"
    "int (card (received_ids s)) \<le> message_count s" "message_count s < num_messages cfg"
  shows "received_ids (process_change cfg off c ok s) \<subseteq> received_ids s \<union> set (committed_rows s) \<and>
    finite (received_ids (process_change cfg off c ok s)) \<and>
    int (card (received_ids (process_change cfg off c ok s))) \<le> message_count (process_change cfg off c ok s) \<and>
    message_count (process_change cfg off c ok s) \<le> num_messages cfg \<and>
    cpc (process_change cfg off c ok s) \<in> {cpc s, CVerifying}"
proof (cases c)
  case (Inserted v)
  have "card (insert v (received_ids s)) \<le> card (received_ids s) + 1"
    by (simp add: card_insert_le_m1 card_insert_if)
  with assms Inserted show ?thesis
    by (auto simp: process_change_def commit_offset_def Let_def card_insert_if)
qed (use assms in \<open>auto simp: process_change_def commit_offset_def\<close>)

lemma poll_once_received:
  assumes "received_inv cfg s" "honest s r" "cpc s = CPolling"
  shows "received_inv cfg (poll_once cfg now r s)"
proof (cases r)
  case (Record off c ok)
  let ?s = "s\<lparr>last_message_time := now\<rparr>"
  show ?thesis
  proof (cases "message_count s < num_messages cfg")
    case True
    have "v \<in> set (committed_rows ?s)" if "c = Inserted v" for v
      using assms(2) Record that by (simp add: honest_def)
    from process_change_received [of c ?s cfg off ok, OF this] assms(1,3) True Record show ?thesis
      by (auto simp: received_inv_def poll_once_def process_change_frame)
  qed (use assms in \<open>auto simp: received_inv_def poll_once_def\<close>)
qed (use assms in \<open>auto simp: received_inv_def poll_once_def\<close>)

lemma received_inv_step: "test_step cfg s t \<Longrightarrow> rows_inv cfg s \<Longrightarrow> received_inv cfg s \<Longrightarrow> received_inv cfg t"
proof (induction rule: test_step.induct)
  case (message_polled s r now)
  then show ?case using poll_once_received by blast
qed (auto simp: received_inv_def rows_inv_def Let_def thread_ops split: if_splits)

lemma verdict_inv_step:
  "test_step cfg s t \<Longrightarrow> rows_inv cfg s \<Longrightarrow> received_inv cfg s \<Longrightarrow> verdict_inv s \<Longrightarrow> verdict_inv t"
proof (induction rule: test_step.induct)
  case (message_polled s r now)
  have "inserted_ids s - received_ids (poll_once cfg now r s) \<subseteq> inserted_ids s - received_ids s"
    using poll_once_grows by blast
  with message_polled.prems(3) show ?case
    unfolding verdict_inv_def poll_once_frame by (meson subset_trans)
qed (auto simp: verdict_inv_def received_inv_def rows_inv_def Let_def thread_ops split: if_splits)

definition test_init :: "threads \<Rightarrow> bool" where
  "test_init s \<longleftrightarrow> s = threads0"

lemma test_inv_init: "test_init s \<Longrightarrow> test_inv cfg s"
  by (simp add: test_init_def threads0_def test_inv_def rows_inv_def received_inv_def verdict_inv_def)

lemma test_inv_step: "test_inv cfg s \<Longrightarrow> test_step cfg s t \<Longrightarrow> test_inv cfg t"
  using rows_inv_step received_inv_step verdict_inv_step unfolding test_inv_def by blast

section \<open>The delivery the test is about\<close>

text \<open>
  Ids become available until the set is closed, only available ids are seen, and a verdict is given when
  the set is closed; it is positive only if all that is available was seen.
\<close>

record delivery =
  available :: "json set"
  seen :: "json set"
  closed :: bool
  judgement :: "bool option"

definition delivery_init :: "delivery \<Rightarrow> bool" where
  "delivery_init d \<longleftrightarrow> d = \<lparr>available = {}, seen = {}, closed = False, judgement = None\<rparr>"

inductive delivery_step :: "delivery \<Rightarrow> delivery \<Rightarrow> bool" where
  grown: "\<not> closed d \<Longrightarrow> available d \<subseteq> A \<Longrightarrow> delivery_step d (d\<lparr>available := A\<rparr>)"
| closed_now: "\<not> closed d \<Longrightarrow> delivery_step d (d\<lparr>closed := True\<rparr>)"
| seen_now: "v \<in> available d \<Longrightarrow> delivery_step d (d\<lparr>seen := insert v (seen d)\<rparr>)"
| judged: "closed d \<Longrightarrow> (b \<Longrightarrow> seen d = available d) \<Longrightarrow> delivery_step d (d\<lparr>judgement := Some b\<rparr>)"

text \<open>What the threads' state is of it.\<close>

definition delivery_of :: "threads \<Rightarrow> delivery" where
  "delivery_of s =
     \<lparr>available = set (committed_rows s), seen = received_ids s, closed = (inserted_ids s \<noteq> {}),
      judgement = map_option (\<lambda>(m, x). m = {} \<and> x = {}) (main_verdict s)\<rparr>"

text \<open>A message changes what is seen only, by one available id at most.\<close>

lemma process_change_seen:
  assumes "\<And>v. c = Inserted v \<Longrightarrow> v \<in> set (committed_rows s)"
  shows "received_ids (process_change cfg off c ok s) = received_ids s \<or>
    (\<exists>v \<in> set (committed_rows s). received_ids (process_change cfg off c ok s) = insert v (received_ids s))"
  using assms by (auto simp: process_change_def commit_offset_def Let_def split: row_change.splits)

lemma poll_once_seen:
  assumes "honest s r"
  shows "received_ids (poll_once cfg now r s) = received_ids s \<or>
    (\<exists>v \<in> set (committed_rows s). received_ids (poll_once cfg now r s) = insert v (received_ids s))"
proof (cases r)
  case (Record off c ok)
  have "v \<in> set (committed_rows (s\<lparr>last_message_time := now\<rparr>))" if "c = Inserted v" for v
    using assms Record that by (simp add: honest_def)
  from process_change_seen [of c "s\<lparr>last_message_time := now\<rparr>" cfg off ok, OF this] Record show ?thesis
    by (simp add: poll_once_def)
qed (auto simp: poll_once_def)

text \<open>A commit before the publication makes more ids available.\<close>

lemma commit_grown:
  assumes "test_inv cfg s" "ppc s \<notin> {Disconnecting, PDone, PFailed}"
  shows "delivery_step (delivery_of s) (delivery_of (commit_rows pc s))"
proof -
  from assms have "inserted_ids s = {}" "set (committed_rows s) \<subseteq> set (inserted_ids_list s)"
    by (simp_all add: test_inv_def rows_inv_def Let_def)
  with grown [of "delivery_of s" "set (inserted_ids_list s)"] show ?thesis
    by (simp add: delivery_of_def commit_rows_def)
qed

lemma delivery_simulated:
  assumes "test_inv cfg s" "test_step cfg s t"
  shows "delivery_of t = delivery_of s \<or> delivery_step (delivery_of s) (delivery_of t)"
  using assms(2,1)
proof (induction rule: test_step.induct)
  case (rows_committed s i)
  then show ?case using commit_grown [OF rows_committed.prems] by simp
next
  case (all_committed s)
  then show ?case using commit_grown [OF all_committed.prems] by simp
next
  case (commit_unconfirmed s i)
  then show ?case using commit_grown [OF commit_unconfirmed.prems] by auto
next
  case (ids_published s)
  then have e: "inserted_ids s = {}" by (auto simp: test_inv_def rows_inv_def Let_def)
  show ?case
  proof (cases "inserted_ids_list s = []")
    case False
    with e closed_now [of "delivery_of s"] show ?thesis by (simp add: delivery_of_def publish_ids_def)
  qed (simp add: delivery_of_def publish_ids_def)
next
  case (message_polled s r now)
  from poll_once_seen [OF message_polled(2), of cfg now] show ?case
    using seen_now [of _ "delivery_of s"] by (auto simp: delivery_of_def poll_once_frame)
next
  case (extra_compared s m)
  then have i: "inserted_ids s \<noteq> {}" "inserted_ids s - received_ids s \<subseteq> m" "inserted_ids s = set (committed_rows s)"
      "received_ids s \<subseteq> set (committed_rows s)"
    by (auto simp: test_inv_def verdict_inv_def rows_inv_def received_inv_def Let_def)
  then show ?case
    using judged [of "delivery_of s" "m = {} \<and> received_ids s - inserted_ids s = {}"]
    by (auto simp: delivery_of_def compare_extra_def)
qed (simp_all add: delivery_of_def thread_ops)

interpretation test: simulation test_init "test_step cfg" "test_inv cfg" delivery_init delivery_step delivery_of
  for cfg
proof unfold_locales
  show "test_init s \<Longrightarrow> test_inv cfg s" for s by (rule test_inv_init)
  show "test_inv cfg s \<Longrightarrow> test_step cfg s t \<Longrightarrow> test_inv cfg t" for s t by (rule test_inv_step)
  show "test_init s \<Longrightarrow> delivery_init (delivery_of s)" for s
    by (simp add: test_init_def threads0_def delivery_init_def delivery_of_def)
  show "test_inv cfg s \<Longrightarrow> test_step cfg s t \<Longrightarrow> delivery_of t = delivery_of s \<or> delivery_step (delivery_of s) (delivery_of t)" for s t
    by (rule delivery_simulated)
qed

text \<open>What the delivery promises: only available ids are seen, and a positive verdict means that all of a closed set were.\<close>

definition delivery_ok :: "delivery \<Rightarrow> bool" where
  "delivery_ok d \<longleftrightarrow> seen d \<subseteq> available d \<and> (judgement d = Some True \<longrightarrow> closed d \<and> seen d = available d)"

lemma delivery_promise: "reach delivery_init delivery_step d \<Longrightarrow> delivery_ok d"
proof (erule reach_invariant [rotated 2])
  show "delivery_init s \<Longrightarrow> delivery_ok s" for s by (simp add: delivery_init_def delivery_ok_def)
  show "delivery_ok s \<Longrightarrow> delivery_step s t \<Longrightarrow> delivery_ok t" for s t
    by (rotate_tac 1, induction rule: delivery_step.induct) (auto simp: delivery_ok_def)
qed

section \<open>Properties\<close>

text \<open>C6. The threads implement the delivery: whatever order their steps are taken in, what they reach is a state of the
  delivery, in which only available ids are seen and a positive verdict means that all were.\<close>

theorem threads_refine_delivery:
  assumes "reach test_init (test_step cfg) s"
  shows "reach delivery_init delivery_step (delivery_of s) \<and> delivery_ok (delivery_of s)"
  using test.simulated [OF assms] delivery_promise by blast

text \<open>C5. The final verification is sound: it never finds an extra id, and when it finds none missing, every row of the run was
  inserted, committed and received, as many as were asked for.\<close>

theorem final_verdict_sound:
  assumes "reach test_init (test_step cfg) s" "main_verdict s = Some (missing, extra)"
  shows "extra = {} \<and>
    (missing = {} \<longrightarrow> received_ids s = set (inserted_ids_list s) \<and> committed_rows s = inserted_ids_list s \<and>
       int (length (inserted_ids_list s)) = num_messages cfg \<and> message_count s = num_messages cfg)"
proof -
  from test.reach_inv [OF assms(1)] have
    v: "inserted_ids s \<noteq> {}" "inserted_ids s - received_ids s \<subseteq> missing" "extra = {}"
    and r: "int (length (inserted_ids_list s)) = max 0 (num_messages cfg)" "committed_rows s = inserted_ids_list s"
      "inserted_ids s = set (inserted_ids_list s)" "distinct (inserted_ids_list s)"
    and c: "received_ids s \<subseteq> set (committed_rows s)" "int (card (received_ids s)) \<le> message_count s"
      "message_count s \<le> max 0 (num_messages cfg)"
    using assms(2) by (auto simp: test_inv_def rows_inv_def received_inv_def verdict_inv_def Let_def)
  from v(1) r(1,3) have n: "int (length (inserted_ids_list s)) = num_messages cfg" "0 < num_messages cfg"
    by (cases "inserted_ids_list s"; simp)+
  have "missing = {} \<Longrightarrow> received_ids s = set (inserted_ids_list s)" using v(2) c(1) r(2,3) by auto
  moreover have "message_count s = num_messages cfg" if "received_ids s = set (inserted_ids_list s)"
    using that c(2,3) n r(4) by (simp add: distinct_card)
  ultimately show ?thesis using v(3) r(2) n(1) by blast
qed

section \<open>Runs\<close>

text \<open>A step of the relation from the step before.\<close>

lemma and_then: "reach test_init (test_step cfg) s \<Longrightarrow> test_step cfg s t \<Longrightarrow> t = u \<Longrightarrow> reach test_init (test_step cfg) u"
  by (auto intro: reach_step)

definition demo_test_config :: test_config where
  "demo_test_config = \<lparr>num_messages = 1, batch_size = 1\<rparr>"

lemmas run_ops = demo_test_config_def threads0_def thread_ops poll_once_def process_change_def commit_offset_def hashable_def Let_def

text \<open>One row: the consumer receives it after the commit and before the ids are published.\<close>

definition early :: threads where
  "early = threads0\<lparr>ppc := Closing, inserted_ids_list := [JInt 7], committed_rows := [JInt 7], cpc := CVerifying, deadline := 180,
     message_count := 1, received_ids := {JInt 7}, mpc := MJoining\<rparr>"

lemma early_reached: "reach test_init (test_step demo_test_config) early"
proof -
  have "reach test_init (test_step demo_test_config) threads0" by (rule reach_init) (simp add: test_init_def)
  then have "reach test_init (test_step demo_test_config) (threads0\<lparr>cpc := CWaiting, deadline := 180\<rparr>)"
    by (rule and_then [OF _ certificates_checked [where exist = True and now = 0]]) (simp_all add: run_ops)
  then have "reach test_init (test_step demo_test_config) (threads0\<lparr>cpc := CPolling, deadline := 180\<rparr>)"
    by (rule and_then [OF _ topic_looked_up [where ready = True and now = 0]]) (simp_all add: run_ops)
  then have "reach test_init (test_step demo_test_config) (threads0\<lparr>cpc := CPolling, deadline := 180, ppc := PSetup, mpc := MJoining\<rparr>)"
    by (rule and_then [OF _ producer_started]) (simp_all add: run_ops)
  then have "reach test_init (test_step demo_test_config) (threads0\<lparr>cpc := CPolling, deadline := 180, ppc := Inserting 1, mpc := MJoining\<rparr>)"
    by (rule and_then [OF _ table_prepared]) (simp_all add: run_ops)
  then have "reach test_init (test_step demo_test_config) (threads0\<lparr>cpc := CPolling, deadline := 180, ppc := Committing 1, mpc := MJoining,
      inserted_ids_list := [JInt 7]\<rparr>)"
    by (rule and_then [OF _ row_inserted [where i = 1 and k = 7]]) (simp_all add: run_ops)
  then have "reach test_init (test_step demo_test_config) (threads0\<lparr>cpc := CPolling, deadline := 180, ppc := Closing, mpc := MJoining,
      inserted_ids_list := [JInt 7], committed_rows := [JInt 7]\<rparr>)"
    by (rule and_then [OF _ rows_committed [where i = 1]]) (simp_all add: run_ops)
  then show ?thesis
    by (rule and_then [OF _ message_polled [where now = 0 and r = "Record 0 (Inserted (JInt 7)) True"]])
      (simp_all add: run_ops early_def honest_def)
qed

text \<open>No message for more than two minutes.\<close>

lemma silent_reached:
  "reach test_init (test_step demo_test_config) (threads0\<lparr>cpc := CDone, deadline := 180, consumer_verdict := Some ({}, {})\<rparr>)"
proof -
  have "reach test_init (test_step demo_test_config) threads0" by (rule reach_init) (simp add: test_init_def)
  then have "reach test_init (test_step demo_test_config) (threads0\<lparr>cpc := CWaiting, deadline := 180\<rparr>)"
    by (rule and_then [OF _ certificates_checked [where exist = True and now = 0]]) (simp_all add: run_ops)
  then have "reach test_init (test_step demo_test_config) (threads0\<lparr>cpc := CPolling, deadline := 180\<rparr>)"
    by (rule and_then [OF _ topic_looked_up [where ready = True and now = 0]]) (simp_all add: run_ops)
  then have "reach test_init (test_step demo_test_config) (threads0\<lparr>cpc := CVerifying, deadline := 180\<rparr>)"
    by (rule and_then [OF _ message_polled [where now = 121 and r = Nothing]]) (simp_all add: run_ops honest_def)
  then show ?thesis
    by (rule and_then [OF _ consumer_verified]) (simp_all add: run_ops)
qed

text \<open>The producer cannot prepare its table.\<close>

lemma failed_reached:
  "reach test_init (test_step demo_test_config) (threads0\<lparr>ppc := PFailed, mpc := MDone, test_completed := True\<rparr>)"
proof -
  have "reach test_init (test_step demo_test_config) threads0" by (rule reach_init) (simp add: test_init_def)
  then have "reach test_init (test_step demo_test_config) (threads0\<lparr>ppc := PSetup, mpc := MJoining\<rparr>)"
    by (rule and_then [OF _ producer_started]) (simp_all add: run_ops)
  then have "reach test_init (test_step demo_test_config) (threads0\<lparr>ppc := PFailed, mpc := MJoining\<rparr>)"
    by (rule and_then [OF _ producer_raised]) (simp_all add: run_ops)
  then have "reach test_init (test_step demo_test_config) (threads0\<lparr>ppc := PFailed, mpc := MWaiting\<rparr>)"
    by (rule and_then [OF _ producer_joined]) (simp_all add: run_ops)
  then have "reach test_init (test_step demo_test_config) (threads0\<lparr>ppc := PFailed, mpc := MChecking\<rparr>)"
    by (rule and_then [OF _ consumer_joined_or_timeout]) (simp_all add: run_ops)
  then show ?thesis
    by (rule and_then [OF _ sets_checked]) (simp_all add: run_ops)
qed

text \<open>
  When the producer fails with rows still uncommitted, no ids are published: from there the main thread can only end
  its final verification without a verdict.
\<close>

definition stranded :: "test_config \<Rightarrow> threads \<Rightarrow> bool" where
  "stranded cfg s \<longleftrightarrow> ppc s = PFailed \<and> int (length (committed_rows s)) < num_messages cfg"

definition done_inv :: "threads \<Rightarrow> bool" where
  "done_inv s \<longleftrightarrow> (mpc s = MDone \<longrightarrow> test_completed s)"

lemma done_reached: "reach test_init (test_step cfg) s \<Longrightarrow> done_inv s"
proof (erule reach_invariant [rotated 2])
  show "test_init s \<Longrightarrow> done_inv s" for s by (simp add: test_init_def threads0_def done_inv_def)
  show "done_inv s \<Longrightarrow> test_step cfg s t \<Longrightarrow> done_inv t" for s t
  proof (rotate_tac 1, induction rule: test_step.induct)
    case (message_polled s r now)
    then show ?case by (simp add: done_inv_def poll_once_frame poll_once_completed)
  qed (auto simp: done_inv_def thread_ops split: if_splits)
qed

lemma stranded_step: "test_step cfg s t \<Longrightarrow> rows_inv cfg s \<Longrightarrow> stranded cfg s \<Longrightarrow> stranded cfg t"
  by (induction rule: test_step.induct)
    (auto simp: stranded_def rows_inv_def Let_def thread_ops poll_once_frame split: if_splits)

lemma stranded_unpublished:
  assumes "reach test_init (test_step cfg) s" "stranded cfg s"
  shows "inserted_ids s = {} \<and> main_verdict s = None \<and> mpc s \<in> {MJoining, MWaiting, MChecking, MDone, MInterrupted}"
proof -
  from test.reach_inv [OF assms(1)] have i: "rows_inv cfg s" "verdict_inv s" by (simp_all add: test_inv_def)
  have e: "inserted_ids s = {}"
  proof (rule ccontr)
    assume "inserted_ids s \<noteq> {}"
    with i(1) have "int (length (committed_rows s)) = max 0 (num_messages cfg)" by (simp add: rows_inv_def Let_def)
    with assms(2) show False by (simp add: stranded_def)
  qed
  with i(2) have "main_verdict s = None" "mpc s \<noteq> MComparing" "\<forall>m. mpc s \<noteq> MCompared m"
    by (cases "main_verdict s"; auto simp: verdict_inv_def)+
  moreover from i(1) assms(2) have "mpc s \<noteq> MStarting" by (auto simp: rows_inv_def stranded_def Let_def)
  ultimately show ?thesis using e by (cases "mpc s") auto
qed

lemma stranded_many:
  assumes "(test_step cfg)\<^sup>*\<^sup>* s t" "reach test_init (test_step cfg) s" "stranded cfg s"
  shows "stranded cfg t"
  using assms
proof (induction rule: rtranclp_induct)
  case (step t u)
  from step.prems(1) step.hyps(1) have "test_inv cfg t" by (rule test.reach_inv [OF reach_many])
  then have "rows_inv cfg t" by (simp add: test_inv_def)
  with step show ?case by (blast intro: stranded_step)
qed

text \<open>The main thread's own steps, when nothing was published.\<close>

lemma checking_completes:
  assumes "mpc s = MChecking" "inserted_ids s = {}"
  shows "(test_step cfg)\<^sup>*\<^sup>* s (s\<lparr>mpc := MDone, test_completed := True\<rparr>)"
  using sets_checked [of s cfg, OF assms(1)] assms(2) by (simp add: check_sets_def r_into_rtranclp)

lemma waiting_completes:
  assumes "mpc s = MWaiting" "inserted_ids s = {}"
  shows "(test_step cfg)\<^sup>*\<^sup>* s (s\<lparr>mpc := MDone, test_completed := True\<rparr>)"
  using consumer_joined_or_timeout [of s cfg, OF assms(1)] checking_completes [of "s\<lparr>mpc := MChecking\<rparr>" cfg] assms(2)
  by (simp add: converse_rtranclp_into_rtranclp)

lemma joining_completes:
  assumes "mpc s = MJoining" "ppc s = PFailed" "inserted_ids s = {}"
  shows "(test_step cfg)\<^sup>*\<^sup>* s (s\<lparr>mpc := MDone, test_completed := True\<rparr>)"
  using producer_joined [of s cfg, OF assms(1)] waiting_completes [of "s\<lparr>mpc := MWaiting\<rparr>" cfg] assms(2,3)
  by (simp add: converse_rtranclp_into_rtranclp)

text \<open>C24. A producer that failed before all its rows were committed makes the test say nothing: whatever the threads still
  do, no ids are published and no verdict is given, and when the main thread is done it says that the test completed;
  unless it was interrupted, it can always get there.\<close>

theorem failed_producer_completes:
  assumes "reach test_init (test_step cfg) s" "ppc s = PFailed" "int (length (committed_rows s)) < num_messages cfg"
  shows "(\<forall>t. (test_step cfg)\<^sup>*\<^sup>* s t \<longrightarrow> inserted_ids t = {} \<and> main_verdict t = None \<and> (mpc t = MDone \<longrightarrow> test_completed t)) \<and>
    (mpc s \<noteq> MInterrupted \<longrightarrow>
       (\<exists>t. (test_step cfg)\<^sup>*\<^sup>* s t \<and> mpc t = MDone \<and> test_completed t \<and> main_verdict t = None))"
proof (intro conjI allI impI)
  have st: "stranded cfg s" using assms(2,3) by (simp add: stranded_def)
  show "inserted_ids t = {}" "main_verdict t = None" if "(test_step cfg)\<^sup>*\<^sup>* s t" for t
    using stranded_unpublished [OF reach_many [OF assms(1) that] stranded_many [OF that assms(1) st]] by blast+
  show "test_completed t" if "(test_step cfg)\<^sup>*\<^sup>* s t" "mpc t = MDone" for t
    using done_reached [OF reach_many [OF assms(1) that(1)]] that(2) by (simp add: done_inv_def)
  assume "mpc s \<noteq> MInterrupted"
  with stranded_unpublished [OF assms(1) st] have
    u: "inserted_ids s = {}" "main_verdict s = None" "mpc s = MDone \<or> mpc s = MJoining \<or> mpc s = MWaiting \<or> mpc s = MChecking" by auto
  show "\<exists>t. (test_step cfg)\<^sup>*\<^sup>* s t \<and> mpc t = MDone \<and> test_completed t \<and> main_verdict t = None"
  proof (cases "mpc s = MDone")
    case True
    with done_reached [OF assms(1)] u(2) show ?thesis by (auto simp: done_inv_def)
  next
    case False
    with u(1,3) assms(2) have "(test_step cfg)\<^sup>*\<^sup>* s (s\<lparr>mpc := MDone, test_completed := True\<rparr>)"
      by (auto intro: joining_completes waiting_completes checking_completes)
    with u(2) show ?thesis by (intro exI [of _ "s\<lparr>mpc := MDone, test_completed := True\<rparr>"]) simp
  qed
qed

text \<open>The producer of this run fails before its first row; the test completes all the same.\<close>

theorem failed_producer_completes_witness:
  "\<exists>t. reach test_init (test_step demo_test_config) t \<and> test_completed t \<and> main_verdict t = None \<and> ppc t = PFailed"
proof -
  have p: "ppc (threads0\<lparr>ppc := PFailed, mpc := MDone, test_completed := True\<rparr>) = PFailed"
    "int (length (committed_rows (threads0\<lparr>ppc := PFailed, mpc := MDone, test_completed := True\<rparr>))) < num_messages demo_test_config"
    by (simp_all add: threads0_def demo_test_config_def)
  from failed_producer_completes [OF failed_reached p, THEN conjunct1, rule_format, OF rtranclp.rtrancl_refl] failed_reached
  show ?thesis by (intro exI [of _ "threads0\<lparr>ppc := PFailed, mpc := MDone, test_completed := True\<rparr>"]) simp
qed

text \<open>What the consumer prints is not to be relied on: it can report an extra id though it received nothing but a
  committed row of the run, and it can report that all messages were received when none was.\<close>

theorem consumer_reports_race:
  "(\<exists>s. reach test_init (test_step demo_test_config) s \<and> consumer_verdict s = Some ({}, {JInt 7}) \<and> received_ids s = set (committed_rows s)) \<and>
   (\<exists>s. reach test_init (test_step demo_test_config) s \<and> consumer_verdict s = Some ({}, {}) \<and> received_ids s = {} \<and>
      message_count s < num_messages demo_test_config)"
proof -
  have "reach test_init (test_step demo_test_config) (early\<lparr>cpc := CDone, consumer_verdict := Some ({}, {JInt 7})\<rparr>)"
    by (rule and_then [OF early_reached consumer_verified]) (simp_all add: early_def run_ops)
  moreover have "received_ids early = set (committed_rows early)" by (simp add: early_def)
  ultimately have "\<exists>s. reach test_init (test_step demo_test_config) s \<and> consumer_verdict s = Some ({}, {JInt 7}) \<and> received_ids s = set (committed_rows s)"
    by - (rule exI, rule conjI, assumption, simp)
  moreover from silent_reached have "\<exists>s. reach test_init (test_step demo_test_config) s \<and> consumer_verdict s = Some ({}, {}) \<and>
      received_ids s = {} \<and> message_count s < num_messages demo_test_config"
    by - (rule exI, rule conjI, assumption, simp add: threads0_def demo_test_config_def)
  ultimately show ?thesis by blast
qed

text \<open>The run of one row to its end: the final verification finds nothing missing.\<close>

definition finished :: threads where
  "finished = early\<lparr>ppc := PDone, inserted_ids := {JInt 7}, mpc := MDone, main_verdict := Some ({}, {}), test_completed := True\<rparr>"

lemma finished_reached: "reach test_init (test_step demo_test_config) finished"
proof -
  have "reach test_init (test_step demo_test_config) (early\<lparr>ppc := Publishing\<rparr>)"
    by (rule and_then [OF early_reached all_committed]) (simp_all add: early_def run_ops)
  then have "reach test_init (test_step demo_test_config) (early\<lparr>ppc := Disconnecting, inserted_ids := {JInt 7}\<rparr>)"
    by (rule and_then [OF _ ids_published]) (simp_all add: early_def run_ops)
  then have "reach test_init (test_step demo_test_config) (early\<lparr>ppc := PDone, inserted_ids := {JInt 7}\<rparr>)"
    by (rule and_then [OF _ producer_ended]) (simp_all add: early_def run_ops)
  then have "reach test_init (test_step demo_test_config) (early\<lparr>ppc := PDone, inserted_ids := {JInt 7}, mpc := MWaiting\<rparr>)"
    by (rule and_then [OF _ producer_joined]) (simp_all add: early_def run_ops)
  then have "reach test_init (test_step demo_test_config) (early\<lparr>ppc := PDone, inserted_ids := {JInt 7}, mpc := MChecking\<rparr>)"
    by (rule and_then [OF _ consumer_joined_or_timeout]) (simp_all add: early_def run_ops)
  then have "reach test_init (test_step demo_test_config) (early\<lparr>ppc := PDone, inserted_ids := {JInt 7}, mpc := MComparing\<rparr>)"
    by (rule and_then [OF _ sets_checked]) (simp_all add: early_def run_ops)
  then have "reach test_init (test_step demo_test_config) (early\<lparr>ppc := PDone, inserted_ids := {JInt 7}, mpc := MCompared {}\<rparr>)"
    by (rule and_then [OF _ missing_compared]) (simp_all add: early_def run_ops)
  then show ?thesis
    by (rule and_then [OF _ extra_compared [where missing = "{}"]]) (simp_all add: early_def finished_def run_ops)
qed

theorem final_verdict_sound_witness:
  "main_verdict finished = Some ({}, {}) \<and> received_ids finished = set (inserted_ids_list finished) \<and>
     int (length (inserted_ids_list finished)) = num_messages demo_test_config"
  using final_verdict_sound [OF finished_reached, of "{}" "{}"] by (simp add: finished_def)

theorem threads_refine_delivery_witness: "delivery_ok (delivery_of finished) \<and> judgement (delivery_of finished) = Some True"
  using threads_refine_delivery [OF finished_reached] by (simp add: delivery_of_def finished_def)

section \<open>A test that succeeds\<close>

text \<open>
  For every number of rows there is a run that ends in success: the rows are inserted and committed, the consumer receives each of them
  once, and the ids are published and compared. Row \<open>k\<close> has the id \<open>k\<close>.
\<close>

definition row_ids :: "nat \<Rightarrow> json list" where
  "row_ids k = map (\<lambda>i. JInt (int i)) [1..<Suc k]"

lemma row_ids_Suc: "row_ids (Suc k) = row_ids k @ [JInt (int (Suc k))]"
  by (simp add: row_ids_def)

lemma row_ids_new: "JInt (int (Suc k)) \<notin> set (row_ids k)"
  by (auto simp: row_ids_def)

definition polling :: threads where
  "polling = threads0\<lparr>cpc := CPolling, deadline := 180, mpc := MJoining\<rparr>"

lemma start_reached: "reach test_init (test_step cfg) (polling\<lparr>ppc := next_row cfg 1\<rparr>)"
proof -
  have "reach test_init (test_step cfg) threads0" by (rule reach_init) (simp add: test_init_def)
  then have "reach test_init (test_step cfg) (threads0\<lparr>cpc := CWaiting, deadline := 180\<rparr>)"
    by (rule and_then [OF _ certificates_checked [where exist = True and now = 0]]) (simp_all add: run_ops)
  then have "reach test_init (test_step cfg) (threads0\<lparr>cpc := CPolling, deadline := 180\<rparr>)"
    by (rule and_then [OF _ topic_looked_up [where ready = True and now = 0]]) (simp_all add: run_ops)
  then have "reach test_init (test_step cfg) (polling\<lparr>ppc := PSetup\<rparr>)"
    by (rule and_then [OF _ producer_started]) (simp_all add: run_ops polling_def)
  then show ?thesis
    by (rule and_then [OF _ table_prepared]) (simp_all add: table_ready_def)
qed

lemma rows_reached:
  assumes "batch_size cfg \<noteq> 0"
  shows "int k \<le> num_messages cfg \<Longrightarrow>
    \<exists>c. reach test_init (test_step cfg) (polling\<lparr>ppc := next_row cfg (int k + 1), inserted_ids_list := row_ids k, committed_rows := c\<rparr>)"
proof (induction k)
  case 0
  have "polling\<lparr>ppc := next_row cfg (int 0 + 1), inserted_ids_list := row_ids 0, committed_rows := []\<rparr> = polling\<lparr>ppc := next_row cfg 1\<rparr>"
    by (simp add: row_ids_def polling_def threads0_def)
  with start_reached [of cfg] show ?case by metis
next
  case (Suc k)
  then obtain c where c: "reach test_init (test_step cfg)
      (polling\<lparr>ppc := next_row cfg (int k + 1), inserted_ids_list := row_ids k, committed_rows := c\<rparr>)" by auto
  have n: "next_row cfg (int k + 1) = Inserting (int (Suc k))" using Suc.prems by (simp add: next_row_def)
  let ?s = "polling\<lparr>ppc := Inserting (int (Suc k)), inserted_ids_list := row_ids k, committed_rows := c\<rparr>"
  have i: "reach test_init (test_step cfg) (insert_row cfg (JInt (int (Suc k))) (int (Suc k)) ?s)"
    by (rule and_then [OF c [unfolded n] row_inserted [where i = "int (Suc k)" and k = "int (Suc k)"] refl])
      (simp, use row_ids_new [of k] in simp)
  show ?case
  proof (cases "int (Suc k) mod batch_size cfg = 0")
    case True
    then have e: "insert_row cfg (JInt (int (Suc k))) (int (Suc k)) ?s =
        polling\<lparr>ppc := Committing (int (Suc k)), inserted_ids_list := row_ids (Suc k), committed_rows := c\<rparr>"
      using assms unfolding insert_row_def row_ids_Suc by simp
    have "reach test_init (test_step cfg)
        (polling\<lparr>ppc := next_row cfg (int (Suc k) + 1), inserted_ids_list := row_ids (Suc k), committed_rows := row_ids (Suc k)\<rparr>)"
      by (rule and_then [OF i [unfolded e] rows_committed [where i = "int (Suc k)"]]) (simp_all add: commit_rows_def)
    then show ?thesis by blast
  next
    case False
    then have "insert_row cfg (JInt (int (Suc k))) (int (Suc k)) ?s =
        polling\<lparr>ppc := next_row cfg (int (Suc k) + 1), inserted_ids_list := row_ids (Suc k), committed_rows := c\<rparr>"
      using assms unfolding insert_row_def row_ids_Suc by simp
    with i show ?thesis by metis
  qed
qed

text \<open>After the last commit, when the consumer has received the first \<open>j\<close> rows.\<close>

definition received_rows :: "nat \<Rightarrow> nat \<Rightarrow> threads" where
  "received_rows n j =
     polling\<lparr>ppc := Publishing, inserted_ids_list := row_ids n, committed_rows := row_ids n, message_count := int j,
       received_ids := set (row_ids j), cpc := (if n \<le> j then CVerifying else CPolling), offsets := map int [0..<min j (n - 1)]\<rparr>"

lemma received_reached:
  assumes "batch_size cfg \<noteq> 0" "num_messages cfg = int n" "0 < n"
  shows "j \<le> n \<Longrightarrow> reach test_init (test_step cfg) (received_rows n j)"
proof (induction j)
  case 0
  from rows_reached [OF assms(1), of n] assms(2) obtain c where
    "reach test_init (test_step cfg) (polling\<lparr>ppc := Closing, inserted_ids_list := row_ids n, committed_rows := c\<rparr>)"
    by (auto simp: next_row_def)
  then show ?case
    by (rule and_then [OF _ all_committed])
      (use assms(3) in \<open>simp_all add: commit_rows_def received_rows_def row_ids_def polling_def threads0_def\<close>)
next
  case (Suc j)
  let ?r = "Record (int j) (Inserted (JInt (int (Suc j)))) True"
  have "Suc j \<in> set [1..<Suc n]" using Suc.prems by (simp del: upt_Suc)
  then have "JInt (int (Suc j)) \<in> set (row_ids n)" unfolding row_ids_def by (metis (no_types, lifting) image_eqI set_map)
  then have h: "honest (received_rows n j) ?r" by (simp add: honest_def received_rows_def)
  have l: "last_message_time (received_rows n j) = 0" by (simp add: received_rows_def polling_def threads0_def)
  show ?case
  proof (rule and_then [OF Suc.IH message_polled [OF _ h, where now = 0]])
    show "j \<le> n" "cpc (received_rows n j) = CPolling" using Suc.prems by (simp_all add: received_rows_def)
    show "poll_once cfg 0 ?r (received_rows n j) = received_rows n (Suc j)"
    proof -
      have z: "(received_rows n j)\<lparr>last_message_time := 0\<rparr> = received_rows n j" using l by simp
      have "poll_once cfg 0 ?r (received_rows n j) = process_change cfg (int j) (Inserted (JInt (int (Suc j)))) True (received_rows n j)"
        using Suc.prems assms(2) z by (simp add: poll_once_def) (simp add: received_rows_def)
      also have "\<dots> = received_rows n (Suc j)"
      proof (cases "Suc j = n")
        case True
        then have n: "n = Suc j" by simp
        show ?thesis using assms(2)
          unfolding process_change_def Let_def received_rows_def row_ids_Suc polling_def threads0_def n
          by (simp add: hashable_def row_ids_Suc)
      next
        case False
        with Suc.prems have "Suc j < n" by simp
        moreover from this have "min j (n - 1) = j" "min (Suc j) (n - 1) = Suc j" by simp_all
        ultimately show ?thesis using assms(2)
          unfolding process_change_def Let_def received_rows_def row_ids_Suc polling_def threads0_def
          by (simp add: hashable_def commit_offset_def)
      qed
      finally show ?thesis .
    qed
  qed
qed

text \<open>C18. The test can succeed for every number of rows: some order of the steps ends in the positive verdict, with all the rows received.\<close>

theorem success_reachable:
  assumes "batch_size cfg \<noteq> 0" "0 < num_messages cfg"
  shows "\<exists>s. reach test_init (test_step cfg) s \<and> main_verdict s = Some ({}, {}) \<and> test_completed s \<and>
    int (length (inserted_ids_list s)) = num_messages cfg \<and> received_ids s = set (inserted_ids_list s)"
proof -
  obtain n where n: "num_messages cfg = int n" "0 < n" using assms(2) by (metis zero_less_imp_eq_int)
  let ?s = "received_rows n n"
  have ne: "row_ids n \<noteq> []" using n(2) by (simp add: row_ids_def)
  have "reach test_init (test_step cfg) ?s" using received_reached [OF assms(1) n] by blast
  then have "reach test_init (test_step cfg) (?s\<lparr>ppc := Disconnecting, inserted_ids := set (row_ids n)\<rparr>)"
    by (rule and_then [OF _ ids_published]) (simp_all add: publish_ids_def received_rows_def polling_def threads0_def)
  then have "reach test_init (test_step cfg) (?s\<lparr>ppc := PDone, inserted_ids := set (row_ids n)\<rparr>)"
    by (rule and_then [OF _ producer_ended]) simp_all
  then have "reach test_init (test_step cfg) (?s\<lparr>ppc := PDone, inserted_ids := set (row_ids n), mpc := MWaiting\<rparr>)"
    by (rule and_then [OF _ producer_joined]) (simp_all add: received_rows_def polling_def threads0_def)
  then have "reach test_init (test_step cfg) (?s\<lparr>ppc := PDone, inserted_ids := set (row_ids n), mpc := MChecking\<rparr>)"
    by (rule and_then [OF _ consumer_joined_or_timeout]) simp_all
  then have "reach test_init (test_step cfg) (?s\<lparr>ppc := PDone, inserted_ids := set (row_ids n), mpc := MComparing\<rparr>)"
    by (rule and_then [OF _ sets_checked]) (use ne in \<open>simp_all add: check_sets_def received_rows_def\<close>)
  then have "reach test_init (test_step cfg) (?s\<lparr>ppc := PDone, inserted_ids := set (row_ids n), mpc := MCompared {}\<rparr>)"
    by (rule and_then [OF _ missing_compared]) (simp_all add: compare_missing_def received_rows_def)
  then have "reach test_init (test_step cfg) (?s\<lparr>ppc := PDone, inserted_ids := set (row_ids n), mpc := MDone,
      main_verdict := Some ({}, {}), test_completed := True\<rparr>)"
    by (rule and_then [OF _ extra_compared [where missing = "{}"]]) (simp_all add: compare_extra_def received_rows_def)
  then show ?thesis
    by - (rule exI, rule conjI, assumption, simp add: received_rows_def row_ids_def n(1))
qed

theorem success_reachable_witness:
  "\<exists>s. reach test_init (test_step demo_test_config) s \<and> main_verdict s = Some ({}, {}) \<and> test_completed s \<and>
     int (length (inserted_ids_list s)) = 1"
  using success_reachable [of demo_test_config] by (auto simp: demo_test_config_def)

end
