(* ===== verification/SearchExamples.thy ===== *)
theory SearchExamples
  imports PyJson PyStr PyState
begin

text \<open>
  The programs around a search service: the examples \<open>elasticsearch/python/main.py\<close> and \<open>opensearch/python/main.py\<close>, which
  write a document and read it until it is there, the cloud function \<open>restore_logs\<close> of
  \<open>kafka-long-term-logging\<close>, and \<open>df2json\<close> of \<open>opensearch-kafka\<close>, which sends the rows of a frame to Kafka. The
  clients, the clock and the random numbers are parameters that run on a world of their own.
\<close>

section \<open>Writing a document and reading it\<close>

text \<open>
  The client: \<open>get_doc\<close> takes the index, the type and the id, and \<open>None\<close> stands for the \<open>NotFoundError\<close> it raises when
  there is no such document.
\<close>

record 'w search_client =
  now_string :: "'w \<Rightarrow> string"
  randint :: "int \<Rightarrow> int \<Rightarrow> 'w \<Rightarrow> int \<times> 'w"
  index_doc :: "string \<Rightarrow> string \<Rightarrow> int \<Rightarrow> (string, json) dict \<Rightarrow> ('w, unit) run"
  get_doc :: "string \<Rightarrow> string \<Rightarrow> int \<Rightarrow> ('w, json option) run"
  monotonic :: "'w \<Rightarrow> rat"
  sleep_one :: "('w, unit) run"

definition person :: "('w, 'z) search_client_scheme \<Rightarrow> 'w \<Rightarrow> (string, json) dict" where
  "person api w =
     [(''name'', JStr ''John''), (''height'', JInt 185), (''mass'', JInt 77), (''birth_year'', JInt 1980),
      (''gender'', JStr ''male''), (''created'', JStr (now_string api w)), (''edited'', JStr (now_string api w))]"

text \<open>\<open>get_document\<close> gives \<open>None\<close> when the document is not found.\<close>

definition get_document :: "('w, 'z) search_client_scheme \<Rightarrow> string \<Rightarrow> string \<Rightarrow> int \<Rightarrow> ('w, json) run" where
  "get_document api index_name doc_name doc_id =
     abind (get_doc api index_name doc_name doc_id) (\<lambda>r. aret (Inr (case r of None \<Rightarrow> JNull | Some d \<Rightarrow> d)))"

text \<open>
  \<open>while not result and time.monotonic() - start < 60\<close>: a second, and another read. The rounds are counted
  down from a fuel; \<open>None\<close> is a loop that still goes on.
\<close>

fun read_until :: "('w, 'z) search_client_scheme \<Rightarrow> ('w, json) run \<Rightarrow> rat \<Rightarrow> nat \<Rightarrow> json \<Rightarrow> 'w \<Rightarrow> (json res \<times> 'w) option" where
  "read_until api again start fuel result w =
     (if \<not> (\<not> truthy result \<and> monotonic api w - start < 60) then Some (Inr result, w)
      else
        (case fuel of
           0 \<Rightarrow> None
         | Suc n \<Rightarrow>
             (case abind (sleep_one api) (\<lambda>_. again) w of
                (Inl e, w') \<Rightarrow> Some (Inl e, w')
              | (Inr result', w') \<Rightarrow> read_until api again start n result' w')))"

declare read_until.simps [simp del]

text \<open>The document is indexed under a random number, read once and then again until it is there.\<close>

definition write_and_read ::
  "('w, 'z) search_client_scheme \<Rightarrow> (int \<Rightarrow> ('w, json) run) \<Rightarrow> string \<Rightarrow> string \<Rightarrow> nat \<Rightarrow> 'w \<Rightarrow> (json res \<times> 'w) option" where
  "write_and_read api again index_name doc_name fuel w0 =
     (let body = person api w0 in
      case randint api 1 5000 w0 of (doc_id, w1) \<Rightarrow>
      case index_doc api index_name doc_name doc_id body w1 of
        (Inl e, w2) \<Rightarrow> Some (Inl e, w2)
      | (Inr _, w2) \<Rightarrow>
          (let start = monotonic api w2 in
           case get_document api index_name doc_name doc_id w2 of
             (Inl e, w3) \<Rightarrow> Some (Inl e, w3)
           | (Inr result, w3) \<Rightarrow> read_until api (again doc_id) start fuel result w3))"

definition elasticsearch_main :: "('w, 'z) search_client_scheme \<Rightarrow> nat \<Rightarrow> 'w \<Rightarrow> (json res \<times> 'w) option" where
  "elasticsearch_main api =
     write_and_read api (get_document api ''python_example'' ''people'') ''python_example'' ''people''"

text \<open>The OpenSearch example asks for the names; the read in its loop leaves out the last argument.\<close>

definition get_document_without_name :: "int \<Rightarrow> ('w, json) run" where
  "get_document_without_name doc_id = aret (Inl (TypeError ''get_document() missing 1 required positional argument: doc_name''))"

definition opensearch_main :: "('w, 'z) search_client_scheme \<Rightarrow> string \<Rightarrow> string \<Rightarrow> nat \<Rightarrow> 'w \<Rightarrow> (json res \<times> 'w) option" where
  "opensearch_main api typed_name typed_index =
     (let doc_name = (if typed_name = [] then ''_doc'' else typed_name);
          index_name = (if typed_index = [] then ''py_example'' else typed_index)
      in write_and_read api get_document_without_name index_name doc_name)"

section \<open>Restoring logs\<close>

text \<open>
  The function of the cloud: a file of a bucket holds a list of documents, each is indexed under a fresh id; the first that
  fails ends the function, with the reason as its answer. \<open>text_of\<close> is \<open>str\<close> of an exception, \<open>new_id\<close> is \<open>uuid4\<close>, and
  \<open>index_log\<close> takes the index, the id, the document and whether it is to be searchable at once.
\<close>

record 'w log_store =
  get_bucket :: "json \<Rightarrow> ('w, unit) run"
  download_file :: "json \<Rightarrow> json \<Rightarrow> ('w, string) run"
  new_id :: "'w \<Rightarrow> string \<times> 'w"
  index_log :: "json \<Rightarrow> string \<Rightarrow> json \<Rightarrow> bool \<Rightarrow> ('w, unit) run"

fun index_all :: "('w, 'z) log_store_scheme \<Rightarrow> (exn \<Rightarrow> string) \<Rightarrow> json \<Rightarrow> json list \<Rightarrow> ('w, string option) run" where
  "index_all api text_of req [] = aret (Inr None)"
| "index_all api text_of req (d # ds) = (\<lambda>w.
     case abind (aret (py_item req ''index'')) (\<lambda>name w1.
            case new_id api w1 of (i, w2) \<Rightarrow> index_log api name i d True w2) w of
       (Inr _, w') \<Rightarrow> index_all api text_of req ds w'
     | (Inl e, w') \<Rightarrow> (if is_Exception e then Inr (Some (text_of e)) else Inl e, w'))"

definition restore_logs ::
  "('w, 'z) log_store_scheme \<Rightarrow> (exn \<Rightarrow> string) \<Rightarrow> (string \<Rightarrow> json res) \<Rightarrow> json \<Rightarrow> ('w, (string, json) dict) run" where
  "restore_logs api text_of loads req =
     abind (aret (py_item req ''bucket'')) (\<lambda>bucket.
     abind (get_bucket api bucket) (\<lambda>_.
     abind (aret (py_item req ''file'')) (\<lambda>name.
     abind (download_file api bucket name) (\<lambda>contents.
     abind (aret (loads contents)) (\<lambda>doc.
     abind (aret (py_iter doc)) (\<lambda>ds.
     abind (index_all api text_of req ds) (\<lambda>failure.
       aret (Inr (case failure of
         Some reason \<Rightarrow> [(''success'', JStr ''false''), (''reason'', JStr reason)]
       | None \<Rightarrow> [(''success'', JStr ''true''), (''result'', doc)])))))))))"

section \<open>Rows of a frame\<close>

record 'w row_producer =
  send_row :: "string \<Rightarrow> string \<Rightarrow> (string, json) dict \<Rightarrow> ('w, unit) run"
  flush_rows :: "('w, unit) run"

definition row_fields :: "string list \<Rightarrow> string \<Rightarrow> string list \<Rightarrow> (string, json) dict \<Rightarrow> (string, json) dict res" where
  "row_fields columns id_col arr_columns row =
     rbind (rmap (\<lambda>col. rbind (ditem row col) (\<lambda>v. Inr (col, v)))
       (filter (\<lambda>col. col \<noteq> id_col \<and> col \<in> set arr_columns) columns)) (\<lambda>fields.
     Inr (fold (\<lambda>(col, v) d. dset d col v) fields []))"

fun send_rows ::
  "('w, 'z) row_producer_scheme \<Rightarrow> (json \<Rightarrow> string) \<Rightarrow> string list \<Rightarrow> string list \<Rightarrow> string \<Rightarrow> (int \<times> (string, json) dict) list \<Rightarrow>
   ('w, unit) run" where
  "send_rows api str_of columns arr_columns id_col [] = flush_rows api"
| "send_rows api str_of columns arr_columns id_col ((i, row) # rows) =
     abind (aret (ditem row id_col)) (\<lambda>key.
     abind (aret (row_fields columns id_col arr_columns row)) (\<lambda>d2.
     abind (send_row api ''products'' (str_of key) d2) (\<lambda>_.
     abind (if i mod 100 = 0 then flush_rows api else aret (Inr ())) (\<lambda>_.
     send_rows api str_of columns arr_columns id_col rows))))"

definition df2json ::
  "('w, 'z) row_producer_scheme \<Rightarrow> (json \<Rightarrow> string) \<Rightarrow> string list \<Rightarrow> (int \<times> (string, json) dict) list \<Rightarrow> string list \<Rightarrow> string \<Rightarrow>
   ('w, unit) run" where
  "df2json api str_of columns rows arr_columns id_col = send_rows api str_of columns arr_columns id_col rows"

definition indexed_columns :: "string list" where
  "indexed_columns =
     [''DEPARTMENT'', ''CATEGORY'', ''BREADCRUMBS'', ''SKU'', ''PRODUCT_URL'', ''PRODUCT_NAME'', ''BRAND'', ''PRICE_RETAIL'',
      ''PRICE_CURRENT'']"

definition products_main ::
  "('w, 'z) row_producer_scheme \<Rightarrow> (json \<Rightarrow> string) \<Rightarrow> string list \<times> (int \<times> (string, json) dict) list \<Rightarrow> ('w, unit) run" where
  "products_main api str_of df = df2json api str_of (fst df) (snd df) indexed_columns ''index''"

section \<open>Facts\<close>

text \<open>A second of sleep lasts a second, and no operation turns the clock back.\<close>

definition forward :: "('w, 'z) search_client_scheme \<Rightarrow> ('w \<Rightarrow> 'a \<times> 'w) \<Rightarrow> bool" where
  "forward api m \<longleftrightarrow> (\<forall>w. monotonic api w \<le> monotonic api (snd (m w)))"

definition clock_ok :: "('w, 'z) search_client_scheme \<Rightarrow> bool" where
  "clock_ok api \<longleftrightarrow>
     (\<forall>w. fst (sleep_one api w) = Inr () \<longrightarrow> monotonic api w + 1 \<le> monotonic api (snd (sleep_one api w))) \<and> (\<forall>a b. forward api (randint api a b)) \<and>
     (\<forall>x y i d. forward api (index_doc api x y i d)) \<and> (\<forall>x y i. forward api (get_doc api x y i))"

lemma forwardD: "forward api m \<Longrightarrow> m w = (r, w') \<Longrightarrow> monotonic api w \<le> monotonic api w'"
  unfolding forward_def by (metis snd_conv)

lemma clock_okD:
  assumes "clock_ok api"
  shows "sleep_one api w = (Inr (), w') \<Longrightarrow> monotonic api w + 1 \<le> monotonic api w'"
    and "forward api (randint api a b)" "forward api (index_doc api x y i d)" "forward api (get_doc api x y i)"
  using assms unfolding clock_ok_def by (metis fst_conv snd_conv, simp_all)

lemma get_document_clock:
  assumes "clock_ok api" "get_document api x y i w = (r, w')"
  shows "monotonic api w \<le> monotonic api w'"
proof -
  obtain q w1 where "get_doc api x y i w = (q, w1)" by force
  with assms(2) forwardD [OF clock_okD(4) [OF assms(1)] this] show ?thesis
    by (cases q) (auto simp: get_document_def abind_def)
qed

text \<open>A fuel of the seconds that are left is enough, and the loop ends with a document or after the minute.\<close>

lemma read_until_ends:
  assumes "clock_ok api"
  shows "60 - of_nat n \<le> monotonic api w - start \<Longrightarrow>
    \<exists>r w'. read_until api (get_document api x y i) start n result w = Some (r, w') \<and>
      (\<forall>d. r = Inr d \<longrightarrow> truthy d \<or> 60 \<le> monotonic api w' - start)"
proof (induction n arbitrary: result w)
  case 0
  then show ?case by (auto simp: read_until.simps [of _ _ _ 0])
next
  case (Suc n)
  show ?case
  proof (cases "\<not> truthy result \<and> monotonic api w - start < 60")
    case False
    then show ?thesis by (subst read_until.simps) auto
  next
    case True
    obtain r1 w1 where s: "sleep_one api w = (r1, w1)" by force
    obtain r2 w2 where a: "get_document api x y i w1 = (r2, w2)" by force
    show ?thesis
    proof (cases "\<exists>u d. r1 = Inr u \<and> r2 = Inr d")
      case False
      with True s a show ?thesis
        by (cases r1; cases r2) (auto simp: read_until.simps [of _ _ _ "Suc n"] abind_def)
    next
      case both: True
      then obtain u d where r: "r1 = Inr u" "r2 = Inr d" by blast
      have "monotonic api w + 1 \<le> monotonic api w1" "monotonic api w1 \<le> monotonic api w2"
        using clock_okD(1) [OF assms] s r get_document_clock [OF assms a] by auto
      with Suc.prems have "60 - of_nat n \<le> monotonic api w2 - start" by simp
      from Suc.IH [OF this, of d] True s a r show ?thesis
        by (auto simp: read_until.simps [of _ _ _ "Suc n"] abind_def)
    qed
  qed
qed

text \<open>
  The logs of a world are the documents of each index by their id. A document that is indexed takes the place of the one with its
  id, one whose call raised may be there or not, and a new id is one that no index has; the storage gives the file and
  leaves the logs alone.
\<close>

type_synonym log_docs = "json \<times> string \<Rightarrow> json option"

definition keeps_logs :: "('w, 'z) log_store_scheme \<Rightarrow> ('w \<Rightarrow> log_docs) \<Rightarrow> bool" where
  "keeps_logs api logs \<longleftrightarrow>
     (\<forall>name i d refresh w w' r. index_log api name i d refresh w = (r, w') \<longrightarrow>
        logs w' = (logs w)((name, i) \<mapsto> d) \<or> logs w' = logs w \<and> (\<exists>e. r = Inl e)) \<and>
     (\<forall>w w' i. new_id api w = (i, w') \<longrightarrow> logs w' = logs w \<and> (\<forall>name. logs w (name, i) = None))"

definition reads_file :: "('w, 'z) log_store_scheme \<Rightarrow> ('w \<Rightarrow> log_docs) \<Rightarrow> string \<Rightarrow> bool" where
  "reads_file api logs contents \<longleftrightarrow>
     (\<forall>b w w' r. get_bucket api b w = (r, w') \<longrightarrow> logs w' = logs w) \<and>
     (\<forall>b f w w' r. download_file api b f w = (r, w') \<longrightarrow> logs w' = logs w \<and> (\<forall>c. r = Inr c \<longrightarrow> c = contents))"

text \<open>What a run adds to the logs of an index: documents under ids that are new and all different.\<close>

definition new_docs :: "json \<Rightarrow> log_docs \<Rightarrow> ((json \<times> string) \<times> json) list \<Rightarrow> log_docs \<Rightarrow> bool" where
  "new_docs name before added after \<longleftrightarrow>
     after = before ++ map_of added \<and> distinct (map fst added) \<and> (\<forall>k \<in> fst ` set added. fst k = name \<and> before k = None)"

lemma new_docs_Nil [simp]: "new_docs name logs [] logs"
  by (simp add: new_docs_def)

lemma new_docs_append:
  assumes "new_docs name a xs b" "new_docs name b ys c"
  shows "new_docs name a (xs @ ys) c"
proof -
  note x = assms(1) [unfolded new_docs_def, THEN conjunct1] assms(1) [unfolded new_docs_def, THEN conjunct2, THEN conjunct1]
    assms(1) [unfolded new_docs_def, THEN conjunct2, THEN conjunct2]
  note y = assms(2) [unfolded new_docs_def, THEN conjunct1] assms(2) [unfolded new_docs_def, THEN conjunct2, THEN conjunct1]
    assms(2) [unfolded new_docs_def, THEN conjunct2, THEN conjunct2]
  have none: "a k = None" "k \<notin> fst ` set xs" if "k \<in> fst ` set ys" for k
    using bspec [OF y(3) that] by (simp_all add: x(1) map_add_None map_of_eq_None_iff)
  then have disjoint: "fst ` set xs \<inter> fst ` set ys = {}" by blast
  have "map_of ys ++ map_of xs = map_of xs ++ map_of ys"
    using disjoint by (intro map_add_comm) (simp add: dom_map_of_conv_image_fst Int_commute)
  then have "a ++ map_of (xs @ ys) = c" by (simp add: x(1) y(1))
  moreover have "distinct (map fst (xs @ ys))" using x(2) y(2) disjoint by simp
  moreover have "fst k = name \<and> a k = None" if "k \<in> fst ` set (xs @ ys)" for k
  proof (cases "k \<in> fst ` set xs")
    case False
    with that have "k \<in> fst ` set ys" by (simp only: set_append image_Un Un_iff simp_thms)
    from bspec [OF y(3) this] none(1) [OF this] show ?thesis by simp
  qed (rule bspec [OF x(3)])
  ultimately show ?thesis by (simp add: new_docs_def)
qed

text \<open>
  One attempt. The documents are stored in order; a failure comes from a document whose call raised, after all the ones before it
  were stored.
\<close>

definition refused_at :: "('w, 'z) log_store_scheme \<Rightarrow> json \<Rightarrow> json list \<Rightarrow> json list \<Rightarrow> bool" where
  "refused_at api name ds stored \<longleftrightarrow>
     (\<exists>front d rest i w e w'. ds = front @ d # rest \<and> index_log api name i d True w = (Inl e, w') \<and>
        (stored = front \<or> stored = front @ [d]))"

lemma index_all_run:
  assumes "keeps_logs api logs" "py_item req ''index'' = Inr name"
  shows "index_all api text_of req ds w = (Inr failure, w') \<Longrightarrow>
    \<exists>added. new_docs name (logs w) added (logs w') \<and>
      (if failure = None then map snd added = ds else refused_at api name ds (map snd added))"
proof (induction ds arbitrary: w)
  case Nil
  then show ?case by (auto intro!: exI [of _ "[]"])
next
  case (Cons d ds)
  obtain i w1 where i: "new_id api w = (i, w1)" by force
  with assms(1) have new: "logs w1 = logs w" "logs w (name, i) = None" unfolding keeps_logs_def by blast+
  obtain r w2 where r: "index_log api name i d True w1 = (r, w2)" by force
  with assms(1) new have stored: "logs w2 = (logs w)((name, i) \<mapsto> d) \<or> logs w2 = logs w \<and> (\<exists>e. r = Inl e)"
    unfolding keeps_logs_def by metis
  have one: "new_docs name (logs w) [((name, i), d)] ((logs w)((name, i) \<mapsto> d))" using new by (simp add: new_docs_def)
  show ?case
  proof (cases r)
    case (Inl e)
    with Cons.prems i r assms(2) have w': "w' = w2" "failure = Some (text_of e)" by (auto simp: abind_def split: if_splits)
    have ref: "refused_at api name (d # ds) []" "refused_at api name (d # ds) [d]"
      using r Inl unfolding refused_at_def by fastforce+
    show ?thesis
    proof (cases "logs w2 = logs w")
      case True
      with w' ref show ?thesis by (intro exI [of _ "[]"]) simp
    next
      case False
      with stored have "logs w2 = (logs w)((name, i) \<mapsto> d)" by blast
      with one w' ref show ?thesis by (intro exI [of _ "[((name, i), d)]"]) (simp del: fun_upd_apply)
    qed
  next
    case (Inr u)
    with Cons.prems i r assms(2) have rest: "index_all api text_of req ds w2 = (Inr failure, w')" by (simp add: abind_def)
    from Cons.IH [OF this] obtain added where a: "new_docs name (logs w2) added (logs w')"
      "if failure = None then map snd added = ds else refused_at api name ds (map snd added)" by blast
    have "new_docs name (logs w) (((name, i), d) # added) (logs w')"
      using new_docs_append [OF one, of added "logs w'"] a(1) stored Inr by simp
    moreover have "refused_at api name (d # ds) (d # stored)" if "refused_at api name ds stored" for stored
    proof -
      from that obtain front x rest j v e v' where s: "ds = front @ x # rest" "index_log api name j x True v = (Inl e, v')"
        "stored = front \<or> stored = front @ [x]" unfolding refused_at_def by blast
      then have "d # ds = (d # front) @ x # rest" "d # stored = d # front \<or> d # stored = (d # front) @ [x]" by auto
      with s(2) show ?thesis unfolding refused_at_def by blast
    qed
    ultimately show ?thesis
      using a(2) by (intro exI [of _ "((name, i), d) # added"]) (auto split: if_splits)
  qed
qed

definition restored :: "(string, json) dict \<Rightarrow> bool" where
  "restored answer \<longleftrightarrow> dget answer ''success'' = Some (JStr ''true'')"

lemma restore_logs_run:
  assumes "keeps_logs api logs" "reads_file api logs contents" "loads contents = Inr doc" "py_iter doc = Inr ds"
    and "py_item req ''index'' = Inr name" "restore_logs api text_of loads req w = (Inr answer, w')"
  shows "\<exists>added. new_docs name (logs w) added (logs w') \<and>
    (if restored answer then map snd added = ds else refused_at api name ds (map snd added))"
proof -
  from assms(6) obtain bucket w1 file_name c w2 doc' ds' failure where
    g: "get_bucket api bucket w = (Inr (), w1)" and d: "download_file api bucket file_name w1 = (Inr c, w2)"
    and l: "loads c = Inr doc'" "py_iter doc' = Inr ds'" and i: "index_all api text_of req ds' w2 = (Inr failure, w')"
    and a: "answer = (case failure of
         Some reason \<Rightarrow> [(''success'', JStr ''false''), (''reason'', JStr reason)]
       | None \<Rightarrow> [(''success'', JStr ''true''), (''result'', doc')])"
    by (auto simp: restore_logs_def abind_Inr)
  from assms(2) g have "logs w1 = logs w" unfolding reads_file_def by blast
  moreover from assms(2) d have w2: "logs w2 = logs w1" "c = contents" unfolding reads_file_def by blast+
  moreover from w2(2) l assms(3,4) have "ds' = ds" by auto
  moreover have "restored answer \<longleftrightarrow> failure = None" by (simp add: a restored_def dget_def split: option.splits)
  moreover from index_all_run [OF assms(1,5) i] obtain added where
    "new_docs name (logs w2) added (logs w')" "if failure = None then map snd added = ds' else refused_at api name ds' (map snd added)" by blast
  ultimately show ?thesis by (intro exI [of _ added]) (cases failure; simp)
qed

text \<open>A caller that asks \<open>n\<close> times.\<close>

fun ask_restore ::
  "('w, 'z) log_store_scheme \<Rightarrow> (exn \<Rightarrow> string) \<Rightarrow> (string \<Rightarrow> json res) \<Rightarrow> json \<Rightarrow> nat \<Rightarrow> 'w \<Rightarrow> (string, json) dict res list \<times> 'w" where
  "ask_restore api text_of loads req 0 w = ([], w)"
| "ask_restore api text_of loads req (Suc n) w =
     (case restore_logs api text_of loads req w of (r, w1) \<Rightarrow>
      case ask_restore api text_of loads req n w1 of (rs, w2) \<Rightarrow> (r # rs, w2))"

lemma ask_restore_run:
  assumes "keeps_logs api logs" "reads_file api logs contents" "loads contents = Inr doc" "py_iter doc = Inr ds"
    and "py_item req ''index'' = Inr name"
  shows "ask_restore api text_of loads req (length answers) w = (map Inr answers, w') \<Longrightarrow>
    \<exists>parts added. new_docs name (logs w) added (logs w') \<and> map snd added = concat parts \<and>
      list_all2 (\<lambda>answer part. if restored answer then part = ds else refused_at api name ds part) answers parts"
proof (induction answers arbitrary: w)
  case Nil
  then show ?case by (auto intro!: exI [of _ "[]"])
next
  case (Cons answer answers)
  then obtain w1 where w1: "restore_logs api text_of loads req w = (Inr answer, w1)"
    "ask_restore api text_of loads req (length answers) w1 = (map Inr answers, w')" by (auto split: prod.splits)
  from restore_logs_run [OF assms w1(1)] obtain a where a: "new_docs name (logs w) a (logs w1)"
    "if restored answer then map snd a = ds else refused_at api name ds (map snd a)" by blast
  from Cons.IH [OF w1(2)] obtain parts b where b: "new_docs name (logs w1) b (logs w')" "map snd b = concat parts"
    "list_all2 (\<lambda>answer part. if restored answer then part = ds else refused_at api name ds part) answers parts" by blast
  from new_docs_append [OF a(1) b(1)] a(2) b(2,3) show ?case
    by (intro exI [of _ "map snd a # parts"] exI [of _ "a @ b"]) simp
qed

section \<open>Properties\<close>

text \<open>C37. Waiting for the document is bounded: sixty more reads are enough, whatever the service answers; a result that is
  printed is a document, or the minute is over.\<close>

theorem reading_ends:
  assumes "clock_ok api"
  shows "\<exists>r w'. elasticsearch_main api 60 w = Some (r, w') \<and>
    (\<forall>d. r = Inr d \<longrightarrow> truthy d \<or> 60 \<le> monotonic api w' - monotonic api w)"
proof -
  obtain k w1 where k: "randint api 1 5000 w = (k, w1)" by force
  obtain r2 w2 where i: "index_doc api ''python_example'' ''people'' k (person api w) w1 = (r2, w2)" by force
  obtain r3 w3 where g: "get_document api ''python_example'' ''people'' k w2 = (r3, w3)" by force
  have m: "monotonic api w \<le> monotonic api w2" "monotonic api w2 \<le> monotonic api w3"
    using order_trans [OF forwardD [OF clock_okD(2) [OF assms] k] forwardD [OF clock_okD(3) [OF assms] i]] get_document_clock [OF assms g] by auto
  show ?thesis
  proof (cases "\<exists>u d. r2 = Inr u \<and> r3 = Inr d")
    case False
    with k i g show ?thesis
      by (cases r2; cases r3) (auto simp: elasticsearch_main_def write_and_read_def Let_def)
  next
    case True
    then obtain u d where r: "r2 = Inr u" "r3 = Inr d" by blast
    from m(2) have "60 - of_nat 60 \<le> monotonic api w3 - monotonic api w2" by simp
    from read_until_ends [OF assms this, of "''python_example''" "''people''" k d] obtain r w' where
      e: "read_until api (get_document api ''python_example'' ''people'' k) (monotonic api w2) 60 d w3 = Some (r, w')"
        "\<forall>d. r = Inr d \<longrightarrow> truthy d \<or> 60 \<le> monotonic api w' - monotonic api w2" by blast
    have "elasticsearch_main api 60 w = Some (r, w')"
      using k i g r e(1) by (simp add: elasticsearch_main_def write_and_read_def Let_def)
    moreover have "truthy x \<or> 60 \<le> monotonic api w' - monotonic api w" if "r = Inr x" for x
      using e(2) that m(1) by force
    ultimately show ?thesis by blast
  qed
qed

text \<open>The OpenSearch example reads the document once only: when it is not there at the first read, the second read raises
  \<open>TypeError\<close>, after a second.\<close>

theorem opensearch_reads_once:
  assumes "randint api 1 5000 w = (k, w1)"
    and "index_doc api (if typed_index = [] then ''py_example'' else typed_index) (if typed_name = [] then ''_doc'' else typed_name)
      k (person api w) w1 = (Inr (), w2)"
    and "get_doc api (if typed_index = [] then ''py_example'' else typed_index) (if typed_name = [] then ''_doc'' else typed_name)
      k w2 = (Inr None, w3)"
    and "monotonic api w3 - monotonic api w2 < 60" "sleep_one api w3 = (Inr (), w4)"
  shows "\<exists>m. opensearch_main api typed_name typed_index (Suc n) w = Some (Inl (TypeError m), w4)"
  using assms by (auto simp: opensearch_main_def write_and_read_def Let_def get_document_def abind_def read_until.simps [of _ _ _ "Suc n"]
      get_document_without_name_def)

text \<open>C36. The restore function answers with a failure at the first document that is refused. Asked again for the same file until
  it answers with a success, after any number of failures, what it has added to the index is the whole file and, besides, what
  every failed attempt had stored: the documents before the refused one, perhaps that one too. All of them are there, under
  ids that are new and different, since every attempt makes its own; nothing else has changed.\<close>

theorem restore_again_repeats:
  assumes "keeps_logs api logs" "reads_file api logs contents" "loads contents = Inr doc" "py_iter doc = Inr ds"
    and "py_item req ''index'' = Inr name"
    and "ask_restore api text_of loads req (Suc (length failures)) w = (map Inr (failures @ [answer]), w')"
    and "\<forall>x \<in> set failures. \<not> restored x" "restored answer"
  shows "\<exists>parts added. length parts = length failures \<and> (\<forall>part \<in> set parts. refused_at api name ds part) \<and>
    map snd added = concat parts @ ds \<and> logs w' = logs w ++ map_of added \<and> distinct (map fst added) \<and>
    (\<forall>k \<in> fst ` set added. fst k = name \<and> logs w k = None)"
proof -
  from ask_restore_run [where logs = logs and loads = loads and contents = contents and text_of = text_of and w = w and answers = "failures @ [answer]", OF assms(1-5)] assms(6) obtain parts added where p:
    "new_docs name (logs w) added (logs w')" "map snd added = concat parts"
    "list_all2 (\<lambda>answer part. if restored answer then part = ds else refused_at api name ds part) (failures @ [answer]) parts"
    by auto
  from p(3) obtain front part where f: "parts = front @ [part]"
    "list_all2 (\<lambda>answer part. if restored answer then part = ds else refused_at api name ds part) failures front"
    "if restored answer then part = ds else refused_at api name ds part"
    by (auto simp: list_all2_append1 list_all2_Cons1)
  from f(2) have "length front = length failures" by (simp add: list_all2_lengthD)
  moreover from f(2) assms(7) have "\<forall>part \<in> set front. refused_at api name ds part"
    by (induction failures front rule: list_all2_induct) simp_all
  ultimately show ?thesis
    using p(1,2) f(1,3) assms(8) by (intro exI [of _ front] exI [of _ added]) (simp add: new_docs_def)
qed

section \<open>Runs\<close>

text \<open>A service whose world is its clock, and where the document appears after two seconds.\<close>

definition demo_search :: "rat search_client" where
  "demo_search = \<lparr>now_string = (\<lambda>w. ''2024-01-01''), randint = (\<lambda>a b w. (a, w)), index_doc = (\<lambda>_ _ _ _ w. (Inr (), w)),
     get_doc = (\<lambda>_ _ _ w. (Inr (if w < 2 then None else Some (JStr ''doc'')), w)), monotonic = (\<lambda>w. w),
     sleep_one = (\<lambda>w. (Inr (), w + 1))\<rparr>"

lemma demo_search_clock: "clock_ok demo_search"
  by (simp add: clock_ok_def forward_def demo_search_def)

theorem reading_ends_witness:
  "\<exists>r w'. elasticsearch_main demo_search 60 0 = Some (r, w') \<and> (\<forall>d. r = Inr d \<longrightarrow> truthy d \<or> 60 \<le> monotonic demo_search w' - 0)"
  using reading_ends [OF demo_search_clock, of 0] by (simp add: demo_search_def)

theorem opensearch_reads_once_witness:
  "\<exists>m. opensearch_main demo_search [] [] 60 0 = Some (Inl (TypeError m), 1)"
  using opensearch_reads_once [of demo_search 0 1 0 "[]" "[]" 0 0 1 59] by (simp add: demo_search_def)

text \<open>A store whose world is the logs and a count of its calls, and that fails at the second document of the first attempt.\<close>

definition demo_logs :: "(((json \<times> string) \<times> json) list \<times> nat) log_store" where
  "demo_logs = \<lparr>get_bucket = (\<lambda>_ w. (Inr (), w)), download_file = (\<lambda>_ _ w. (Inr ''file'', w)),
     new_id = (\<lambda>w. (replicate (Suc (fold (max \<circ> length \<circ> snd \<circ> fst) (fst w) 0)) (CHR ''x''), w)),
     index_log = (\<lambda>name i d refresh w.
       if snd w = 1 then (Inl (ConnectionError ''down''), (fst w, 2)) else (Inr (), (((name, i), d) # fst w, snd w + 1)))\<rparr>"

lemma demo_logs_ok: "keeps_logs demo_logs (map_of \<circ> fst)" "reads_file demo_logs (map_of \<circ> fst) ''file''"
proof -
  have ge: "m \<le> fold (max \<circ> length \<circ> snd \<circ> fst) xs m" for xs :: "((json \<times> string) \<times> json) list" and m
    by (induction xs arbitrary: m) (auto intro: order_trans [OF max.cobounded2])
  have le: "length (snd (fst x)) \<le> fold (max \<circ> length \<circ> snd \<circ> fst) xs m" if "x \<in> set xs" for xs :: "((json \<times> string) \<times> json) list" and m x
    using that by (induction xs arbitrary: m) (auto intro: order_trans [OF max.cobounded1 ge])
  have "map_of xs (name, replicate (Suc (fold (max \<circ> length \<circ> snd \<circ> fst) xs 0)) (CHR ''x'')) = None"
    for xs :: "((json \<times> string) \<times> json) list" and name
  proof -
    have "snd (fst x) \<noteq> replicate (Suc (fold (max \<circ> length \<circ> snd \<circ> fst) xs 0)) (CHR ''x'')" if "x \<in> set xs" for x
      using le [OF that, of 0] by (metis Suc_n_not_le_n length_replicate)
    then show ?thesis by (fastforce simp: map_of_eq_None_iff)
  qed
  then show "keeps_logs demo_logs (map_of \<circ> fst)" by (auto simp: keeps_logs_def demo_logs_def split: if_splits)
qed (simp add: reads_file_def demo_logs_def)

definition demo_request :: json where
  "demo_request = JObj [(''bucket'', JStr ''b''), (''file'', JStr ''f''), (''index'', JStr ''logs'')]"

definition demo_docs :: json where
  "demo_docs = JList [JInt 1, JInt 2]"

definition demo_restored :: "((json \<times> string) \<times> json) list \<times> nat" where
  "demo_restored = ([((JStr ''logs'', ''xxx''), JInt 2), ((JStr ''logs'', ''xx''), JInt 1), ((JStr ''logs'', ''x''), JInt 1)], 4)"

lemma demo_restore_run:
  "ask_restore demo_logs (\<lambda>_. ''down'') (\<lambda>_. Inr demo_docs) demo_request (Suc (length [[(''success'', JStr ''false''), (''reason'', JStr ''down'')]])) ([], 0) =
     (map Inr ([[(''success'', JStr ''false''), (''reason'', JStr ''down'')]] @ [[(''success'', JStr ''true''), (''result'', demo_docs)]]), demo_restored)"
  by (simp add: restore_logs_def demo_logs_def demo_request_def demo_docs_def abind_def py_item_def ditem_def py_iter_def
      is_Exception_def demo_restored_def)

theorem restore_again_repeats_witness:
  "\<exists>parts added. length parts = 1 \<and> (\<forall>part \<in> set parts. refused_at demo_logs (JStr ''logs'') [JInt 1, JInt 2] part) \<and>
     map snd added = concat parts @ [JInt 1, JInt 2] \<and> map_of (fst demo_restored) = map_of added"
proof -
  have "py_iter demo_docs = Inr [JInt 1, JInt 2]" "py_item demo_request ''index'' = Inr (JStr ''logs'')"
    by (simp_all add: py_iter_def demo_docs_def demo_request_def py_item_def ditem_def)
  from restore_again_repeats [OF demo_logs_ok _ this demo_restore_run] show ?thesis
    by (fastforce simp: restored_def dget_def)
qed

end
