(* ===== verification/StockFeed.thy ===== *)
theory StockFeed
  imports PyJson PyStr PyState PyNumber
begin

text \<open>
  \<open>stockprovider.py\<close> and \<open>producer.py\<close> of \<open>flink-kafka\<close>: a provider of random stock prices, whose state is two global
  lists, and the loop that sends sixteen of its messages in every round. The random numbers, the clock and the Kafka producer
  are parameters that run on a world of their own.
\<close>

section \<open>The provider\<close>

definition StockSymbols :: "string list" where
  "StockSymbols = [''AVN'', ''KAFKA'', ''PSQL'', ''MYSQL'', ''OS'', ''CQL'', ''REDIS'', ''INFLUX'', ''GRAFANA'', ''M3'']"

definition ShuffleProb :: rat where "ShuffleProb = 2 / 10"

definition ChangeAmount :: rat where "ChangeAmount = 168 / 100"

record stocks =
  StockCurrentValues :: "rat list"
  StockUpProb :: "rat list"

definition stocks0 :: stocks where
  "stocks0 =
     \<lparr>StockCurrentValues =
        [99999 / 100, 88888 / 100, 77777 / 100, 66666 / 100, 2010 / 100, 2020 / 100, 1210 / 100, 2510 / 100, 2510 / 100, 2750 / 100],
      StockUpProb = [5 / 10, 6 / 10, 7 / 10, 8 / 10, 9 / 10, 19 / 100, 4 / 10, 3 / 10, 2 / 10, 1 / 10]\<rparr>"

record 'w dice =
  throw :: "'w \<Rightarrow> rat \<times> 'w"
  choice :: "string list \<Rightarrow> 'w \<Rightarrow> string \<times> 'w"
  time :: "'w \<Rightarrow> rat"

text \<open>The state of a run is the two lists and the world.\<close>

type_synonym 'w feed = "stocks \<times> 'w"

definition throw_dice :: "('w, 'z) dice_scheme \<Rightarrow> ('w feed, rat) run" where
  "throw_dice d = (\<lambda>(s, w). case throw d w of (r, w') \<Rightarrow> (Inr r, (s, w')))"

text \<open>\<open>StockSymbols.index(symbol)\<close>.\<close>

fun index_of :: "string \<Rightarrow> string list \<Rightarrow> nat res" where
  "index_of x [] = Inl (ValueError ''is not in list'')"
| "index_of x (y # ys) = (if x = y then Inr 0 else rbind (index_of x ys) (\<lambda>n. Inr (Suc n)))"

definition stock_value :: "('w, 'z) dice_scheme \<Rightarrow> string \<Rightarrow> ('w feed, rat) run" where
  "stock_value d symbol =
     abind (aret (index_of symbol StockSymbols)) (\<lambda>indexStock.
     abind (\<lambda>(s, w). (Inr (StockCurrentValues s ! indexStock), (s, w))) (\<lambda>currentval.
     abind (throw_dice d) (\<lambda>r.
     abind (\<lambda>(s, w). (Inr (if StockUpProb s ! indexStock < r then - 1 else 1), (s, w))) (\<lambda>goesup.
     abind (throw_dice d) (\<lambda>r.
       let nextval = round2 (currentval + r * ChangeAmount * goesup) in
       (\<lambda>(s, w). (Inr nextval, (s\<lparr>StockCurrentValues := (StockCurrentValues s)[indexStock := nextval]\<rparr>, w))))))))"

definition reshuffle_probs :: "('w, 'z) dice_scheme \<Rightarrow> string \<Rightarrow> ('w feed, unit) run" where
  "reshuffle_probs d symbol =
     abind (aret (index_of symbol StockSymbols)) (\<lambda>indexStock.
     abind (throw_dice d) (\<lambda>r.
       (\<lambda>(s, w). (Inr (), (s\<lparr>StockUpProb := (StockUpProb s)[indexStock := r]\<rparr>, w)))))"

text \<open>\<open>int(x)\<close> of a float: towards zero.\<close>

definition truncate_float :: "rat \<Rightarrow> int" where
  "truncate_float x = (if 0 \<le> x then \<lfloor>x\<rfloor> else - \<lfloor>- x\<rfloor>)"

record stock_message =
  sm_symbol :: string
  sm_bid :: rat
  sm_ask :: rat
  sm_stamp :: int

definition produce_msg :: "('w, 'z) dice_scheme \<Rightarrow> ('w feed, stock_message) run" where
  "produce_msg d = (\<lambda>(s, w).
     case choice d StockSymbols w of (stock_symbol, w1) \<Rightarrow>
     (let ts = time d w1 in
      abind (throw_dice d) (\<lambda>r.
      abind (if ShuffleProb < r then reshuffle_probs d stock_symbol else aret (Inr ())) (\<lambda>_.
      abind (stock_value d stock_symbol) (\<lambda>bid.
      abind (stock_value d stock_symbol) (\<lambda>ask.
        aret (Inr \<lparr>sm_symbol = stock_symbol, sm_bid = bid, sm_ask = ask, sm_stamp = truncate_float (ts * 1000)\<rparr>)))))
      (s, w1)))"

section \<open>The loop\<close>

record 'w stock_producer = "'w dice" +
  send_stock :: "string \<Rightarrow> stock_message \<Rightarrow> ('w, unit) run"
  flush_stocks :: "rat \<Rightarrow> ('w, unit) run"
  sleep_seconds :: "rat \<Rightarrow> ('w, unit) run"

definition in_world :: "('w, 'a) run \<Rightarrow> ('w feed, 'a) run" where
  "in_world m = (\<lambda>(s, w). case m w of (r, w') \<Rightarrow> (r, (s, w')))"

text \<open>The topic, the timeout and the waiting time are those of the module \<open>config\<close>.\<close>

fun send_messages :: "('w, 'z) stock_producer_scheme \<Rightarrow> string \<Rightarrow> rat \<Rightarrow> nat \<Rightarrow> ('w feed, unit) run" where
  "send_messages api topic timeout 0 = aret (Inr ())"
| "send_messages api topic timeout (Suc n) =
     abind (produce_msg api) (\<lambda>message.
     abind (in_world (send_stock api topic message)) (\<lambda>_.
     abind (in_world (flush_stocks api timeout)) (\<lambda>_.
     send_messages api topic timeout n)))"

text \<open>The loop has no end but an exception; \<open>None\<close> when it would still be running.\<close>

fun stock_rounds :: "('w, 'z) stock_producer_scheme \<Rightarrow> string \<Rightarrow> rat \<Rightarrow> rat \<Rightarrow> nat \<Rightarrow> 'w feed \<Rightarrow> (exn \<times> 'w feed) option" where
  "stock_rounds api topic timeout wait_time 0 s = None"
| "stock_rounds api topic timeout wait_time (Suc n) s =
     (case abind (send_messages api topic timeout 16) (\<lambda>_. in_world (sleep_seconds api (wait_time / 2))) s of
        (Inl e, t) \<Rightarrow> Some (e, t)
      | (Inr _, t) \<Rightarrow> stock_rounds api topic timeout wait_time n t)"

section \<open>The consumer\<close>

text \<open>
  \<open>consumer.py\<close>: two polls in a row, the messages of every partition are printed, and a pause. The loop has no end, and
  the commit after it is never reached.
\<close>

record 'w stock_consumer =
  poll_records :: "rat \<Rightarrow> ('w, (string \<times> string list) list) run"
  wait_seconds :: "rat \<Rightarrow> ('w, unit) run"

definition poll_and_print :: "('w, 'z) stock_consumer_scheme \<Rightarrow> rat \<Rightarrow> string list \<times> 'w \<Rightarrow> unit res \<times> string list \<times> 'w" where
  "poll_and_print api timeout = (\<lambda>(out, w).
     case poll_records api timeout w of
       (Inl e, w') \<Rightarrow> (Inl e, (out, w'))
     | (Inr raw_msgs, w') \<Rightarrow> (Inr (), (out @ concat (map snd raw_msgs), w')))"

fun print_rounds :: "('w, 'z) stock_consumer_scheme \<Rightarrow> rat \<Rightarrow> rat \<Rightarrow> nat \<Rightarrow> string list \<times> 'w \<Rightarrow> (exn \<times> string list \<times> 'w) option" where
  "print_rounds api timeout wait_time 0 s = None"
| "print_rounds api timeout wait_time (Suc n) s =
     (case abind (poll_and_print api timeout) (\<lambda>_. abind (poll_and_print api timeout) (\<lambda>_. \<lambda>(out, w).
             case wait_seconds api wait_time w of (r, w') \<Rightarrow> (r, (out, w')))) s of
        (Inl e, t) \<Rightarrow> Some (e, t)
      | (Inr _, t) \<Rightarrow> print_rounds api timeout wait_time n t)"

section \<open>Facts\<close>

text \<open>The prices are hundredths and as many as the symbols.\<close>

definition stocks_ok :: "stocks \<Rightarrow> bool" where
  "stocks_ok s \<longleftrightarrow>
     length (StockCurrentValues s) = length StockSymbols \<and> length (StockUpProb s) = length StockSymbols \<and>
     (\<forall>v \<in> set (StockCurrentValues s). \<exists>m. v = of_int m / 100)"

definition dice_ok :: "('w, 'z) dice_scheme \<Rightarrow> bool" where
  "dice_ok d \<longleftrightarrow> (\<forall>w. 0 \<le> fst (throw d w) \<and> fst (throw d w) \<le> 1)"

lemma index_of_Inr: "index_of x ys = Inr n \<Longrightarrow> n < length ys \<and> ys ! n = x"
  by (induction ys arbitrary: n) (auto simp: rbind_eq_Inr split: if_splits)

lemma stock_value_run:
  assumes "stocks_ok s" "dice_ok d" "stock_value d symbol (s, w) = (Inr v, (t, w'))"
  shows "\<exists>i. index_of symbol StockSymbols = Inr i \<and> t = s\<lparr>StockCurrentValues := (StockCurrentValues s)[i := v]\<rparr> \<and>
    \<bar>v - StockCurrentValues s ! i\<bar> \<le> ChangeAmount \<and> stocks_ok t"
proof -
  from assms(3) obtain i r1 w1 r2 w2 where
    i: "index_of symbol StockSymbols = Inr i" and r: "throw d w = (r1, w1)" "throw d w1 = (r2, w2)"
    and v: "v = round2 (StockCurrentValues s ! i + r2 * ChangeAmount * (if StockUpProb s ! i < r1 then - 1 else 1))"
    and t: "t = s\<lparr>StockCurrentValues := (StockCurrentValues s)[i := v]\<rparr>"
    by (auto simp: stock_value_def abind_Inr throw_dice_def Let_def split: prod.splits)
  let ?c = "StockCurrentValues s ! i"
  have len: "i < length (StockCurrentValues s)" using index_of_Inr [OF i] assms(1) by (simp add: stocks_ok_def)
  with assms(1) obtain m where m: "?c = of_int m / 100" by (force simp: stocks_ok_def in_set_conv_nth)
  have "0 \<le> r2" "r2 \<le> 1" using assms(2) r(2) unfolding dice_ok_def by (metis fst_conv)+
  then have "\<bar>r2 * ChangeAmount * (if StockUpProb s ! i < r1 then - 1 else 1)\<bar> \<le> of_int 168 / 100"
    by (simp add: ChangeAmount_def abs_mult)
  then have "\<bar>(?c + r2 * ChangeAmount * (if StockUpProb s ! i < r1 then - 1 else 1)) - ?c\<bar> \<le> of_int 168 / 100" by simp
  from round2_moves [OF m this] v have b: "\<exists>n. v = of_int n / 100" "\<bar>v - ?c\<bar> \<le> ChangeAmount"
    by (auto simp: ChangeAmount_def)
  then have "stocks_ok t"
    using assms(1) t by (auto simp: stocks_ok_def dest!: set_update_subset_insert [THEN subsetD])
  with i t b(2) show ?thesis by blast
qed

lemma reshuffle_run:
  assumes "stocks_ok s" "reshuffle_probs d symbol (s, w) = (Inr u, (t, w'))"
  shows "StockCurrentValues t = StockCurrentValues s \<and> stocks_ok t"
  using assms by (auto simp: reshuffle_probs_def abind_Inr throw_dice_def stocks_ok_def split: prod.splits)

text \<open>One message: its prices are near the price before, the ask price is kept, and no other price changes.\<close>

lemma produce_msg_run:
  assumes "stocks_ok s" "dice_ok d" "produce_msg d (s, w) = (Inr m, (t, w'))"
  shows "\<exists>i. index_of (sm_symbol m) StockSymbols = Inr i \<and> stocks_ok t \<and>
    StockCurrentValues t = (StockCurrentValues s)[i := sm_ask m] \<and>
    \<bar>sm_bid m - StockCurrentValues s ! i\<bar> \<le> ChangeAmount \<and> \<bar>sm_ask m - sm_bid m\<bar> \<le> ChangeAmount"
proof -
  obtain symbol w1 where c: "choice d StockSymbols w = (symbol, w1)" by force
  with assms(3) obtain r w2 u s3 w3 s4 w4 where
    r: "throw_dice d (s, w1) = (Inr r, (s, w2))"
    and p: "(if ShuffleProb < r then reshuffle_probs d symbol else aret (Inr ())) (s, w2) = (Inr u, (s3, w3))"
    and b: "stock_value d symbol (s3, w3) = (Inr (sm_bid m), (s4, w4))"
    and a: "stock_value d symbol (s4, w4) = (Inr (sm_ask m), (t, w'))" and m: "sm_symbol m = symbol"
    by (auto simp: produce_msg_def abind_Inr throw_dice_def Let_def split: prod.splits)
  have s3: "StockCurrentValues s3 = StockCurrentValues s" "stocks_ok s3"
    using p assms(1) reshuffle_run [OF assms(1), of d symbol w2 u s3 w3] by (auto split: if_splits)
  from stock_value_run [OF s3(2) assms(2) b] obtain i where
    i: "index_of symbol StockSymbols = Inr i" "s4 = s3\<lparr>StockCurrentValues := (StockCurrentValues s3)[i := sm_bid m]\<rparr>"
      "\<bar>sm_bid m - StockCurrentValues s3 ! i\<bar> \<le> ChangeAmount" "stocks_ok s4" by blast
  from stock_value_run [OF i(4) assms(2) a] i(1) have
    t: "t = s4\<lparr>StockCurrentValues := (StockCurrentValues s4)[i := sm_ask m]\<rparr>"
      "\<bar>sm_ask m - StockCurrentValues s4 ! i\<bar> \<le> ChangeAmount" "stocks_ok t" by auto
  have "i < length (StockCurrentValues s)" using index_of_Inr [OF i(1)] assms(1) by (simp add: stocks_ok_def)
  with i t s3(1) m show ?thesis by simp
qed

lemma in_world_run: "in_world m x = (r, y) \<longleftrightarrow> (\<exists>w'. m (snd x) = (r, w') \<and> y = (fst x, w'))"
  by (auto simp: in_world_def split: prod.splits)

text \<open>A round moves a price by twice the amount for every message at most.\<close>

lemma send_messages_run:
  assumes "dice_ok api"
  shows "stocks_ok s \<Longrightarrow> send_messages api topic timeout n (s, w) = (Inr u, (t, w')) \<Longrightarrow>
    stocks_ok t \<and> (\<forall>i < length StockSymbols. \<bar>StockCurrentValues t ! i - StockCurrentValues s ! i\<bar> \<le> of_nat n * (2 * ChangeAmount))"
proof (induction n arbitrary: s w)
  case 0
  then show ?case by simp
next
  case (Suc n)
  then obtain m s1 w1 u1 w2 u2 w3 where
    m: "produce_msg api (s, w) = (Inr m, (s1, w1))"
    and x: "in_world (send_stock api topic m) (s1, w1) = (Inr u1, (s1, w2))" "in_world (flush_stocks api timeout) (s1, w2) = (Inr u2, (s1, w3))"
    and n: "send_messages api topic timeout n (s1, w3) = (Inr u, (t, w'))"
    by (auto simp: abind_Inr in_world_run)
  from produce_msg_run [OF Suc.prems(1) assms m] obtain k where
    k: "stocks_ok s1" "StockCurrentValues s1 = (StockCurrentValues s)[k := sm_ask m]"
      "\<bar>sm_bid m - StockCurrentValues s ! k\<bar> \<le> ChangeAmount" "\<bar>sm_ask m - sm_bid m\<bar> \<le> ChangeAmount" by blast
  have "\<bar>StockCurrentValues t ! i - StockCurrentValues s ! i\<bar> \<le> of_nat (Suc n) * (2 * ChangeAmount)" if i: "i < length StockSymbols" for i
  proof -
    have l: "i < length (StockCurrentValues s)" using i Suc.prems(1) by (simp add: stocks_ok_def)
    have "\<bar>sm_ask m - StockCurrentValues s ! k\<bar> \<le> 2 * ChangeAmount" using k(3,4) by linarith
    then have "\<bar>StockCurrentValues s1 ! i - StockCurrentValues s ! i\<bar> \<le> 2 * ChangeAmount"
      using k(2) l by (cases "i = k") (simp_all add: ChangeAmount_def)
    moreover have "\<bar>StockCurrentValues t ! i - StockCurrentValues s1 ! i\<bar> \<le> of_nat n * (2 * ChangeAmount)"
      using Suc.IH [OF k(1) n] i by blast
    moreover have "of_nat (Suc n) * (2 * ChangeAmount) = of_nat n * (2 * ChangeAmount) + 2 * ChangeAmount"
      by (simp add: field_simps)
    ultimately show ?thesis by linarith
  qed
  with Suc.IH [OF k(1) n] show ?case by blast
qed

section \<open>Properties\<close>

text \<open>A message has prices within 1.68 of the price before it and of each other, and sets the price of its stock, and of no other, to the
  ask price; \<open>n\<close> messages move every price by 3.36 times \<open>n\<close> at most.\<close>

theorem prices_move_slowly:
  assumes "dice_ok api" "stocks_ok s" "send_messages api topic timeout n (s, w) = (Inr u, (t, w'))"
  shows "stocks_ok t \<and> (\<forall>i < length StockSymbols. \<bar>StockCurrentValues t ! i - StockCurrentValues s ! i\<bar> \<le> of_nat n * (336 / 100))"
  using send_messages_run [OF assms(1-3)] by (simp add: ChangeAmount_def)

section \<open>Runs\<close>

text \<open>Dice that always show one; the price goes up twice.\<close>

definition demo_dice :: "unit stock_producer" where
  "demo_dice = \<lparr>throw = (\<lambda>w. (1, w)), choice = (\<lambda>xs w. (hd xs, w)), time = (\<lambda>_. 3 / 2), send_stock = (\<lambda>_ _ w. (Inr (), w)),
     flush_stocks = (\<lambda>_ w. (Inr (), w)), sleep_seconds = (\<lambda>_ w. (Inr (), w))\<rparr>"

lemma stocks0_ok: "stocks_ok stocks0"
proof -
  have "StockCurrentValues stocks0 = map (\<lambda>m. of_int m / 100) [99999, 88888, 77777, 66666, 2010, 2020, 1210, 2510, 2510, 2750]"
    by (simp add: stocks0_def)
  then have "\<forall>v \<in> set (StockCurrentValues stocks0). \<exists>m. v = of_int m / 100" by auto
  then show ?thesis by (simp add: stocks_ok_def) (simp add: stocks0_def StockSymbols_def)
qed

lemma demo_prices:
  "send_messages demo_dice ''t'' 1 1 (stocks0, ()) =
     (Inr (), (stocks0\<lparr>StockCurrentValues := (StockCurrentValues stocks0)[0 := 100335 / 100], StockUpProb := (StockUpProb stocks0)[0 := 1]\<rparr>, ()))"
  by (simp add: produce_msg_def demo_dice_def stocks0_def StockSymbols_def throw_dice_def abind_def in_world_def ShuffleProb_def
      reshuffle_probs_def stock_value_def ChangeAmount_def round2_def half_even_def Let_def)

theorem prices_move_slowly_witness:
  "stocks_ok (fst (snd (send_messages demo_dice ''t'' 1 1 (stocks0, ()))))"
proof -
  have "dice_ok demo_dice" by (simp add: dice_ok_def demo_dice_def)
  from prices_move_slowly [OF this stocks0_ok demo_prices] show ?thesis by (simp only: demo_prices) simp
qed

end
