(* ===== verification/ServiceExamples.thy ===== *)
theory ServiceExamples
  imports PyJson PyStr PyState
begin

text \<open>
  Short programs around one service each: the Kafka example with its check of the arguments (\<open>kafka/python\<close>), the list of
  addresses that \<open>parse.py\<close> of \<open>kafka-replicate-cross-project\<close> writes, the CPU usage that \<open>produce.py\<close> of
  \<open>pg-kafka-bigquery\<close> inserts and \<open>consume.py\<close> reads, the integration of \<open>m3/python\<close>, and the functions that the
  Pulumi stacks deploy. The clients are parameters that run on a world of their own.
\<close>

section \<open>The Kafka example\<close>

record kafka_args =
  service_uri :: string
  ca_path :: string
  key_path :: string
  cert_path :: string
  consumer_flag :: bool
  producer_flag :: bool

definition fail :: "'a res" where
  "fail = Inl (SystemExit 1)"

definition validate_args :: "(string \<Rightarrow> bool) \<Rightarrow> kafka_args \<Rightarrow> unit res" where
  "validate_args isfile args =
     rbind (if \<not> isfile (ca_path args) then fail else Inr ()) (\<lambda>_.
     rbind (if \<not> isfile (key_path args) then fail else Inr ()) (\<lambda>_.
     rbind (if \<not> isfile (cert_path args) then fail else Inr ()) (\<lambda>_.
       if producer_flag args \<and> consumer_flag args then fail
       else if \<not> producer_flag args \<and> \<not> consumer_flag args then fail
       else Inr ())))"

record 'w kafka_service =
  open_producer :: "string \<Rightarrow> string \<Rightarrow> string \<Rightarrow> string \<Rightarrow> ('w, unit) run"
  put_message :: "string \<Rightarrow> string \<Rightarrow> ('w, unit) run"
  flush_messages :: "('w, unit) run"
  open_consumer :: "string \<Rightarrow> string \<Rightarrow> string \<Rightarrow> string \<Rightarrow> ('w, unit) run"
  received :: "string \<Rightarrow> 'w \<Rightarrow> (exn + string) list"
  print_text :: "string \<Rightarrow> 'w \<Rightarrow> 'w"
  close_consumer :: "('w, unit) run"

definition example_topic :: string where
  "example_topic = ''python_example_topic''"

fun put_numbers :: "('w, 'z) kafka_service_scheme \<Rightarrow> int list \<Rightarrow> ('w, unit) run" where
  "put_numbers api [] = flush_messages api"
| "put_numbers api (i # is) =
     abind (put_message api example_topic (''message number '' @ show_int i)) (\<lambda>_. put_numbers api is)"

definition producer_example :: "('w, 'z) kafka_service_scheme \<Rightarrow> kafka_args \<Rightarrow> ('w, unit) run" where
  "producer_example api args =
     abind (open_producer api (service_uri args) (ca_path args) (cert_path args) (key_path args)) (\<lambda>_. put_numbers api [1, 2, 3])"

text \<open>The consumer prints what comes until none came for a second; \<open>decode\<close> is the UTF-8 decoding.\<close>

definition print_value :: "('w, 'z) kafka_service_scheme \<Rightarrow> (string \<Rightarrow> string res) \<Rightarrow> 'w \<Rightarrow> string \<Rightarrow> exn option \<times> 'w" where
  "print_value api decode w v =
     (case decode v of Inl e \<Rightarrow> (Some e, w) | Inr t \<Rightarrow> (None, print_text api t w))"

definition consumer_example :: "('w, 'z) kafka_service_scheme \<Rightarrow> (string \<Rightarrow> string res) \<Rightarrow> kafka_args \<Rightarrow> ('w, unit) run" where
  "consumer_example api decode args =
     abind (open_consumer api (service_uri args) (ca_path args) (cert_path args) (key_path args)) (\<lambda>_. \<lambda>w.
       case iterate (print_value api decode) (received api example_topic w) w of
         (Some e, w') \<Rightarrow> (Inl e, w')
       | (None, w') \<Rightarrow> close_consumer api w')"

definition kafka_main :: "('w, 'z) kafka_service_scheme \<Rightarrow> (string \<Rightarrow> string res) \<Rightarrow> (string \<Rightarrow> bool) \<Rightarrow> kafka_args \<Rightarrow> ('w, unit) run" where
  "kafka_main api decode isfile args =
     abind (aret (validate_args isfile args)) (\<lambda>_.
       if producer_flag args then producer_example api args
       else if consumer_flag args then consumer_example api decode args
       else aret (Inr ()))"

section \<open>The list of addresses\<close>

text \<open>\<open>json.dumps\<close> of a list of strings.\<close>

definition hex_digit :: "int \<Rightarrow> char" where
  "hex_digit d = ''0123456789abcdef'' ! nat d"

definition escape_char :: "char \<Rightarrow> string" where
  "escape_char c =
     (let n = code c in
      if c = CHR 0x22 then [CHR 0x5C, CHR 0x22] else if c = CHR 0x5C then [CHR 0x5C, CHR 0x5C]
      else if n = 10 then [CHR 0x5C, CHR ''n''] else if n = 13 then [CHR 0x5C, CHR ''r'']
      else if n = 9 then [CHR 0x5C, CHR ''t''] else if n = 12 then [CHR 0x5C, CHR ''f'']
      else if n = 8 then [CHR 0x5C, CHR ''b'']
      else if n < 32 \<or> 126 < n then [CHR 0x5C, CHR ''u'', CHR ''0'', CHR ''0'', hex_digit (n div 16), hex_digit (n mod 16)]
      else [c])"

definition dumps_string :: "string \<Rightarrow> string" where
  "dumps_string s = [CHR 0x22] @ concat (map escape_char s) @ [CHR 0x22]"

fun join_with :: "string \<Rightarrow> string list \<Rightarrow> string" where
  "join_with sep [] = []"
| "join_with sep [s] = s"
| "join_with sep (s # t # ss) = s @ sep @ join_with sep (t # ss)"

definition dumps_strings :: "string list \<Rightarrow> string" where
  "dumps_strings ss = ''['' @ join_with '', '' (map dumps_string ss) @ '']''"

text \<open>\<open>s.replace(', ', ',')\<close> and \<open>s.replace('"', '')\<close>.\<close>

fun replace_comma_space :: "string \<Rightarrow> string" where
  "replace_comma_space (a # b # s) =
     (if a = CHR '','' \<and> b = CHR '' '' then CHR '','' # replace_comma_space s else a # replace_comma_space (b # s))"
| "replace_comma_space s = s"

definition remove_quotes :: "string \<Rightarrow> string" where
  "remove_quotes s = filter (\<lambda>c. c \<noteq> CHR 0x22) s"

text \<open>
  The program, for the value that \<open>json.loads\<close> gives: assigning to the elements works for a list only; a dictionary changes
  its size in the loop, a string cannot be assigned to, and the rest cannot be enumerated. \<open>str_of\<close> is \<open>str\<close>.
\<close>

definition parse_ips :: "(json \<Rightarrow> string) \<Rightarrow> json \<Rightarrow> string res" where
  "parse_ips str_of ips =
     (case ips of
        JList xs \<Rightarrow>
          (let dumped = dumps_strings (map (\<lambda>ip. str_of ip @ ''/32'') xs);
               inner = butlast (tl dumped)
           in Inr (remove_quotes (replace_comma_space inner)))
      | JObj d \<Rightarrow> if d = [] then Inr [] else Inl (RuntimeError ''dictionary changed size during iteration'')
      | JStr s \<Rightarrow> if s = [] then Inr [] else Inl (TypeError ''str object does not support item assignment'')
      | _ \<Rightarrow> Inl (TypeError ''object is not iterable''))"

section \<open>CPU usage\<close>

record cpu_row =
  cpu_host :: string
  cpu_core :: int
  cpu_usage :: rat

record 'w usage_db =
  connect_usage :: "('w, unit) run"
  rand_int :: "int \<Rightarrow> int \<Rightarrow> 'w \<Rightarrow> int \<times> 'w"
  rand :: "'w \<Rightarrow> rat \<times> 'w"
  insert_rows :: "cpu_row list \<Rightarrow> ('w, unit) run"
  commit_usage :: "('w, unit) run"
  pause_second :: "('w, unit) run"
  close_usage :: "('w, unit) run"

fun usage_rows :: "('w, 'z) usage_db_scheme \<Rightarrow> nat \<Rightarrow> 'w \<Rightarrow> cpu_row list \<times> 'w" where
  "usage_rows db 0 w = ([], w)"
| "usage_rows db (Suc n) w =
     (case rand_int db 0 50 w of (h, w1) \<Rightarrow>
      case rand_int db 1 4 w1 of (c, w2) \<Rightarrow>
      case rand db w2 of (u, w3) \<Rightarrow>
      case usage_rows db n w3 of (rows, w4) \<Rightarrow>
        (\<lparr>cpu_host = ''cluster'' @ show_int h, cpu_core = c, cpu_usage = u * 80 + 20\<rparr> # rows, w4))"

fun usage_seconds :: "('w, 'z) usage_db_scheme \<Rightarrow> int \<Rightarrow> nat \<Rightarrow> ('w, unit) run" where
  "usage_seconds db per_second 0 = aret (Inr ())"
| "usage_seconds db per_second (Suc t) = (\<lambda>w.
     case usage_rows db (nat per_second) w of (rows, w1) \<Rightarrow>
       abind (insert_rows db rows) (\<lambda>_.
       abind (commit_usage db) (\<lambda>_.
       abind (pause_second db) (\<lambda>_.
       usage_seconds db per_second t))) w1)"

text \<open>Any \<open>Exception\<close> is logged only; a connection that was made is closed on every way out.\<close>

definition logged :: "unit res \<Rightarrow> unit res" where
  "logged r = (case r of Inl e \<Rightarrow> if is_Exception e then Inr () else Inl e | Inr u \<Rightarrow> Inr u)"

definition produce_usage :: "('w, 'z) usage_db_scheme \<Rightarrow> int \<Rightarrow> int \<Rightarrow> ('w, unit) run" where
  "produce_usage db nb_seconds nb_per_second = (\<lambda>w.
     case connect_usage db w of
       (Inl e, w1) \<Rightarrow> (logged (Inl e), w1)
     | (Inr _, w1) \<Rightarrow>
         (case usage_seconds db nb_per_second (nat nb_seconds) w1 of
            (r, w2) \<Rightarrow>
              (case close_usage db w2 of
                 (Inl e, w3) \<Rightarrow> (Inl e, w3)
               | (Inr _, w3) \<Rightarrow> (logged r, w3))))"

text \<open>The consumer prints the row after the change, of every message; the first one without ends it.\<close>

definition after_of :: "json \<Rightarrow> json res" where
  "after_of v = rbind (py_item v ''payload'') (\<lambda>p. py_item p ''after'')"

definition print_after :: "json list \<Rightarrow> json \<Rightarrow> exn option \<times> json list" where
  "print_after out v = (case after_of v of Inl e \<Rightarrow> (Some e, out) | Inr a \<Rightarrow> (None, out @ [a]))"

definition consume_usage :: "(exn + json) list \<Rightarrow> exn option \<times> json list" where
  "consume_usage messages = iterate print_after messages []"

section \<open>The M3 integration\<close>

text \<open>What the Aiven client answers: an error has a status, and a response that may not have a message.\<close>

datatype integration_reply = Integrated | IntegrationError int "json res"

definition acceptable_errors :: "string list" where
  "acceptable_errors = [''Service integration already exists'', ''Only 1 integration(s) of this type allowed per service'']"

definition create_integration :: "(string \<Rightarrow> string \<Rightarrow> string \<Rightarrow> ('w, integration_reply) run) \<Rightarrow> string \<Rightarrow> string \<Rightarrow> string \<Rightarrow> ('w, unit) run" where
  "create_integration create_service_integration source destination integration =
     abind (create_service_integration source destination integration) (\<lambda>r.
       case r of
         Integrated \<Rightarrow> aret (Inr ())
       | IntegrationError status response \<Rightarrow>
           abind (aret (rbind response (\<lambda>body. py_item body ''message''))) (\<lambda>message.
             if \<not> (status = 409 \<and> (\<exists>s \<in> set acceptable_errors. message = JStr s)) then aret (Inl (ServiceError ''integration''))
             else aret (Inr ())))"

text \<open>The program: the token, the integration, and one point that is written through the service.\<close>

definition m3_main ::
  "(string, string) dict \<Rightarrow> (string \<Rightarrow> string \<Rightarrow> string \<Rightarrow> ('w, integration_reply) run) \<Rightarrow> ('w, unit) run \<Rightarrow> string \<Rightarrow> string \<Rightarrow>
   ('w, unit) run" where
  "m3_main environ create_service_integration write_point m3db m3aggregator =
     abind (aret (ditem environ ''AIVEN_AUTH_TOKEN'')) (\<lambda>token.
     abind (create_integration create_service_integration m3db m3aggregator ''m3aggregator'') (\<lambda>_. write_point))"

section \<open>The functions of the stacks\<close>

text \<open>Both post a random temperature between -30 and 130; the first takes any failure to send for \<open>False\<close>.\<close>

record 'w metrics =
  from_dsn :: "string \<Rightarrow> ('w, unit) run"
  temperature :: "rat \<Rightarrow> rat \<Rightarrow> 'w \<Rightarrow> rat \<times> 'w"
  write_points :: "string \<Rightarrow> rat \<Rightarrow> ('w, unit) run"
  post_line :: "string \<Rightarrow> string \<Rightarrow> rat \<Rightarrow> ('w, int) run"

definition influx_handler :: "('w, 'z) metrics_scheme \<Rightarrow> (string, string) dict \<Rightarrow> ('w, bool) run" where
  "influx_handler api environ =
     abind (aret (ditem environ ''SERVICE_URI'')) (\<lambda>uri.
     abind (from_dsn api uri) (\<lambda>_. \<lambda>w.
       case temperature api (- 30) 130 w of (v, w1) \<Rightarrow>
         acatch (abind (write_points api ''outside_temp'' v) (\<lambda>_. aret (Inr True))) (\<lambda>e. Inr False) w1))"

definition m3_handler :: "('w, 'z) metrics_scheme \<Rightarrow> (string, string) dict \<Rightarrow> ('w, bool) run" where
  "m3_handler api environ =
     abind (aret (ditem environ ''M3DB_URI'')) (\<lambda>uri. \<lambda>w.
       case temperature api (- 30) 130 w of (v, w1) \<Rightarrow>
         abind (post_line api (uri @ ''/api/v1/influxdb/write'') ''outside_temp'' v) (\<lambda>status. aret (Inr (status = 204))) w1)"

section \<open>Facts\<close>

text \<open>The arguments pass when the three files are there and exactly one of the two examples is asked for.\<close>

lemma validate_args_ok:
  "validate_args isfile args = Inr () \<longleftrightarrow>
     isfile (ca_path args) \<and> isfile (key_path args) \<and> isfile (cert_path args) \<and> producer_flag args \<noteq> consumer_flag args"
  by (auto simp: validate_args_def fail_def)

lemma validate_args_fails: "validate_args isfile args = Inl e \<Longrightarrow> e = SystemExit 1"
  by (auto simp: validate_args_def fail_def split: if_splits)

text \<open>An integration that is there already is no failure.\<close>

lemma create_integration_repeated:
  assumes "api source destination integration w = (Inr (IntegrationError 409 (Inr (JObj d))), w')"
    and "dget d ''message'' = Some (JStr m)" "m \<in> set acceptable_errors"
  shows "create_integration api source destination integration w = (Inr (), w')"
  using assms by (auto simp: create_integration_def abind_def py_item_def ditem_def)

text \<open>The characters of addresses: printable ASCII without quotes, backslashes, commas and spaces.\<close>

definition address_char :: "char \<Rightarrow> bool" where
  "address_char c \<longleftrightarrow> 33 \<le> code c \<and> code c \<le> 126 \<and> c \<noteq> CHR 0x22 \<and> c \<noteq> CHR 0x5C \<and> c \<noteq> CHR '',''"

lemma dumps_address: "list_all address_char s \<Longrightarrow> dumps_string s = [CHR 0x22] @ s @ [CHR 0x22]"
proof -
  assume s: "list_all address_char s"
  have "escape_char c = [c]" if "address_char c" for c
    using that by (auto simp: escape_char_def address_char_def Let_def)
  with s have "concat (map escape_char s) = s" by (induction s) auto
  then show ?thesis by (simp add: dumps_string_def)
qed

lemma replace_comma_space_other: "a \<noteq> CHR '','' \<Longrightarrow> replace_comma_space (a # s) = a # replace_comma_space s"
  by (cases s) auto

lemma replace_comma_space_address:
  "list_all (\<lambda>c. c \<noteq> CHR '','') s \<Longrightarrow> replace_comma_space (s @ t) = s @ replace_comma_space t"
  by (induction s) (auto simp: replace_comma_space_other)

lemma replace_join:
  "list_all (list_all (\<lambda>c. c \<noteq> CHR '','')) ss \<Longrightarrow> replace_comma_space (join_with '', '' ss) = join_with '','' ss"
proof (induction "'', ''" ss rule: join_with.induct)
  case (2 s)
  then show ?case using replace_comma_space_address [of s "[]"] by simp
qed (simp_all add: replace_comma_space_address)

lemma remove_quotes_append: "remove_quotes (s @ t) = remove_quotes s @ remove_quotes t"
  by (simp add: remove_quotes_def)

lemma remove_quotes_join: "remove_quotes (join_with '','' ss) = join_with '','' (map remove_quotes ss)"
  by (induction "'',''" ss rule: join_with.induct) (simp_all add: remove_quotes_append, simp_all add: remove_quotes_def)

text \<open>For addresses the program writes them, with their masks, separated by commas.\<close>

lemma parse_ips_addresses:
  assumes "list_all (list_all address_char) ips" "\<And>ip. str_of (JStr ip) = ip"
  shows "parse_ips str_of (JList (map JStr ips)) = Inr (join_with '','' (map (\<lambda>ip. ip @ ''/32'') ips))"
proof -
  let ?q = "\<lambda>ip. [CHR 0x22] @ (ip @ ''/32'') @ [CHR 0x22]"
  have a: "list_all address_char (ip @ ''/32'')" if "ip \<in> set ips" for ip
    using assms(1) that by (auto simp: list_all_iff address_char_def)
  then have d: "map dumps_string (map (\<lambda>ip. ip @ ''/32'') ips) = map ?q ips" by (simp add: dumps_address)
  have l: "list_all (list_all (\<lambda>c. c \<noteq> CHR '','')) (map ?q ips)"
    using a by (fastforce simp: list_all_iff address_char_def)
  have "remove_quotes (?q ip) = ip @ ''/32''" if "ip \<in> set ips" for ip
    using a [OF that] by (auto simp: remove_quotes_def list_all_iff address_char_def intro: filter_True)
  then have r: "map remove_quotes (map ?q ips) = map (\<lambda>ip. ip @ ''/32'') ips" by simp
  have "parse_ips str_of (JList (map JStr ips)) =
      Inr (remove_quotes (replace_comma_space (join_with '', '' (map dumps_string (map (\<lambda>ip. ip @ ''/32'') ips)))))"
    using assms(2) by (simp add: parse_ips_def dumps_strings_def Let_def comp_def butlast_append)
  then show ?thesis unfolding d replace_join [OF l] remove_quotes_join r .
qed

text \<open>The rows of a second: as many as were asked for, each on one of the cores, with a usage between 20 and 100.\<close>

definition row_ok :: "cpu_row \<Rightarrow> bool" where
  "row_ok r \<longleftrightarrow> 1 \<le> cpu_core r \<and> cpu_core r \<le> 4 \<and> 20 \<le> cpu_usage r \<and> cpu_usage r \<le> 100"

definition usage_draws_ok :: "('w, 'z) usage_db_scheme \<Rightarrow> bool" where
  "usage_draws_ok db \<longleftrightarrow>
     (\<forall>a b w. a \<le> b \<longrightarrow> a \<le> fst (rand_int db a b w) \<and> fst (rand_int db a b w) \<le> b) \<and>
     (\<forall>w. 0 \<le> fst (rand db w) \<and> fst (rand db w) < 1)"

lemma usage_rows_ok:
  assumes "usage_draws_ok db"
  shows "usage_rows db n w = (rows, w') \<Longrightarrow> length rows = n \<and> list_all row_ok rows"
proof (induction n arbitrary: w rows)
  case (Suc n)
  obtain h w1 where h: "rand_int db 0 50 w = (h, w1)" by force
  obtain c w2 where c: "rand_int db 1 4 w1 = (c, w2)" by force
  obtain u w3 where u: "rand db w2 = (u, w3)" by force
  obtain rs w4 where r: "usage_rows db n w3 = (rs, w4)" by force
  have "1 \<le> c \<and> c \<le> 4" using assms c unfolding usage_draws_ok_def by (metis fst_conv one_le_numeral)
  moreover have "0 \<le> u \<and> u < 1" using assms u unfolding usage_draws_ok_def by (metis fst_conv)
  ultimately show ?case using Suc.prems Suc.IH h c u r by (auto simp: row_ok_def)
qed simp

end
