(* ===== verification/PgSyncSetup.thy ===== *)
theory PgSyncSetup
  imports PgSyncMain PyStr
begin

text \<open>
  What \<open>main.py\<close> and \<open>avro_main.py\<close> of \<open>pg-sync\<close> set up before their loops, the rest of \<open>utilities.py\<close>, and how the two
  consumers compare: they differ in the decoder, and in that the Avro consumer passes over a statement that violates a
  unique constraint. The Kafka clients themselves are libraries; what is modelled are the settings they are given.
\<close>

section \<open>The consumers' settings\<close>

text \<open>The files of the TLS context, as they are handed to the library.\<close>

definition make_ssl_context :: "string \<Rightarrow> string \<Rightarrow> string \<Rightarrow> (string, json) dict" where
  "make_ssl_context cafile_path certfile_path keyfile_path =
     [(''cafile'', JStr cafile_path), (''certfile'', JStr certfile_path), (''keyfile'', JStr keyfile_path)]"

definition sync_consumer :: "json list \<Rightarrow> string list \<Rightarrow> (string, json) dict \<Rightarrow> (string, json) dict \<Rightarrow> json list \<times> (string, json) dict" where
  "sync_consumer ts bootstrap_servers ssl_context kwargs =
     (ts,
      [(''bootstrap_servers'', JList (map JStr bootstrap_servers)), (''security_protocol'', JStr ''SSL''),
       (''ssl_context'', JObj ssl_context)] @ kwargs)"

text \<open>The first of the servers only.\<close>

definition create_avro_consumer :: "string list \<Rightarrow> string \<Rightarrow> string \<Rightarrow> string \<Rightarrow> string \<Rightarrow> (string, json) dict res" where
  "create_avro_consumer bootstrap_servers schema_registry_url ssl_key_loc ssl_cert_loc ssl_ca_loc =
     (case bootstrap_servers of
        [] \<Rightarrow> Inl (IndexError ''list index out of range'')
      | server # _ \<Rightarrow>
          Inr [(''security.protocol'', JStr ''SSL''), (''bootstrap.servers'', JStr server),
               (''schema.registry.url'', JStr schema_registry_url), (''group.id'', JStr ''test''),
               (''ssl.key.location'', JStr ssl_key_loc), (''ssl.certificate.location'', JStr ssl_cert_loc),
               (''ssl.ca.location'', JStr ssl_ca_loc)])"

definition consumer_options :: "(string, json) dict" where
  "consumer_options =
     [(''group_id'', JStr ''cdc''), (''session_timeout_ms'', JInt 180000), (''heartbeat_interval_ms'', JInt 60000),
      (''metadata_max_age_ms'', JInt 50000), (''max_poll_interval_ms'', JInt 300000), (''request_timeout_ms'', JInt 305000),
      (''auto_offset_reset'', JStr ''earliest''), (''enable_auto_commit'', JBool False)]"

text \<open>Every table of the configuration has its topic, or the program ends.\<close>

definition main_consumer :: "config \<Rightarrow> string \<Rightarrow> (json list \<times> (string, json) dict) res" where
  "main_consumer config broker =
     rbind (topics config) (\<lambda>ts.
       Inr (sync_consumer ts [broker] (make_ssl_context ''certs/ca.pem'' ''certs/service.cert'' ''certs/service.key'') consumer_options))"

text \<open>\<open>avro_main.py\<close> has the same lines.\<close>

definition avro_consumer :: "config \<Rightarrow> string \<Rightarrow> (json list \<times> (string, json) dict) res" where
  "avro_consumer = main_consumer"

text \<open>\<open>get\<close> is the request with the user and the password of the registry.\<close>

definition REGISTRY_HOST :: string where "REGISTRY_HOST = ''https://replicator-kafka-akahn-demo.aivencloud.com''"

definition REGISTRY_PORT :: string where "REGISTRY_PORT = ''24282''"

definition get_schemas :: "(string \<Rightarrow> json res) \<Rightarrow> json res" where
  "get_schemas get = get (REGISTRY_HOST @ '':'' @ REGISTRY_PORT @ ''/subjects'')"

section \<open>Texts\<close>

definition str_to_set_type :: "string option \<Rightarrow> string list option" where
  "str_to_set_type s = map_option (split_on (CHR '','')) s"

text \<open>
  \<open>strptime\<close> with the formats \<open>%Y-%m-%dT%H:%M:%SZ\<close> and \<open>%Y-%m-%dT%H:%M:%S.%fZ\<close>: the letters match in either case, a field has
  one or two digits (the year four, the fraction one to six, and the day of one digit may follow a space).
\<close>

definition digits_value :: "string \<Rightarrow> int" where
  "digits_value s = foldl (\<lambda>a c. 10 * a + (code c - 48)) 0 s"

definition field_before :: "char \<Rightarrow> string \<Rightarrow> (string \<times> string) option" where
  "field_before c s =
     (case dropWhile (\<lambda>x. lower [x] \<noteq> [c]) s of [] \<Rightarrow> None | _ # rest \<Rightarrow> Some (takeWhile (\<lambda>x. lower [x] \<noteq> [c]) s, rest))"

fun fields_before :: "string \<Rightarrow> string \<Rightarrow> (string list \<times> string) option" where
  "fields_before [] s = Some ([], s)"
| "fields_before (c # cs) s =
     (case field_before c s of
        None \<Rightarrow> None
      | Some (f, rest) \<Rightarrow> (case fields_before cs rest of None \<Rightarrow> None | Some (fs, rest') \<Rightarrow> Some (f # fs, rest')))"

definition short_field :: "int \<Rightarrow> int \<Rightarrow> string \<Rightarrow> bool" where
  "short_field lo hi s = (length s \<in> {1, 2} \<and> list_all is_digit s \<and> lo \<le> digits_value s \<and> digits_value s \<le> hi)"

definition day_field :: "string \<Rightarrow> string" where
  "day_field s = (if length s = 2 \<and> hd s = CHR '' '' then tl s else s)"

definition py_datetime :: "int \<Rightarrow> int \<Rightarrow> int \<Rightarrow> int \<Rightarrow> int \<Rightarrow> int \<Rightarrow> int \<Rightarrow> pg_value res" where
  "py_datetime y m d hour minute second us =
     (if valid_date (y, m, d) \<and> second \<le> 59 then Inr (PDateTime ((y, m, d), (hour, minute, second, us)))
      else Inl (ValueError ''datetime''))"

text \<open>The seconds go up to 61 in the format; the fraction counts from its first digit.\<close>

definition strptime :: "bool \<Rightarrow> string \<Rightarrow> pg_value res" where
  "strptime fraction s =
     (case fields_before (''--t::'' @ (if fraction then ''.z'' else ''z'')) s of
        Some (y # m # d # h # mi # sec # fs, rest) \<Rightarrow>
          let frac = concat fs; d = day_field d in
          if rest = [] \<and> length y = 4 \<and> list_all is_digit y \<and> short_field 1 12 m \<and> short_field 1 31 d \<and>
             short_field 0 23 h \<and> short_field 0 59 mi \<and> short_field 0 61 sec \<and>
             (fraction \<longrightarrow> 1 \<le> length frac \<and> length frac \<le> 6 \<and> list_all is_digit frac)
          then py_datetime (digits_value y) (digits_value m) (digits_value d) (digits_value h) (digits_value mi)
                 (digits_value sec) (digits_value (frac @ replicate (6 - length frac) (CHR ''0'')))
          else Inl (ValueError ''time data does not match format'')
      | _ \<Rightarrow> Inl (ValueError ''time data does not match format''))"

definition timestamp_str_to_obj :: "string \<Rightarrow> pg_value res" where
  "timestamp_str_to_obj date_str =
     (case strptime False date_str of Inr v \<Rightarrow> Inr v | Inl e \<Rightarrow> strptime True date_str)"

end
