(* ===== verification/PgSyncEquiv.thy ===== *)
theory PgSyncEquiv
  imports PgSyncProps PgSyncSetup
begin

text \<open>
  The JSON consumer and the Avro consumer of \<open>pg-sync\<close> compared. Nothing that the consumers compute themselves raises the
  violation of a unique constraint, which is the one exception their handlers treat differently.
\<close>


section \<open>No violation from the consumer itself\<close>

definition no_violation :: "'a res \<Rightarrow> bool" where
  "no_violation r \<longleftrightarrow> (\<forall>m. r \<noteq> Inl (UniqueViolation m))"

named_theorems violation_rules "what cannot raise a unique violation"

lemma no_violation_simps [simp]:
  "no_violation (Inr x)" "no_violation (Inl (KeyError m))" "no_violation (Inl (TypeError m))" "no_violation (Inl (AttributeError m))"
  "no_violation (Inl (ValueError m))" "no_violation (Inl (OverflowError m))"
  by (simp_all add: no_violation_def)

lemma no_violation_rbind [violation_rules]:
  "no_violation r \<Longrightarrow> (\<And>x. no_violation (f x)) \<Longrightarrow> no_violation (rbind r f)"
  by (auto simp: no_violation_def rbind_eq_Inl)

lemma no_violation_rmap [violation_rules]: "(\<And>x. no_violation (f x)) \<Longrightarrow> no_violation (rmap f xs)"
  by (induction xs) (auto intro!: no_violation_rbind)

lemma no_violation_ditem [violation_rules]: "no_violation (ditem d k)"
  by (auto simp: ditem_def split: option.splits)

lemma no_violation_py_item [violation_rules]: "no_violation (py_item v k)"
  by (auto simp: py_item_def no_violation_ditem split: json.splits)

lemma no_violation_py_get [violation_rules]: "no_violation (py_get v k d)"
  by (auto simp: py_get_def split: json.splits)

lemma no_violation_py_in [violation_rules]: "no_violation (py_in k v)"
  by (auto simp: py_in_def split: json.splits)

lemma no_violation_py_iter [violation_rules]: "no_violation (py_iter v)"
  by (auto simp: py_iter_def split: json.splits)

lemma no_violation_py_dict [violation_rules]: "no_violation (py_dict v)"
  by (auto simp: py_dict_def split: json.splits)

lemma no_violation_number [violation_rules]: "no_violation (number v)"
  by (auto simp: number_def split: option.splits)

lemma no_violation_b64 [violation_rules]: "no_violation (b64decode s)"
proof -
  have "no_violation (b64_loop q l p s out)" for q l p out
    by (induction q l p s out rule: b64_loop.induct) (auto split: option.splits)
  then show ?thesis by (simp add: b64decode_def)
qed

lemma no_violation_plus [violation_rules]: "no_violation (date_plus d u)" "no_violation (datetime_plus x u)"
  by (simp add: date_plus_def Let_def) (cases x, simp add: Let_def)

lemma no_violation_times [violation_rules]:
  "no_violation (timedelta r)" "no_violation (py_time a b c)" "no_violation (epoch_plus r)" "no_violation (milli_time_int n)"
  by (auto simp: timedelta_def py_time_def epoch_plus_def milli_time_int_def Let_def simp del: datetime_plus.simps
      intro!: no_violation_rbind violation_rules)

lemma no_violation_casts [violation_rules]:
  "no_violation (int_to_date v)" "no_violation (milli_time v)" "no_violation (milli_to_datetime v)" "no_violation (micro_to_datetime v)"
  "no_violation (binary_value v)"
  by (auto simp: int_to_date_def milli_time_def milli_to_datetime_def micro_to_datetime_def binary_value_def simp del: datetime_plus.simps
      intro!: violation_rules split: json.splits)

lemma no_violation_branch [violation_rules]:
  "no_violation c \<Longrightarrow> no_violation a \<Longrightarrow> no_violation b \<Longrightarrow> no_violation (branch c a b)"
  by (auto simp: branch_def intro!: no_violation_rbind)

lemma no_violation_cast_value [violation_rules]: "no_violation (cast_value ck k v)"
  unfolding cast_value_def in_field_def by (intro violation_rules) simp_all

lemma no_violation_config [violation_rules]: "no_violation (table_config config t)"
  by (auto simp: table_config_def no_violation_ditem split: json.splits)

lemma no_violation_cast_values [violation_rules]: "no_violation (cast_values config ks vs t)"
  unfolding cast_values_def by (intro violation_rules) (auto intro: violation_rules)

lemma no_violation_keys [violation_rules]:
  "no_violation (find_row_identifier config t)" "no_violation (identifier_keys ri)"
  unfolding find_row_identifier_def identifier_keys_def
  by (intro violation_rules, simp) (intro violation_rules, auto split: json.splits)

lemma no_violation_where [violation_rules]: "no_violation (where_keys config t b)"
  unfolding where_keys_def by (intro violation_rules) (auto intro: violation_rules split: option.splits)

lemma no_violation_row_key [violation_rules]: "no_violation (row_key config t b)"
  unfolding row_key_def by (intro violation_rules) (auto intro!: violation_rules split: option.splits)

lemma no_violation_source [violation_rules]: "no_violation (source_of c)"
  unfolding source_of_def by (intro violation_rules) simp_all



section \<open>The two consumers\<close>










section \<open>Witness\<close>


end
