(* ===== verification/ClientSettings.thy ===== *)
theory ClientSettings
  imports LanceConsumer LanceProducer DisklessTest PgSyncSetup ServiceExamples
begin

text \<open>
  The settings that the programs give to the clients of Kafka, OpenSearch and LanceDB, each as the code builds it (the
  serialisers, which are functions, are with the components that use them). An attribute of a settings module
  (\<open>config.py\<close>) or a variable of the environment that is not there raises. The index of the LanceDB table is built here,
  too, as the sequence of the calls of its script.
\<close>

section \<open>Settings modules\<close>

type_synonym client_settings = "(string, json) dict"

definition module_attr :: "client_settings \<Rightarrow> string \<Rightarrow> json res" where
  "module_attr m name = (case dget m name of None \<Rightarrow> Inl (AttributeError name) | Some v \<Rightarrow> Inr v)"

text \<open>\<open>config.py\<close> of \<open>opensearch-kafka\<close> and \<open>config.py.example\<close> of \<open>flink-kafka\<close>.\<close>

definition products_module :: client_settings where
  "products_module =
     [(''KAFKA_URI'', JStr ''<SERVICE URI>''), (''KAFKA_TOPIC_SOURCE'', JStr ''products''), (''KAFKA_TOPIC_SINK'', JStr ''sink_topic''),
      (''KAFKA_CONSUMER_CLIENT_ID'', JStr ''demo-client''), (''KAFKA_CONSUMER_GROUP_ID'', JStr ''demo-group''),
      (''KAFKA_SSL_CA'', JStr ''ca.pem''), (''KAFKA_SSL_CERT'', JStr ''service.cert''), (''KAFKA_SSL_KEY'', JStr ''service.key''),
      (''KAFKA_SECURITY_PROTOCOL'', JStr ''SSL''), (''KAFKA_TIMEOUT'', JInt 1000), (''WAIT_TIME'', JInt 5)]"

definition flink_module :: client_settings where
  "flink_module =
     [(''KAFKA_URI'', JStr ''address:port''), (''KAFKA_TOPIC_SOURCE'', JStr ''source_topic''), (''KAFKA_TOPIC_SINK'', JStr ''sink_topic''),
      (''KAFKA_CONSUMER_CLIENT_ID'', JStr ''stockdata-client''), (''KAFKA_CONSUMER_GROUP_ID'', JStr ''stockdata-group''),
      (''KAFKA_SSL_CA'', JStr ''ca.pem''), (''KAFKA_SSL_CERT'', JStr ''service.cert''), (''KAFKA_SSL_KEY'', JStr ''service.key''),
      (''KAFKA_SECURITY_PROTOCOL'', JStr ''SSL''), (''KAFKA_TIMEOUT'', JInt 1000), (''WAIT_TIME'', JInt 5)]"

text \<open>The keyword arguments of a client, each from an attribute of the module, in order.\<close>

fun from_module :: "client_settings \<Rightarrow> (string \<times> string) list \<Rightarrow> client_settings res" where
  "from_module m [] = Inr []"
| "from_module m ((key, name) # rest) =
     rbind (module_attr m name) (\<lambda>v. rbind (from_module m rest) (\<lambda>d. Inr ((key, v) # d)))"

section \<open>Kafka clients\<close>

definition flink_kafka_producer :: "client_settings \<Rightarrow> client_settings res" where
  "flink_kafka_producer config =
     from_module config
       [(''api_version_auto_timeout_ms'', ''KAFKA_TIMEOUT''), (''bootstrap_servers'', ''KAFKA_URI''),
        (''security_protocol'', ''KAFKA_SECURITY_PROTOCOL''), (''ssl_cafile'', ''KAFKA_SSL_CA''),
        (''ssl_certfile'', ''KAFKA_SSL_CERT''), (''ssl_keyfile'', ''KAFKA_SSL_KEY'')]"

text \<open>The topic, and the settings.\<close>

definition flink_kafka_consumer :: "client_settings \<Rightarrow> (json \<times> client_settings) res" where
  "flink_kafka_consumer config =
     rbind (module_attr config ''KAFKA_TOPIC_SINK'') (\<lambda>topic.
     rbind (from_module config
        [(''bootstrap_servers'', ''KAFKA_URI''), (''client_id'', ''KAFKA_CONSUMER_CLIENT_ID''),
         (''group_id'', ''KAFKA_CONSUMER_GROUP_ID''), (''security_protocol'', ''KAFKA_SECURITY_PROTOCOL''),
         (''ssl_cafile'', ''KAFKA_SSL_CA''), (''ssl_certfile'', ''KAFKA_SSL_CERT''), (''ssl_keyfile'', ''KAFKA_SSL_KEY'')]) (\<lambda>d.
       Inr (topic, (''auto_offset_reset'', JStr ''earliest'') # d)))"

definition products_kafka_producer :: "client_settings \<Rightarrow> client_settings res" where
  "products_kafka_producer config =
     from_module config
       [(''api_version_auto_timeout_ms'', ''KAFKA_TIMEOUT''), (''bootstrap_servers'', ''KAFKA_URI''),
        (''security_protocol'', ''KAFKA_SECURITY_PROTOCOL''), (''ssl_cafile'', ''KAFKA_SSL_CA''),
        (''ssl_certfile'', ''KAFKA_SSL_CERT''), (''ssl_keyfile'', ''KAFKA_SSL_KEY'')]"

definition bootstrap_server :: "(string, string) dict \<Rightarrow> json" where
  "bootstrap_server environ = (case dget environ ''BOOTSTRAP_SERVER'' of None \<Rightarrow> JNull | Some s \<Rightarrow> JStr s)"

definition aes_consumer_settings :: "(string, string) dict \<Rightarrow> client_settings" where
  "aes_consumer_settings environ =
     [(''bootstrap_servers'', bootstrap_server environ), (''security_protocol'', JStr ''SSL''), (''ssl_cafile'', JStr ''ca.pem''),
      (''ssl_certfile'', JStr ''service.cert''), (''ssl_keyfile'', JStr ''service.key''), (''group_id'', JStr ''group_id_1''),
      (''auto_offset_reset'', JStr ''earliest'')]"

definition aes_producer_settings :: "(string, string) dict \<Rightarrow> client_settings" where
  "aes_producer_settings environ =
     [(''bootstrap_servers'', bootstrap_server environ), (''security_protocol'', JStr ''SSL''), (''ssl_cafile'', JStr ''ca.pem''),
      (''ssl_certfile'', JStr ''service.cert''), (''ssl_keyfile'', JStr ''service.key'')]"

definition claims_producer_conf :: client_settings where
  "claims_producer_conf =
     [(''bootstrap.servers'', JStr ''Aiven Kafka Bootstrap Servers''), (''security.protocol'', JStr ''SSL''),
      (''ssl.ca.location'', JStr ''/path/to/ca.pem''), (''ssl.certificate.location'', JStr ''/path/to/service.cert''),
      (''ssl.key.location'', JStr ''/path/to/service.key'')]"

definition claims_AIVEN_CONF :: client_settings where
  "claims_AIVEN_CONF =
     [(''bootstrap.servers'', JStr ''Aiven Kafka Bootstrap Servers''), (''security.protocol'', JStr ''SSL''),
      (''ssl.ca.location'', JStr ''/path/to/ca.pem''), (''ssl.certificate.location'', JStr ''/path/to/service.cert''),
      (''ssl.key.location'', JStr ''/path/to/service.key''), (''group.id'', JStr ''lancedb-ingestor-1''),
      (''auto.offset.reset'', JStr ''earliest'')]"

text \<open>The address comes from two variables of the environment, and the group from the command line.\<close>

definition usage_consumer_settings :: "(string, string) dict \<Rightarrow> string \<Rightarrow> string \<Rightarrow> client_settings res" where
  "usage_consumer_settings environ cert_folder group_id =
     rbind (ditem environ ''KAFKA_HOSTNAME'') (\<lambda>host.
     rbind (ditem environ ''KAFKA_PORT'') (\<lambda>port.
       Inr [(''bootstrap_servers'', JStr (host @ '':'' @ port)), (''security_protocol'', JStr ''SSL''),
         (''ssl_cafile'', JStr (cert_folder @ ''/ca.pem'')), (''ssl_certfile'', JStr (cert_folder @ ''/service.cert'')),
         (''ssl_keyfile'', JStr (cert_folder @ ''/service.key'')), (''auto_offset_reset'', JStr ''earliest''),
         (''enable_auto_commit'', JBool True), (''group_id'', JStr group_id)]))"

definition example_producer_settings :: "kafka_args \<Rightarrow> client_settings" where
  "example_producer_settings args =
     [(''bootstrap_servers'', JStr (service_uri args)), (''security_protocol'', JStr ''SSL''), (''ssl_cafile'', JStr (ca_path args)),
      (''ssl_certfile'', JStr (cert_path args)), (''ssl_keyfile'', JStr (key_path args))]"

definition example_consumer_settings :: "kafka_args \<Rightarrow> client_settings" where
  "example_consumer_settings args =
     [(''bootstrap_servers'', JStr (service_uri args)), (''auto_offset_reset'', JStr ''earliest''),
      (''security_protocol'', JStr ''SSL''), (''ssl_cafile'', JStr (ca_path args)), (''ssl_certfile'', JStr (cert_path args)),
      (''ssl_keyfile'', JStr (key_path args)), (''consumer_timeout_ms'', JInt 1000)]"

definition CA_FILE :: string where "CA_FILE = ''cafile''"

definition CERT_FILE :: string where "CERT_FILE = ''certfile''"

definition KEY_FILE :: string where "KEY_FILE = ''keyfile''"

definition connector_consumer_settings :: "json \<Rightarrow> client_settings res" where
  "connector_consumer_settings kafka_service =
     rbind (py_item kafka_service ''connection_info'') (\<lambda>info.
     rbind (py_item info ''kafka'') (\<lambda>servers.
       Inr [(''bootstrap_servers'', servers), (''group_id'', JStr ''sensor-temperature-demo''), (''auto_offset_reset'', JStr ''earliest''),
         (''security_protocol'', JStr ''SSL''), (''ssl_cafile'', JStr CA_FILE), (''ssl_certfile'', JStr CERT_FILE),
         (''ssl_keyfile'', JStr KEY_FILE)]))"

section \<open>OpenSearch and LanceDB\<close>

definition env_value :: "(string, string) dict \<Rightarrow> string \<Rightarrow> json" where
  "env_value environ k = (case dget environ k of None \<Rightarrow> JNull | Some v \<Rightarrow> JStr v)"

definition restore_client_settings :: "(string, string) dict \<Rightarrow> client_settings" where
  "restore_client_settings environ =
     [(''hosts'', JList [JObj [(''host'', env_value environ ''OS_HOST''), (''port'', env_value environ ''OS_PORT'')]]),
      (''http_compress'', JBool True), (''http_auth'', JList [env_value environ ''OS_USER'', env_value environ ''OS_PWD'']),
      (''use_ssl'', JBool True), (''verify_certs'', JBool False), (''ssl_assert_hostname'', JBool False), (''ssl_show_warn'', JBool False)]"

datatype index_call =
    ConnectLance string string string
  | OpenTable string
  | CreateIndex "(string \<times> json) list"
  | CreateFtsIndex string

definition index_calls :: "index_call list" where
  "index_calls =
     [ConnectLance ''db://uri'' ''sk_...'' ''us-east-1'', OpenTable ''insurance_claims'',
      CreateIndex [(''metric'', JStr ''cosine''), (''num_partitions'', JInt 256), (''num_sub_vectors'', JInt 96), (''replace'', JBool True),
        (''vector_column'', JStr ''insurance_claim_vector'')],
      CreateFtsIndex ''id'', CreateFtsIndex ''policy_id'', CreateFtsIndex ''claim_type'']"

fun run_calls :: "(index_call \<Rightarrow> ('w, unit) run) \<Rightarrow> index_call list \<Rightarrow> ('w, unit) run" where
  "run_calls call [] = aret (Inr ())"
| "run_calls call (c # cs) = abind (call c) (\<lambda>_. run_calls call cs)"

definition build_index :: "(index_call \<Rightarrow> ('w, unit) run) \<Rightarrow> ('w, unit) run" where
  "build_index call = run_calls call index_calls"

section \<open>Properties\<close>

text \<open>The settings of a connection that is encrypted and authenticated by a certificate, in either client's names.\<close>

definition tls :: "client_settings \<Rightarrow> bool" where
  "tls d \<longleftrightarrow>
     dget d ''security_protocol'' = Some (JStr ''SSL'') \<and>
       (dget d ''ssl_context'' \<noteq> None \<or>
        list_all (\<lambda>k. case dget d k of Some (JStr s) \<Rightarrow> True | _ \<Rightarrow> False) [''ssl_cafile'', ''ssl_certfile'', ''ssl_keyfile'']) \<or>
     dget d ''security.protocol'' \<in> {Some (JStr ''SSL''), Some (JStr ''ssl'')} \<and>
       list_all (\<lambda>k. case dget d k of Some (JStr s) \<Rightarrow> True | _ \<Rightarrow> False)
         [''ssl.ca.location'', ''ssl.certificate.location'', ''ssl.key.location'']"

definition tls_if :: "client_settings res \<Rightarrow> bool" where
  "tls_if r = (case r of Inl _ \<Rightarrow> True | Inr d \<Rightarrow> tls d)"

lemma tls_client_id: "tls (if b then dset d ''client_id'' v else d) = tls d"
  by (simp add: tls_def pd.get_put)

text \<open>Every Kafka client of the Python programs, whatever its environment, its arguments and its certificates' place, is given
  a connection over TLS with the file of the authority, of the certificate and of the key: no program falls back to plain
  text. The settings that are read from a module are those of the modules in the repository.\<close>

theorem kafka_over_tls:
  "list_all tls [aes_consumer_settings environ, aes_producer_settings environ, claims_producer_conf, claims_AIVEN_CONF,
     example_producer_settings args, example_consumer_settings args, producer_config environ servers,
     test_consumer_config servers folder run_id, snd (sync_consumer ts brokers context kwargs)] \<and>
   list_all tls_if [usage_consumer_settings environ folder group_id, connector_consumer_settings kafka_service,
     create_avro_consumer brokers registry key_loc cert_loc ca_loc,
     create_consumer environ (\<lambda>topic d. Inr d) topic_arg group_arg] \<and>
   (\<exists>d. flink_kafka_producer flink_module = Inr d \<and> tls d) \<and>
   (\<exists>topic d. flink_kafka_consumer flink_module = Inr (topic, d) \<and> tls d) \<and>
   (\<exists>d. products_kafka_producer products_module = Inr d \<and> tls d)"
proof (intro conjI)
  have p: "tls (producer_config environ servers)"
    by (simp add: producer_config_def Let_def tls_client_id) (simp add: tls_def dget_def)
  have c: "tls_if (create_consumer environ (\<lambda>topic d. Inr d) topic_arg group_arg)"
    by (simp add: create_consumer_def Let_def tls_if_def tls_client_id) (simp add: tls_def dget_def)
  show "list_all tls [aes_consumer_settings environ, aes_producer_settings environ, claims_producer_conf, claims_AIVEN_CONF,
     example_producer_settings args, example_consumer_settings args, producer_config environ servers,
     test_consumer_config servers folder run_id, snd (sync_consumer ts brokers context kwargs)]"
    using p by (simp add: tls_def dget_def aes_consumer_settings_def aes_producer_settings_def claims_producer_conf_def
        claims_AIVEN_CONF_def example_producer_settings_def example_consumer_settings_def test_consumer_config_def sync_consumer_def)
  show "list_all tls_if [usage_consumer_settings environ folder group_id, connector_consumer_settings kafka_service,
     create_avro_consumer brokers registry key_loc cert_loc ca_loc, create_consumer environ (\<lambda>topic d. Inr d) topic_arg group_arg]"
    using c by (auto simp: tls_if_def tls_def dget_def usage_consumer_settings_def connector_consumer_settings_def
        create_avro_consumer_def rbind_def CA_FILE_def CERT_FILE_def KEY_FILE_def split: sum.splits list.splits)
qed (simp_all add: flink_kafka_producer_def flink_kafka_consumer_def products_kafka_producer_def module_attr_def flink_module_def
    products_module_def tls_def dget_def)

end
