(* ===== verification/PulumiStacks.thy ===== *)
theory PulumiStacks
  imports PyDict PyStr PyState ServiceExamples
begin

text \<open>
  The Pulumi programs (\<open>pulumi/*/__main__.py\<close>): each declares resources and exports in a fixed order, from the
  configuration of its stack. A run of such a program leaves the resources it registered, in that order,
  with their arguments; an attribute of a resource that is only known when the resource exists is a
  reference to it (\<open>Output\<close>), and \<open>JsonText\<close> is a text that holds a JSON document. The engine that creates the resources is Pulumi; the model ends where the
  program hands the declarations over. The last section is the script that fills the table of the replicas.
\<close>

section \<open>Declarations\<close>

datatype pvalue =
    PText string
  | Output string string
  | PSeq "pvalue list"
  | PMap "(string \<times> pvalue) list"
  | FileArchive string
  | JsonText pvalue

record resource =
  res_type :: string
  res_name :: string
  res_args :: "(string \<times> pvalue) list"
  depends_on :: "string list"

record stack =
  registered :: "resource list"
  exports :: "(string, pvalue) dict"

definition empty_stack :: stack where
  "empty_stack = \<lparr>registered = [], exports = []\<rparr>"

text \<open>Constructing a resource registers it; its name stands for the object, and \<open>Output\<close> for its attributes.\<close>

definition new_resource :: "string \<Rightarrow> string \<Rightarrow> (string \<times> pvalue) list \<Rightarrow> string list \<Rightarrow> (stack, string) run" where
  "new_resource ty name args deps = (\<lambda>s.
     (Inr name, s\<lparr>registered := registered s @ [\<lparr>res_type = ty, res_name = name, res_args = args, depends_on = deps\<rparr>]\<rparr>))"

definition pulumi_export :: "string \<Rightarrow> pvalue \<Rightarrow> (stack, unit) run" where
  "pulumi_export name v = (\<lambda>s. (Inr (), s\<lparr>exports := dset (exports s) name v\<rparr>))"

text \<open>\<open>conf.require\<close>: a key that is not configured raises (\<open>ConfigMissingError\<close> is given as the key error).\<close>

definition config_require :: "(string, string) dict \<Rightarrow> string \<Rightarrow> (stack, string) run" where
  "config_require conf key = aret (ditem conf key)"

section \<open>The stack with InfluxDB\<close>

definition export_details :: "string \<Rightarrow> string \<Rightarrow> (stack, unit) run" where
  "export_details avn prefix =
     abind (pulumi_export (prefix @ ''_uri'') (Output avn ''service_uri'')) (\<lambda>_.
     abind (pulumi_export (prefix @ ''_username'') (Output avn ''service_username'')) (\<lambda>_.
     abind (pulumi_export (prefix @ ''_password'') (Output avn ''service_password'')) (\<lambda>_.
       pulumi_export (prefix @ ''_state'') (Output avn ''state''))))"

definition stack_service :: "string \<Rightarrow> string \<Rightarrow> string \<Rightarrow> string \<Rightarrow> string \<Rightarrow> (stack, string) run" where
  "stack_service avn_project cloud_region service_name plan service_type =
     abind (new_resource ''aiven.Service'' service_name
        [(''project'', PText avn_project), (''cloud_name'', PText cloud_region), (''service_name'', PText service_name),
         (''plan'', PText plan), (''service_type'', PText service_type)] []) (\<lambda>avn.
     abind (export_details avn service_type) (\<lambda>_. aret (Inr avn)))"

text \<open>The destination is the first of the two services, the source the second.\<close>

definition stack_integration :: "string \<Rightarrow> string \<Rightarrow> string \<Rightarrow> string \<Rightarrow> string \<Rightarrow> (stack, unit) run" where
  "stack_integration avn_project name integration_type src_service dest_service =
     abind (new_resource ''aiven.ServiceIntegration'' name
        [(''project'', PText avn_project), (''destination_service_name'', Output src_service ''service_name''),
         (''source_service_name'', Output dest_service ''service_name''), (''integration_type'', PText integration_type)] [])
       (\<lambda>_. aret (Inr ()))"

definition assume_role_policy :: pvalue where
  "assume_role_policy =
     JsonText (PMap [(''Version'', PText ''2012-10-17''),
       (''Statement'', PSeq [PMap [(''Action'', PText ''sts:AssumeRole''),
          (''Principal'', PMap [(''Service'', PText ''lambda.amazonaws.com'')]),
          (''Effect'', PText ''Allow''), (''Sid'', PText '''')]])])"

definition create_lambda_with :: "string \<Rightarrow> string \<Rightarrow> (stack, string) run" where
  "create_lambda_with variable depends_on_resource =
     abind (new_resource ''aws.iam.Role'' ''lambdaRole'' [(''assume_role_policy'', assume_role_policy)] []) (\<lambda>lambda_role.
     abind (new_resource ''aws.lambda_.LayerVersion'' ''lambdaLayer''
        [(''compatible_runtimes'', PSeq [PText ''python3.8'']), (''code'', FileArchive ''lambda_layer''),
         (''layer_name'', PText ''lambda_layer_name'')] []) (\<lambda>lambda_layer.
     abind (new_resource ''aws.lambda_.Function'' ''ServerlessFunction''
        [(''role'', Output lambda_role ''arn''), (''runtime'', PText ''python3.8''),
         (''handler'', PText ''lambda_code.lambda_handler''),
         (''environment'', PMap [(''variables'', PMap [(variable, Output depends_on_resource ''service_uri'')])]),
         (''code'', PMap [(''.'', FileArchive ''lambda_func'')]), (''layers'', PSeq [Output lambda_layer ''arn''])]
        [depends_on_resource]) (\<lambda>func.
     abind (pulumi_export ''lambda_name'' (Output func ''name'')) (\<lambda>_. aret (Inr func)))))"

definition influx_create_lambda :: "string \<Rightarrow> (stack, string) run" where
  "influx_create_lambda = create_lambda_with ''SERVICE_URI''"

definition create_lambda_trigger :: "string \<Rightarrow> (stack, unit) run" where
  "create_lambda_trigger func =
     abind (new_resource ''aws.cloudwatch.EventRule'' ''lambdaEventRule'' [(''schedule_expression'', PText ''rate(1 minute)'')] [])
       (\<lambda>trigger_rule.
     abind (new_resource ''aws.lambda_.Permission'' ''allowCloudwatch''
        [(''action'', PText ''lambda:InvokeFunction''), (''function'', Output func ''name''),
         (''principal'', PText ''events.amazonaws.com''), (''source_arn'', Output trigger_rule ''arn'')] []) (\<lambda>_.
     abind (new_resource ''aws.cloudwatch.EventTarget'' ''lambdaEventTarget''
        [(''arn'', Output func ''arn''), (''rule'', Output trigger_rule ''name'')] []) (\<lambda>event_target.
     abind (pulumi_export ''trigger_rule'' (Output trigger_rule ''name'')) (\<lambda>_.
       pulumi_export ''event_target'' (Output event_target ''arn'')))))"

definition influx_stack :: "(string, string) dict \<Rightarrow> (stack, unit) run" where
  "influx_stack conf =
     abind (config_require conf ''aiven_project'') (\<lambda>avn_project.
     abind (config_require conf ''aiven_cloud_region'') (\<lambda>cloud_region.
     abind (stack_service avn_project cloud_region ''pulumi-grafana'' ''startup-4'' ''grafana'') (\<lambda>grafana.
     abind (stack_service avn_project cloud_region ''influxdb-grafana'' ''startup-4'' ''influxdb'') (\<lambda>influxdb.
     abind (stack_integration avn_project ''pulumi-grafana-influxdb'' ''dashboard'' influxdb grafana) (\<lambda>_.
     abind (influx_create_lambda influxdb) create_lambda_trigger)))))"

section \<open>The stack with M3\<close>

text \<open>This program has the functions of the other one again, but for the variable of the function, and one of its own.\<close>

definition m3_export_details :: "string \<Rightarrow> string \<Rightarrow> (stack, unit) run" where
  "m3_export_details = export_details"

definition m3_stack_service :: "string \<Rightarrow> string \<Rightarrow> string \<Rightarrow> string \<Rightarrow> string \<Rightarrow> (stack, string) run" where
  "m3_stack_service = stack_service"

definition create_m3db :: "string \<Rightarrow> string \<Rightarrow> string \<Rightarrow> string \<Rightarrow> (stack, string) run" where
  "create_m3db avn_project cloud_region service_name plan =
     abind (new_resource ''aiven.M3Db'' service_name
        [(''project'', PText avn_project), (''cloud_name'', PText cloud_region), (''service_name'', PText service_name),
         (''plan'', PText plan)] []) (\<lambda>avn.
     abind (m3_export_details avn ''m3db'') (\<lambda>_. aret (Inr avn)))"

definition m3_stack_integration :: "string \<Rightarrow> string \<Rightarrow> string \<Rightarrow> string \<Rightarrow> string \<Rightarrow> (stack, unit) run" where
  "m3_stack_integration = stack_integration"

definition m3_create_lambda :: "string \<Rightarrow> (stack, string) run" where
  "m3_create_lambda = create_lambda_with ''M3DB_URI''"

definition m3_create_lambda_trigger :: "string \<Rightarrow> (stack, unit) run" where
  "m3_create_lambda_trigger = create_lambda_trigger"

definition m3_stack :: "(string, string) dict \<Rightarrow> (stack, unit) run" where
  "m3_stack conf =
     abind (config_require conf ''aiven_project'') (\<lambda>avn_project.
     abind (config_require conf ''aiven_cloud_region'') (\<lambda>cloud_region.
     abind (m3_stack_service avn_project cloud_region ''pulumi-grafana'' ''startup-4'' ''grafana'') (\<lambda>grafana.
     abind (create_m3db avn_project cloud_region ''pulumi-m3db'' ''business-8'') (\<lambda>m3db.
     abind (m3_stack_integration avn_project ''pulumi-grafana-m3db'' ''dashboard'' m3db grafana) (\<lambda>_.
     abind (m3_create_lambda m3db) m3_create_lambda_trigger)))))"

section \<open>PostgreSQL with read replicas\<close>

record instance_info =
  info_name :: string
  info_region :: string

definition primary :: instance_info where
  "primary = \<lparr>info_name = ''pulumi-pg-master'', info_region = ''google-us-east1''\<rparr>"

definition replicas :: "instance_info list" where
  "replicas =
     [\<lparr>info_name = ''pulumi-pg-replica1'', info_region = ''google-us-west1''\<rparr>,
      \<lparr>info_name = ''pulumi-pg-replica2'', info_region = ''google-europe-west1''\<rparr>]"

definition pg_export_details :: "string \<Rightarrow> string \<Rightarrow> (stack, unit) run" where
  "pg_export_details = export_details"

definition create_postgres :: "(string, string) dict \<Rightarrow> instance_info \<Rightarrow> pvalue list option \<Rightarrow> (stack, string) run" where
  "create_postgres conf instance_info integrations =
     abind (config_require conf ''pg_version'') (\<lambda>pg_version.
     abind (config_require conf ''aiven_project'') (\<lambda>project.
     abind (config_require conf ''plan_size'') (\<lambda>plan.
     abind (new_resource ''aiven.Pg'' (info_name instance_info)
        ([(''project'', PText project), (''cloud_name'', PText (info_region instance_info)),
          (''service_name'', PText (info_name instance_info)), (''plan'', PText plan),
          (''pg_user_config'', PMap [(''pg_version'', PText pg_version)])] @
         (case integrations of None \<Rightarrow> [] | Some is \<Rightarrow> [(''service_integrations'', PSeq is)])) []) (\<lambda>avn.
     abind (pg_export_details avn (info_name instance_info)) (\<lambda>_. aret (Inr avn))))))"

definition replica_integration :: "string \<Rightarrow> pvalue" where
  "replica_integration service =
     PMap [(''integration_type'', PText ''read_replica''), (''source_service_name'', Output service ''service_name'')]"

fun create_replicas :: "(string, string) dict \<Rightarrow> pvalue list \<Rightarrow> instance_info list \<Rightarrow> (stack, unit) run" where
  "create_replicas conf integrations [] = aret (Inr ())"
| "create_replicas conf integrations (replica # rest) =
     abind (create_postgres conf replica (Some integrations)) (\<lambda>_. create_replicas conf integrations rest)"

definition replica_stack :: "(string, string) dict \<Rightarrow> (stack, unit) run" where
  "replica_stack conf =
     abind (create_postgres conf primary None) (\<lambda>pg_master.
       create_replicas conf [replica_integration pg_master] replicas)"

section \<open>The orders\<close>

text \<open>
  \<open>run.py\<close>: a table of made-up orders is filled through the primary, and the rows are counted there and on a
  replica. \<open>random.uniform\<close> scales a draw between 0 and 1; numbers are exact.
\<close>

record order_row =
  order_texts :: "string list"
  order_qty :: rat
  order_price :: rat

record 'w orders_db =
  connect_orders :: "string option \<Rightarrow> ('w, unit) run"
  read_schema :: "('w, string) run"
  exec_orders :: "string \<Rightarrow> ('w, unit) run"
  fetch_count :: "('w, int) run"
  close_orders :: "('w, unit) run"
  fake_text :: "string \<Rightarrow> 'w \<Rightarrow> string \<times> 'w"
  draw :: "'w \<Rightarrow> rat \<times> 'w"
  insert_orders :: "order_row list \<Rightarrow> ('w, unit) run"
  commit_orders :: "('w, unit) run"

definition uniform_draw :: "('w, 'z) orders_db_scheme \<Rightarrow> rat \<Rightarrow> rat \<Rightarrow> 'w \<Rightarrow> rat \<times> 'w" where
  "uniform_draw db a b w = (case draw db w of (r, w') \<Rightarrow> (a + (b - a) * r, w'))"

fun fake_texts :: "('w, 'z) orders_db_scheme \<Rightarrow> string list \<Rightarrow> 'w \<Rightarrow> string list \<times> 'w" where
  "fake_texts db [] w = ([], w)"
| "fake_texts db (kind # kinds) w =
     (case fake_text db kind w of (t, w1) \<Rightarrow> case fake_texts db kinds w1 of (ts, w2) \<Rightarrow> (t # ts, w2))"

definition fake_order :: "('w, 'z) orders_db_scheme \<Rightarrow> int \<Rightarrow> 'w \<Rightarrow> order_row \<times> 'w" where
  "fake_order db i w =
     (case fake_texts db [''name'', ''address'', ''phone_number'', ''user_agent'', ''currency_code'', ''isbn10''] w of (ts, w1) \<Rightarrow>
      case uniform_draw db 1 (of_int i) w1 of (qty, w2) \<Rightarrow>
      case uniform_draw db (9 / 10) 999 w2 of (p, w3) \<Rightarrow>
        (\<lparr>order_texts = ts, order_qty = qty, order_price = of_int \<lceil>p * 100\<rceil> / 100\<rparr>, w3))"

fun fake_orders :: "('w, 'z) orders_db_scheme \<Rightarrow> int list \<Rightarrow> 'w \<Rightarrow> order_row list \<times> 'w" where
  "fake_orders db [] w = ([], w)"
| "fake_orders db (i # is) w =
     (case fake_order db i w of (row, w1) \<Rightarrow> case fake_orders db is w1 of (rows, w2) \<Rightarrow> (row # rows, w2))"

definition generate_data :: "('w, 'z) orders_db_scheme \<Rightarrow> (string, string) dict \<Rightarrow> string \<Rightarrow> int \<Rightarrow> ('w, unit) run" where
  "generate_data db environ variable records =
     abind (connect_orders db (dget environ variable)) (\<lambda>_.
     abind (read_schema db) (\<lambda>schema.
     abind (exec_orders db schema) (\<lambda>_.
     abind (commit_orders db) (\<lambda>_. \<lambda>w.
       case fake_orders db [0..records - 1] w of (batch, w1) \<Rightarrow>
         abind (insert_orders db batch) (\<lambda>_. commit_orders db) w1))))"

text \<open>The count that is printed.\<close>

definition get_row_count :: "('w, 'z) orders_db_scheme \<Rightarrow> (string, string) dict \<Rightarrow> string \<Rightarrow> ('w, int) run" where
  "get_row_count db environ variable =
     abind (connect_orders db (dget environ variable)) (\<lambda>_.
     abind (exec_orders db ''select count(*) from fake_orders;'') (\<lambda>_.
     abind (fetch_count db) (\<lambda>count.
     abind (close_orders db) (\<lambda>_. aret (Inr count)))))"

definition orders_main :: "('w, 'z) orders_db_scheme \<Rightarrow> (string, string) dict \<Rightarrow> ('w, int \<times> int) run" where
  "orders_main db environ =
     abind (generate_data db environ ''postgres_master_uri'' 1000) (\<lambda>_.
     abind (get_row_count db environ ''postgres_master_uri'') (\<lambda>a.
     abind (get_row_count db environ ''postgres_replica_uri'') (\<lambda>b. aret (Inr (a, b)))))"

section \<open>What a stack declares\<close>














text \<open>The environment of the deployed function, for what the outputs turn out to be.\<close>

definition environment_of :: "(string \<Rightarrow> string \<Rightarrow> string) \<Rightarrow> stack \<Rightarrow> (string, string) dict" where
  "environment_of resolve s =
     (case find (\<lambda>r. res_type r = ''aws.lambda_.Function'') (registered s) of
        None \<Rightarrow> []
      | Some r \<Rightarrow>
          (case dget (res_args r) ''environment'' of
             Some (PMap [(_, PMap vars)]) \<Rightarrow>
               map (\<lambda>(k, v). (k, case v of Output n a \<Rightarrow> resolve n a | PText t \<Rightarrow> t | _ \<Rightarrow> [])) vars
           | _ \<Rightarrow> []))"

section \<open>Facts\<close>

lemmas stack_defs = abind_def aret_def new_resource_def pulumi_export_def config_require_def export_details_def
  m3_export_details_def pg_export_details_def stack_service_def m3_stack_service_def stack_integration_def
  m3_stack_integration_def create_lambda_with_def influx_create_lambda_def m3_create_lambda_def create_lambda_trigger_def
  m3_create_lambda_trigger_def create_m3db_def create_postgres_def assume_role_policy_def empty_stack_def

lemma influx_stack_missing:
  "dget conf ''aiven_project'' = None \<or> dget conf ''aiven_cloud_region'' = None \<Longrightarrow>
     \<exists>e. influx_stack conf empty_stack = (Inl e, empty_stack)"
  by (cases "dget conf ''aiven_project''")
    (simp_all add: influx_stack_def abind_def config_require_def ditem_def)



lemma m3_stack_missing:
  "dget conf ''aiven_project'' = None \<or> dget conf ''aiven_cloud_region'' = None \<Longrightarrow>
     \<exists>e. m3_stack conf empty_stack = (Inl e, empty_stack)"
  by (cases "dget conf ''aiven_project''")
    (simp_all add: m3_stack_def abind_def config_require_def ditem_def)


lemma replica_stack_missing:
  "dget conf ''pg_version'' = None \<or> dget conf ''aiven_project'' = None \<or> dget conf ''plan_size'' = None \<Longrightarrow>
     \<exists>e. replica_stack conf empty_stack = (Inl e, empty_stack)"
  by (cases "dget conf ''pg_version''"; cases "dget conf ''aiven_project''")
    (simp_all add: replica_stack_def create_postgres_def abind_def config_require_def ditem_def)


text \<open>Every replica follows the primary, which itself follows no service.\<close>

lemma replicas_follow_primary:
  assumes "replica_stack conf empty_stack = (Inr (), s)"
  shows "map (\<lambda>r. (res_name r, dget (res_args r) ''service_integrations'')) (registered s) =
    [(''pulumi-pg-master'', None),
     (''pulumi-pg-replica1'', Some (PSeq [replica_integration ''pulumi-pg-master''])),
     (''pulumi-pg-replica2'', Some (PSeq [replica_integration ''pulumi-pg-master'']))]"
proof -
  from replica_stack_missing [of conf] assms obtain v p plan where
    "dget conf ''pg_version'' = Some v" "dget conf ''aiven_project'' = Some p" "dget conf ''plan_size'' = Some plan" by fastforce
  with assms show ?thesis
    by (auto simp add: replica_stack_def stack_defs primary_def replicas_def ditem_def dget_def)
qed

text \<open>The function reads the database that Grafana shows, and the rule starts the function.\<close>

definition wired :: "(string \<Rightarrow> string \<Rightarrow> string) \<Rightarrow> string \<Rightarrow> string \<Rightarrow> stack \<Rightarrow> bool" where
  "wired resolve variable db s \<longleftrightarrow>
     environment_of resolve s = [(variable, resolve db ''service_uri'')] \<and>
     list_ex (\<lambda>r. res_type r = ''aiven.ServiceIntegration'' \<and> dget (res_args r) ''integration_type'' = Some (PText ''dashboard'') \<and>
       dget (res_args r) ''source_service_name'' = Some (Output ''pulumi-grafana'' ''service_name'') \<and>
       dget (res_args r) ''destination_service_name'' = Some (Output db ''service_name'')) (registered s) \<and>
     list_ex (\<lambda>r. res_type r = ''aws.cloudwatch.EventTarget'' \<and> dget (res_args r) ''arn'' = Some (Output ''ServerlessFunction'' ''arn'') \<and>
       dget (res_args r) ''rule'' = Some (Output ''lambdaEventRule'' ''name'')) (registered s)"

lemma influx_wired:
  assumes "influx_stack conf empty_stack = (Inr (), s)"
  shows "wired resolve ''SERVICE_URI'' ''influxdb-grafana'' s"
proof -
  from influx_stack_missing [of conf] assms obtain p r where
    "dget conf ''aiven_project'' = Some p" "dget conf ''aiven_cloud_region'' = Some r" by fastforce
  with assms show ?thesis
    by (auto simp add: influx_stack_def stack_defs ditem_def dget_def wired_def environment_of_def)
qed

lemma m3_wired:
  assumes "m3_stack conf empty_stack = (Inr (), s)"
  shows "wired resolve ''M3DB_URI'' ''pulumi-m3db'' s"
proof -
  from m3_stack_missing [of conf] assms obtain p r where
    "dget conf ''aiven_project'' = Some p" "dget conf ''aiven_cloud_region'' = Some r" by fastforce
  with assms show ?thesis
    by (auto simp add: m3_stack_def stack_defs ditem_def dget_def wired_def environment_of_def)
qed

lemma influx_handler_raises:
  assumes "influx_handler api [(''SERVICE_URI'', uri)] w = (Inl e, w')"
  shows "from_dsn api uri w = (Inl e, w')"
proof -
  have caught: "acatch m (\<lambda>e. Inr False) w2 \<noteq> (Inl e, w')" for m :: "('a, bool) run" and w2
    by (cases "m w2"; cases "fst (m w2)") (auto simp: acatch_def)
  show ?thesis
    using assms caught by (cases "from_dsn api uri w"; cases "fst (from_dsn api uri w)")
      (auto simp: influx_handler_def abind_def ditem_def dget_def split: prod.splits)
qed

lemma m3_handler_raises:
  assumes "m3_handler api [(''M3DB_URI'', uri)] w = (Inl e, w')"
  shows "\<exists>v w1. temperature api (- 30) 130 w = (v, w1) \<and>
    post_line api (uri @ ''/api/v1/influxdb/write'') ''outside_temp'' v w1 = (Inl e, w')"
  using assms by (auto simp: m3_handler_def abind_Inl ditem_def dget_def split: prod.splits)

text \<open>The numbers of an order.\<close>

lemma price_bounds:
  assumes "(9 / 10 :: rat) \<le> p" "p \<le> 999"
  shows "9 / 10 \<le> of_int \<lceil>p * 100\<rceil> / (100 :: rat) \<and> of_int \<lceil>p * 100\<rceil> / (100 :: rat) \<le> 999"
proof -
  have "\<lceil>p * 100\<rceil> \<le> 99900" using assms(2) by (simp add: ceiling_le_iff)
  then have "of_int \<lceil>p * 100\<rceil> \<le> (99900 :: rat)" by (metis of_int_le_iff of_int_numeral)
  moreover have "p * 100 \<le> of_int \<lceil>p * 100\<rceil>" by (rule le_of_int_ceiling)
  ultimately show ?thesis using assms(1) by (simp add: field_simps)
qed

definition draws_in_unit :: "('w, 'z) orders_db_scheme \<Rightarrow> bool" where
  "draws_in_unit db \<longleftrightarrow> (\<forall>w. 0 \<le> fst (draw db w) \<and> fst (draw db w) < 1)"

text \<open>The quantity lies between 1 and the number of the row; for row 0 that is below 1.\<close>

definition order_ok :: "int \<Rightarrow> order_row \<Rightarrow> bool" where
  "order_ok i row \<longleftrightarrow>
     length (order_texts row) = 6 \<and> 9 / 10 \<le> order_price row \<and> order_price row \<le> 999 \<and>
     (if i = 0 then 0 < order_qty row \<and> order_qty row \<le> 1 else 1 \<le> order_qty row \<and> order_qty row \<le> of_int i)"

lemma uniform_draw_bounds:
  assumes "draws_in_unit db" "a \<le> b"
  shows "a \<le> fst (uniform_draw db a b w) \<and> fst (uniform_draw db a b w) \<le> b"
proof -
  obtain r w' where r: "draw db w = (r, w')" by force
  with assms(1) have "0 \<le> r" "r < 1" by (metis draws_in_unit_def fst_conv)+
  with assms(2) have "0 \<le> (b - a) * r" "(b - a) * r \<le> b - a" by (simp_all add: mult_left_le)
  with r show ?thesis by (simp add: uniform_draw_def)
qed

lemma fake_texts_length: "fake_texts db ks w = (ts, w') \<Longrightarrow> length ts = length ks"
  by (induction ks arbitrary: ts w w') (auto split: prod.splits)

lemma fake_order_ok:
  assumes "draws_in_unit db" "0 \<le> i" "fake_order db i w = (row, w')"
  shows "order_ok i row"
proof -
  from assms(3) obtain ts w1 qty w2 p w3 where
    ts: "fake_texts db [''name'', ''address'', ''phone_number'', ''user_agent'', ''currency_code'', ''isbn10''] w = (ts, w1)"
    and q: "uniform_draw db 1 (of_int i) w1 = (qty, w2)" and p: "uniform_draw db (9 / 10) 999 w2 = (p, w3)"
    and row: "row = \<lparr>order_texts = ts, order_qty = qty, order_price = of_int \<lceil>p * 100\<rceil> / 100\<rparr>"
    by (auto simp: fake_order_def split: prod.splits)
  from fake_texts_length [OF ts] have "length ts = 6" by simp
  moreover have "9 / 10 \<le> p \<and> p \<le> 999" using uniform_draw_bounds [OF assms(1), of "9 / 10" 999 w2] p by simp
  moreover have "if i = 0 then 0 < qty \<and> qty \<le> 1 else 1 \<le> qty \<and> qty \<le> of_int i"
  proof (cases "i = 0")
    case True
    obtain r w' where r: "draw db w1 = (r, w')" by force
    with assms(1) have "0 \<le> r" "r < 1" by (metis draws_in_unit_def fst_conv)+
    with r True q show ?thesis by (auto simp: uniform_draw_def)
  next
    case False
    with assms(2) have "(1::rat) \<le> of_int i" by simp
    with uniform_draw_bounds [OF assms(1), of 1 "of_int i" w1] q False show ?thesis by simp
  qed
  ultimately show ?thesis using price_bounds [of p] row by (simp add: order_ok_def)
qed

lemma fake_orders_ok:
  "draws_in_unit db \<Longrightarrow> list_all (\<lambda>i. 0 \<le> i) is \<Longrightarrow> fake_orders db is w = (rows, w') \<Longrightarrow> list_all2 order_ok is rows"
  by (induction "is" arbitrary: w rows) (auto split: prod.splits dest: fake_order_ok)


section \<open>Properties\<close>


text \<open>C19. In both stacks the deployed function finds the URI of the database that Grafana's dashboard shows under the
  variable it reads, and the rule of every minute targets it: run in the environment the stack declares, the function
  raises only what its client raises for that URI (InfluxDB), or what the post to it raises (M3).\<close>

theorem handlers_reach_database:
  assumes "influx_stack conf empty_stack = (Inr (), s)" "m3_stack conf' empty_stack = (Inr (), t)"
  shows "wired resolve ''SERVICE_URI'' ''influxdb-grafana'' s \<and> wired resolve ''M3DB_URI'' ''pulumi-m3db'' t \<and>
    (\<forall>w e w'. influx_handler api (environment_of resolve s) w = (Inl e, w') \<longrightarrow>
       from_dsn api (resolve ''influxdb-grafana'' ''service_uri'') w = (Inl e, w')) \<and>
    (\<forall>w e w'. m3_handler api (environment_of resolve t) w = (Inl e, w') \<longrightarrow>
       (\<exists>v w1. temperature api (- 30) 130 w = (v, w1) \<and>
         post_line api (resolve ''pulumi-m3db'' ''service_uri'' @ ''/api/v1/influxdb/write'') ''outside_temp'' v w1 = (Inl e, w')))"
proof -
  note i = influx_wired [OF assms(1), of resolve] and m = m3_wired [OF assms(2), of resolve]
  from i m have "environment_of resolve s = [(''SERVICE_URI'', resolve ''influxdb-grafana'' ''service_uri'')]"
    "environment_of resolve t = [(''M3DB_URI'', resolve ''pulumi-m3db'' ''service_uri'')]" by (simp_all add: wired_def)
  then show ?thesis by (simp only:) (intro conjI allI impI i m; (rule influx_handler_raises m3_handler_raises; assumption))
qed

text \<open>Every order has six texts and a price between 0.9 and 999; its quantity lies between 1 and the number of its row,
  so that the first order alone may have a quantity below 1.\<close>

theorem orders_in_bounds:
  assumes "draws_in_unit db" "fake_orders db [0..n - 1] w = (batch, w')"
  shows "list_all2 order_ok [0..n - 1] batch"
  by (rule fake_orders_ok [OF assms(1) _ assms(2)]) (simp add: list_all_iff)

section \<open>Witnesses\<close>

definition stack_config :: "(string, string) dict" where
  "stack_config = [(''aiven_project'', ''demo''), (''aiven_cloud_region'', ''google-us-central1'')]"

definition demo_metrics :: "nat metrics" where
  "demo_metrics = \<lparr>from_dsn = (\<lambda>uri. aret (Inr ())), temperature = (\<lambda>a b w. (a, w + 1)),
     write_points = (\<lambda>m v. aret (Inr ())), post_line = (\<lambda>u m v. aret (Inr 204))\<rparr>"

lemma handlers_reach_database_witness:
  "influx_handler demo_metrics (environment_of (\<lambda>n a. n @ '':'' @ a) (snd (influx_stack stack_config empty_stack))) 0 = (Inr True, 1) \<and>
   wired (\<lambda>n a. n @ '':'' @ a) ''SERVICE_URI'' ''influxdb-grafana'' (snd (influx_stack stack_config empty_stack))"
proof -
  obtain s where s: "influx_stack stack_config empty_stack = (Inr (), s)"
    by (simp add: influx_stack_def stack_defs ditem_def dget_def stack_config_def)
  obtain t where t: "m3_stack stack_config empty_stack = (Inr (), t)"
    by (simp add: m3_stack_def stack_defs ditem_def dget_def stack_config_def)
  from handlers_reach_database [OF s t, of "\<lambda>n a. n @ '':'' @ a" demo_metrics]
  have w: "wired (\<lambda>n a. n @ '':'' @ a) ''SERVICE_URI'' ''influxdb-grafana'' s" by blast
  then have "environment_of (\<lambda>n a. n @ '':'' @ a) s = [(''SERVICE_URI'', ''influxdb-grafana:service_uri'')]"
    by (simp add: wired_def)
  with w s show ?thesis
    by (simp add: influx_handler_def demo_metrics_def abind_def acatch_def ditem_def dget_def)
qed

definition demo_orders :: "nat orders_db" where
  "demo_orders = \<lparr>connect_orders = (\<lambda>u. aret (Inr ())), read_schema = aret (Inr ''CREATE''), exec_orders = (\<lambda>s. aret (Inr ())),
     fetch_count = aret (Inr 0), close_orders = aret (Inr ()), fake_text = (\<lambda>k w. (k, w + 1)), draw = (\<lambda>w. (3 / 4, w + 1)),
     insert_orders = (\<lambda>b. aret (Inr ())), commit_orders = aret (Inr ())\<rparr>"

text \<open>The first order of this batch asks for a quarter of an item.\<close>

lemma orders_in_bounds_witness:
  "map order_qty (fst (fake_orders demo_orders [0..1] 0)) = [1 / 4, 1] \<and>
   list_all2 order_ok [0..1] (fst (fake_orders demo_orders [0..1] 0))"
proof -
  have d: "draws_in_unit demo_orders" by (simp add: draws_in_unit_def demo_orders_def)
  obtain b w' where b: "fake_orders demo_orders [0..2 - 1] 0 = (b, w')" by force
  have "[0..1] = [0, 1::int]" by (simp add: upto.simps)
  then have "map order_qty (fst (fake_orders demo_orders [0..1] 0)) = [1 / 4, 1]"
    by (simp add: fake_order_def uniform_draw_def demo_orders_def)
  with orders_in_bounds [OF d b] b show ?thesis by simp
qed

end
