(* ===== verification/DatabaseExamples.thy ===== *)
theory DatabaseExamples
  imports PyJson PyStr PyState PyDict
begin

text \<open>
  The examples for Redis, InfluxDB, MySQL, PostgreSQL and Cassandra (\<open>redis/python\<close>, \<open>influxdb/python\<close>,
  \<open>mysql/python\<close>, \<open>postgresql/python\<close>, \<open>cassandra/python\<close>): each connects, writes or asks for something and
  prints what it reads. The clients are parameters that run on a world of their own; the result of a program is
  what it prints. An exception whose class nothing here tells apart (\<open>StopIteration\<close>) is a \<open>RuntimeError\<close>.
\<close>

text \<open>\<open>try: ... finally: ...\<close>: the last part runs on every way out, and what it raises replaces the rest.\<close>

definition afinally :: "('s, 'a) run \<Rightarrow> ('s, unit) run \<Rightarrow> ('s, 'a) run" where
  "afinally m c = (\<lambda>s. case m s of (r, s1) \<Rightarrow> (case c s1 of (Inl e, s2) \<Rightarrow> (Inl e, s2) | (Inr _, s2) \<Rightarrow> (r, s2)))"

section \<open>Redis\<close>

record 'w redis_client =
  redis_open :: "string \<Rightarrow> int \<Rightarrow> string \<Rightarrow> bool \<Rightarrow> ('w, unit) run"
  redis_ping :: "('w, unit) run"
  redis_set :: "string \<Rightarrow> string \<Rightarrow> ('w, unit) run"
  redis_get :: "string \<Rightarrow> ('w, string option) run"

definition redis_key :: string where
  "redis_key = ''pythonRedisExample''"

text \<open>\<open>decode\<close> is the UTF-8 decoding; a key without a value has none to decode.\<close>

definition redis_main :: "('w, 'z) redis_client_scheme \<Rightarrow> (string \<Rightarrow> string res) \<Rightarrow> string \<Rightarrow> int \<Rightarrow> string \<Rightarrow> ('w, string) run" where
  "redis_main api decode host port password =
     abind (redis_open api host port password True) (\<lambda>_.
     abind (redis_ping api) (\<lambda>_.
     abind (redis_set api redis_key ''python'') (\<lambda>_.
     abind (redis_get api redis_key) (\<lambda>v. aret
       (rbind (case v of None \<Rightarrow> Inl (AttributeError ''decode'') | Some b \<Rightarrow> decode b) (\<lambda>t.
          Inr (''The value for '' @ [CHR 0x27] @ redis_key @ [CHR 0x27] @ '' is: '' @ [CHR 0x27] @ t @ [CHR 0x27])))))))"

section \<open>InfluxDB\<close>

record 'w influx_client =
  influx_from_dsn :: "string \<Rightarrow> rat \<Rightarrow> bool \<Rightarrow> ('w, unit) run"
  influx_now :: "'w \<Rightarrow> string"
  influx_write :: "json \<Rightarrow> ('w, unit) run"
  influx_query :: "string \<Rightarrow> ('w, json list) run"

definition influx_body :: "string \<Rightarrow> json" where
  "influx_body now =
     JList [JObj [(''measurement'', JStr ''cpu_load_short''), (''tags'', JObj [(''host'', JStr ''testnode'')]),
       (''time'', JStr now), (''fields'', JObj [(''value'', JFloat (95 / 100))])]]"

text \<open>The first point of the answer is printed as JSON.\<close>

definition influx_main :: "('w, 'z) influx_client_scheme \<Rightarrow> (json \<Rightarrow> string res) \<Rightarrow> string \<Rightarrow> ('w, string) run" where
  "influx_main api dumps url =
     abind (influx_from_dsn api url 3 True) (\<lambda>_. \<lambda>w.
       abind (influx_write api (influx_body (influx_now api w))) (\<lambda>_.
       abind (influx_query api ''select value from cpu_load_short;'') (\<lambda>points. aret
         (case points of [] \<Rightarrow> Inl (RuntimeError ''StopIteration'') | p # _ \<Rightarrow> dumps p))) w)"

section \<open>MySQL\<close>

record mysql_settings =
  my_charset :: string
  my_connect_timeout :: int
  my_db :: string
  my_host :: string
  my_password :: string
  my_read_timeout :: int
  my_port :: int
  my_ssl :: "(string, string) dict option"
  my_user :: string
  my_write_timeout :: int

record 'w mysql_client =
  mysql_connect :: "mysql_settings \<Rightarrow> ('w, unit) run"
  mysql_cursor :: "('w, unit) run"
  mysql_execute :: "string \<Rightarrow> ('w, unit) run"
  mysql_fetchone :: "('w, json) run"
  mysql_close :: "('w, unit) run"

definition mysql_settings_of :: "string \<Rightarrow> int \<Rightarrow> string \<Rightarrow> string option \<Rightarrow> int \<Rightarrow> mysql_settings" where
  "mysql_settings_of host port password ca_file timeout =
     (let ssl_config = (case ca_file of None \<Rightarrow> None | Some f \<Rightarrow> if f = [] then None else Some [(''ca'', f)])
      in \<lparr>my_charset = ''utf8mb4'', my_connect_timeout = timeout, my_db = ''defaultdb'', my_host = host, my_password = password,
          my_read_timeout = timeout, my_port = port, my_ssl = ssl_config, my_user = ''avnadmin'', my_write_timeout = timeout\<rparr>)"

definition mysql_main :: "('w, 'z) mysql_client_scheme \<Rightarrow> string \<Rightarrow> int \<Rightarrow> string \<Rightarrow> string option \<Rightarrow> int \<Rightarrow> ('w, json) run" where
  "mysql_main api host port password ca_file timeout =
     abind (mysql_connect api (mysql_settings_of host port password ca_file timeout)) (\<lambda>_.
       afinally
         (abind (mysql_cursor api) (\<lambda>_.
          abind (mysql_execute api ''SELECT DATABASE()'') (\<lambda>_. mysql_fetchone api)))
         (mysql_close api))"

section \<open>PostgreSQL\<close>

record 'w postgres_client =
  postgres_connect :: "string \<Rightarrow> ('w, unit) run"
  postgres_cursor :: "('w, unit) run"
  postgres_execute :: "string \<Rightarrow> ('w, unit) run"
  postgres_fetchone :: "('w, string list option) run"

definition postgres_main :: "('w, 'z) postgres_client_scheme \<Rightarrow> string \<Rightarrow> ('w, string) run" where
  "postgres_main api uri =
     abind (postgres_connect api uri) (\<lambda>_.
     abind (postgres_cursor api) (\<lambda>_.
     abind (postgres_execute api ''SELECT current_database()'') (\<lambda>_.
     abind (postgres_fetchone api) (\<lambda>r. aret
       (case r of
          None \<Rightarrow> Inl (TypeError ''NoneType object is not subscriptable'')
        | Some [] \<Rightarrow> Inl (IndexError ''tuple index out of range'')
        | Some (d # _) \<Rightarrow> Inr (''Successfully connected to: '' @ d))))))"

section \<open>Cassandra\<close>

datatype cql =
    CreateKeyspace string string int
  | CreateMessages
  | InsertMessage int string
  | SelectMessages

record cassandra_args =
  cas_host :: string
  cas_port :: int
  cas_username :: string
  cas_password :: string
  cas_ca_path :: string

text \<open>The cluster and the session are closed on every way out; a statement gives rows of an id and a message.\<close>

record 'w cassandra_client =
  open_cluster :: "cassandra_args \<Rightarrow> ('w, unit) run"
  open_session :: "('w, unit) run"
  cassandra_execute :: "cql \<Rightarrow> ('w, (int \<times> string) list) run"
  close_session :: "('w, unit) run"
  close_cluster :: "('w, unit) run"

definition hello :: string where
  "hello = ''Hello from Python!''"

fun insert_messages :: "('w, 'z) cassandra_client_scheme \<Rightarrow> int list \<Rightarrow> ('w, unit) run" where
  "insert_messages api [] = aret (Inr ())"
| "insert_messages api (i # is) =
     abind (cassandra_execute api (InsertMessage i hello)) (\<lambda>_. insert_messages api is)"

definition use_session :: "('w, 'z) cassandra_client_scheme \<Rightarrow> ('w, (int \<times> string) list) run" where
  "use_session api =
     abind (cassandra_execute api (CreateKeyspace ''NetworkTopologyStrategy'' ''aiven'' 3)) (\<lambda>_.
     abind (cassandra_execute api CreateMessages) (\<lambda>_.
     abind (insert_messages api [0..9]) (\<lambda>_.
       cassandra_execute api SelectMessages)))"

text \<open>The rows that are printed.\<close>

definition cassandra_example :: "('w, 'z) cassandra_client_scheme \<Rightarrow> cassandra_args \<Rightarrow> ('w, (int \<times> string) list) run" where
  "cassandra_example api args =
     abind (open_cluster api args) (\<lambda>_.
       afinally
         (abind (open_session api) (\<lambda>_. afinally (use_session api) (close_session api)))
         (close_cluster api))"

definition cassandra_main :: "('w, 'z) cassandra_client_scheme \<Rightarrow> (string \<Rightarrow> bool) \<Rightarrow> cassandra_args \<Rightarrow> ('w, (int \<times> string) list) run" where
  "cassandra_main api isfile args =
     (if \<not> isfile (cas_ca_path args) then aret (Inl (SystemExit 1)) else cassandra_example api args)"

section \<open>What the servers promise\<close>


section \<open>Facts\<close>


text \<open>Whatever happens in between, the last thing that is run is the closing part.\<close>

lemma afinally_closes: "\<exists>s1. snd (afinally m c s) = snd (c s1)"
  by (cases "m s"; cases "c (snd (m s))"; cases "fst (c (snd (m s)))")
    (auto simp: afinally_def intro!: exI [of _ "snd (m s)"])



section \<open>Properties\<close>





end
