(* ===== verification/PyArgparse.thy ===== *)
theory PyArgparse
  imports PyDict PyStr
begin

text \<open>
  Python's \<open>argparse\<close> (that of Python 3.11, which the validation scripts name) for the parsers the programs
  build: positionals and options that take one argument, flags (\<open>store_true\<close>), \<open>-h\<close> and \<open>--help\<close>,
  conversion to \<open>int\<close>, defaults and required options. \<open>parse_args\<close> follows the library: every string is
  first classed as an option, an argument or the mark \<open>--\<close>, where an option may be abbreviated and may
  carry its argument after \<open>=\<close> or, a short one, without anything between; then the strings are consumed
  from left to right; at the end a required argument that is missing or a string left over is an error.
  An error ends the program with status 2, the help with status 0; what is printed is left out.
\<close>

section \<open>Parsers\<close>

datatype argval = AStr string | AInt int | ABool bool | ANone | AEmptyList

datatype action_kind = StoreStr | StoreInt | StoreTrue | ShowHelp

text \<open>A positional has no flags. The default of the help action is \<open>SUPPRESS\<close>: it has no attribute.\<close>

record argument =
  arg_flags :: "string list"
  arg_dest :: string
  arg_action :: action_kind
  arg_required :: bool
  arg_default :: argval

type_synonym namespace = "(string, argval) dict"

definition help_argument :: argument where
  "help_argument = \<lparr>arg_flags = [''-h'', ''--help''], arg_dest = ''help'', arg_action = ShowHelp,
     arg_required = False, arg_default = ANone\<rparr>"

definition option_arg :: "string \<Rightarrow> string \<Rightarrow> action_kind \<Rightarrow> bool \<Rightarrow> argval \<Rightarrow> argument" where
  "option_arg flag dest action required dflt = \<lparr>arg_flags = [flag], arg_dest = dest, arg_action = action,
     arg_required = required, arg_default = dflt\<rparr>"

definition positional_arg :: "string \<Rightarrow> argument" where
  "positional_arg dest = \<lparr>arg_flags = [], arg_dest = dest, arg_action = StoreStr, arg_required = True,
     arg_default = ANone\<rparr>"

text \<open>\<open>_option_string_actions\<close>, in the order of registration, and the actions that are not options.\<close>

definition option_table :: "argument list \<Rightarrow> (string \<times> argument) list" where
  "option_table p = concat (map (\<lambda>a. map (\<lambda>f. (f, a)) (arg_flags a)) (help_argument # p))"

definition positionals_of :: "argument list \<Rightarrow> argument list" where
  "positionals_of p = filter (\<lambda>a. arg_flags a = []) p"

definition takes_value :: "argument \<Rightarrow> bool" where
  "takes_value a = (arg_action a \<in> {StoreStr, StoreInt})"

section \<open>Classing the strings\<close>

definition starts_with :: "string \<Rightarrow> string \<Rightarrow> bool" where
  "starts_with pre s = (take (length pre) s = pre)"

text \<open>\<open>s.split('=', 1)\<close> of a string that has a \<open>=\<close>.\<close>

fun split_equals :: "string \<Rightarrow> (string \<times> string) option" where
  "split_equals [] = None"
| "split_equals (c # s) =
     (if c = CHR ''='' then Some ([], s) else map_option (\<lambda>(o', v). (c # o', v)) (split_equals s))"

text \<open>\<open>_negative_number_matcher\<close>: \<open>-\<close> and digits, or digits with a point before the last ones; the end of the string may be a line feed.\<close>

definition drop_newline :: "string \<Rightarrow> string" where
  "drop_newline s = (if s \<noteq> [] \<and> last s = CHR 0x0A then butlast s else s)"

definition negative_number :: "string \<Rightarrow> bool" where
  "negative_number s =
     (case drop_newline s of
        [] \<Rightarrow> False
      | c # body \<Rightarrow>
          c = CHR ''-'' \<and>
          (body \<noteq> [] \<and> list_all is_digit body \<or>
           (case dropWhile is_digit body of
              [] \<Rightarrow> False
            | d # fraction \<Rightarrow> d = CHR ''.'' \<and> fraction \<noteq> [] \<and> list_all is_digit fraction)))"

text \<open>
  A string of the command line: an argument, the first \<open>--\<close>, an option of the parser with the name it was
  found under and what it carries (the flag says that a \<open>=\<close> separates the two), or an option the parser
  does not have.
\<close>

type_synonym carried = "(bool \<times> string) option"

datatype token =
    Plain string
  | Dashes
  | Opt argument string carried
  | Unknown string

definition option_tuples :: "argument list \<Rightarrow> string \<Rightarrow> (argument \<times> string \<times> carried) list" where
  "option_tuples p s =
     (if s ! 1 = CHR ''-'' then
        (let (prefix, v) = (case split_equals s of None \<Rightarrow> (s, None) | Some (o', v) \<Rightarrow> (o', Some (True, v)))
         in List.map_filter (\<lambda>(f, a). if starts_with prefix f then Some (a, f, v) else None) (option_table p))
      else
        List.map_filter
          (\<lambda>(f, a).
             if f = take 2 s then Some (a, f, Some (False, drop 2 s))
             else if starts_with s f then Some (a, f, None) else None)
          (option_table p))"

definition option_before_equals :: "argument list \<Rightarrow> string \<Rightarrow> token option" where
  "option_before_equals p s =
     (case split_equals s of
        None \<Rightarrow> None
      | Some (o', v) \<Rightarrow> map_option (\<lambda>a. Opt a o' (Some (True, v))) (dget (option_table p) o'))"

definition parse_optional :: "argument list \<Rightarrow> string \<Rightarrow> token res" where
  "parse_optional p s =
     (if s = [] \<or> hd s \<noteq> CHR ''-'' then Inr (Plain s)
      else case dget (option_table p) s of
        Some a \<Rightarrow> Inr (Opt a s None)
      | None \<Rightarrow>
          if length s = 1 then Inr (Plain s)
          else case option_before_equals p s of
            Some t \<Rightarrow> Inr t
          | None \<Rightarrow>
              (case option_tuples p s of
                 (a, f, v) # [] \<Rightarrow> Inr (Opt a f v)
               | _ # _ # _ \<Rightarrow> Inl (SystemExit 2)
               | [] \<Rightarrow>
                   if negative_number s \<and> \<not> list_ex (\<lambda>(f, a). negative_number f) (option_table p) then Inr (Plain s)
                   else if CHR '' '' \<in> set s then Inr (Plain s)
                   else Inr (Unknown s)))"

fun tokens_of :: "argument list \<Rightarrow> string list \<Rightarrow> token list res" where
  "tokens_of p [] = Inr []"
| "tokens_of p (s # argv) =
     (if s = ''--'' then Inr (Dashes # map Plain argv)
      else rbind (parse_optional p s) (\<lambda>t. rbind (tokens_of p argv) (\<lambda>ts. Inr (t # ts))))"

fun is_option :: "token \<Rightarrow> bool" where
  "is_option (Opt a f v) = True"
| "is_option (Unknown s) = True"
| "is_option (Plain s) = False"
| "is_option Dashes = False"

fun token_string :: "token \<Rightarrow> string" where
  "token_string (Plain s) = s"
| "token_string Dashes = ''--''"
| "token_string (Unknown s) = s"
| "token_string (Opt a f v) = f"

section \<open>Consuming the strings\<close>

record parsed =
  parsed_values :: namespace
  seen_arguments :: "argument list"
  leftover :: "string list"
  waiting :: "argument list"

definition set_value :: "argument \<Rightarrow> argval \<Rightarrow> parsed \<Rightarrow> parsed" where
  "set_value a v st = st\<lparr>parsed_values := dset (parsed_values st) (arg_dest a) v, seen_arguments := a # seen_arguments st\<rparr>"

text \<open>\<open>_get_value\<close>: the type of the argument applied to the string; what it raises is an error of the parser.\<close>

definition convert_arg :: "argument \<Rightarrow> string \<Rightarrow> argval res" where
  "convert_arg a s =
     (if arg_action a = StoreInt then
        (case py_int s of Inl e \<Rightarrow> Inl (SystemExit 2) | Inr i \<Rightarrow> Inr (AInt i))
      else Inr (AStr s))"

text \<open>
  \<open>take_action\<close>: \<open>_get_values\<close> drops the first \<open>--\<close> from the strings of a positional; when nothing is left
  its value is an empty list.
\<close>

definition take_action :: "argument \<Rightarrow> string list \<Rightarrow> parsed \<Rightarrow> parsed res" where
  "take_action a strings st =
     (if takes_value a then
        (case if arg_flags a = [] then remove1 ''--'' strings else strings of
           s # _ \<Rightarrow> rbind (convert_arg a s) (\<lambda>v. Inr (set_value a v st))
         | [] \<Rightarrow> Inr (set_value a AEmptyList st))
      else if arg_action a = ShowHelp then Inl (SystemExit 0)
      else Inr (set_value a (ABool True) st))"

text \<open>
  \<open>consume_optional\<close>: a flag that carries a string is, with one dash, followed by other short options in
  the same string, where one the parser does not have is left over with the rest of the string; an
  option that takes an argument and carries none takes the next string. All of this is settled before
  the first of the actions is taken.
\<close>

definition carried_rest :: "string \<Rightarrow> carried" where
  "carried_rest s =
     (case s of [] \<Rightarrow> None | c # rest \<Rightarrow> if c = CHR ''='' then Some (True, rest) else Some (False, s))"

function option_actions :: "argument list \<Rightarrow> argument \<Rightarrow> string \<Rightarrow> carried \<Rightarrow> token list \<Rightarrow>
    ((argument \<times> string list) list \<times> string list \<times> token list) res" where
  "option_actions p a f None ts =
     (if takes_value a then
        (case ts of Plain s # ts' \<Rightarrow> Inr ([(a, [s])], [], ts') | _ \<Rightarrow> Inl (SystemExit 2))
      else Inr ([(a, [])], [], ts))"
| "option_actions p a f (Some (sep, s)) ts =
     (if takes_value a then Inr ([(a, [s])], [], ts)
      else case s of
        [] \<Rightarrow> Inl (SystemExit 2)
      | c # rest \<Rightarrow>
          if f ! 1 = CHR ''-'' \<or> sep \<or> c = CHR ''-'' then Inl (SystemExit 2)
          else case dget (option_table p) [CHR ''-'', c] of
            None \<Rightarrow> Inr ([(a, [])], [CHR ''-'' # s], ts)
          | Some a' \<Rightarrow>
              rbind (option_actions p a' [CHR ''-'', c] (carried_rest rest) ts)
                (\<lambda>(acts, extra, ts'). Inr ((a, []) # acts, extra, ts')))"
  by pat_completeness auto
termination
  by (relation "measure (\<lambda>(p, a, f, v, ts). case v of None \<Rightarrow> 0 | Some (sep, s) \<Rightarrow> Suc (length s))")
    (auto simp: carried_rest_def split: list.splits)

fun take_actions :: "(argument \<times> string list) list \<Rightarrow> parsed \<Rightarrow> parsed res" where
  "take_actions [] st = Inr st"
| "take_actions ((a, strings) # acts) st = rbind (take_action a strings st) (take_actions acts)"

definition consume_optional :: "argument list \<Rightarrow> argument \<Rightarrow> string \<Rightarrow> carried \<Rightarrow> token list \<Rightarrow> parsed \<Rightarrow>
    (parsed \<times> token list) res" where
  "consume_optional p a f v ts st =
     rbind (option_actions p a f v ts) (\<lambda>(acts, extra, ts').
     rbind (take_actions acts (st\<lparr>leftover := leftover st @ extra\<rparr>)) (\<lambda>st'. Inr (st', ts')))"

text \<open>
  \<open>consume_positionals\<close>: the strings one positional takes (the mark may stand on either side of its
  argument), and as many of the positionals that wait as there are such strings.
\<close>

fun positional_strings :: "token list \<Rightarrow> (string list \<times> token list) option" where
  "positional_strings (Dashes # Plain s # ts) = Some ([''--'', s], ts)"
| "positional_strings (Plain s # Dashes # ts) = Some ([s, ''--''], ts)"
| "positional_strings (Plain s # ts) = Some ([s], ts)"
| "positional_strings ts = None"

fun consume_positionals :: "argument list \<Rightarrow> token list \<Rightarrow> parsed \<Rightarrow> (parsed \<times> token list) res" where
  "consume_positionals [] ts st = Inr (st\<lparr>waiting := []\<rparr>, ts)"
| "consume_positionals (a # as) ts st =
     (case positional_strings ts of
        None \<Rightarrow> Inr (st\<lparr>waiting := a # as\<rparr>, ts)
      | Some (strings, ts') \<Rightarrow> rbind (take_action a strings st) (consume_positionals as ts'))"

text \<open>
  The loop over the strings, as long as an option is ahead: positionals first; when none of them can be
  taken the strings up to the next option are left over; then that option.
\<close>

fun leave_strings :: "token list \<Rightarrow> parsed \<Rightarrow> parsed \<times> token list" where
  "leave_strings [] st = (st, [])"
| "leave_strings (t # ts) st =
     (if is_option t then (st, t # ts) else leave_strings ts (st\<lparr>leftover := leftover st @ [token_string t]\<rparr>))"

lemma positional_strings_length: "positional_strings ts = Some (strings, ts') \<Longrightarrow> length ts' < length ts"
  by (induction ts rule: positional_strings.induct) auto

lemma consume_positionals_length:
  "consume_positionals as ts st = Inr (st', ts') \<Longrightarrow> length ts' \<le> length ts"
proof (induction as arbitrary: ts st)
  case (Cons a as)
  then show ?case
    by (fastforce simp: rbind_eq_Inr split: option.splits dest: positional_strings_length)
qed simp

lemma leave_strings_length: "leave_strings ts st = (st', ts') \<Longrightarrow> length ts' \<le> length ts"
  by (induction ts arbitrary: st) (fastforce split: if_splits)+

lemma option_actions_length: "option_actions p a f v ts = Inr (acts, extra, ts') \<Longrightarrow> length ts' \<le> length ts"
proof (induction p a f v ts arbitrary: acts rule: option_actions.induct)
  case (1 p a f ts)
  then show ?case
    by (cases "takes_value a"; cases ts; cases "hd ts") simp_all
next
  case (2 p a f sep s ts)
  show ?case
  proof (cases "takes_value a")
    case True
    with "2.prems" show ?thesis by simp
  next
    case False
    with "2.prems" obtain c rest where s: "s = c # rest" "\<not> (f ! 1 = CHR ''-'' \<or> sep \<or> c = CHR ''-'')"
      by (cases s) (auto split: if_splits)
    show ?thesis
    proof (cases "dget (option_table p) [CHR ''-'', c]")
      case None
      with "2.prems" False s show ?thesis by simp
    next
      case (Some a')
      with "2.prems" False s obtain acts' where
        "option_actions p a' [CHR ''-'', c] (carried_rest rest) ts = Inr (acts', extra, ts')"
        by (auto simp: rbind_eq_Inr)
      from "2.IH" [OF False s Some this] show ?thesis .
    qed
  qed
qed

definition consume_option :: "argument list \<Rightarrow> token list \<Rightarrow> parsed \<Rightarrow> (parsed \<times> token list) res" where
  "consume_option p ts st =
     (case ts of
        [] \<Rightarrow> Inr (st, [])
      | Opt a f v # ts' \<Rightarrow> consume_optional p a f v ts' st
      | t # ts' \<Rightarrow> Inr (st\<lparr>leftover := leftover st @ [token_string t]\<rparr>, ts'))"

lemma consume_optional_length:
  "consume_optional p a f v ts st = Inr (st', ts') \<Longrightarrow> length ts' \<le> length ts"
  using option_actions_length [of p a f v ts] by (fastforce simp: consume_optional_def rbind_eq_Inr)

lemma consume_option_length:
  assumes "consume_option p ts st = Inr (st', ts')" "ts \<noteq> []"
  shows "length ts' < length ts"
proof -
  obtain t rest where ts: "ts = t # rest" using assms(2) by (cases ts) auto
  show ?thesis
  proof (cases t)
    case (Opt a f v)
    with assms(1) ts have "length ts' \<le> length rest"
      by (intro consume_optional_length [of p a f v rest st st']) (simp add: consume_option_def)
    with ts show ?thesis by simp
  qed (use assms(1) ts in \<open>auto simp: consume_option_def\<close>)
qed

lemma leave_strings_option: "list_ex is_option ts \<Longrightarrow> snd (leave_strings ts st) \<noteq> []"
  by (induction ts arbitrary: st) auto

definition loop_step :: "argument list \<Rightarrow> token list \<Rightarrow> parsed \<Rightarrow> (parsed \<times> token list) res" where
  "loop_step p ts st =
     (if is_option (hd ts) then consume_option p ts st
      else rbind (consume_positionals (waiting st) ts st) (\<lambda>(st1, ts1).
        if length ts1 < length ts then Inr (st1, ts1)
        else (case leave_strings ts1 st1 of (st2, ts2) \<Rightarrow> consume_option p ts2 st2)))"

lemma consume_positionals_stuck:
  "consume_positionals as ts st = Inr (st', ts') \<Longrightarrow> \<not> length ts' < length ts \<Longrightarrow> ts' = ts"
proof (induction as arbitrary: ts st)
  case (Cons a as)
  then show ?case
    by (auto simp: rbind_eq_Inr split: option.splits dest!: positional_strings_length consume_positionals_length)
qed simp

lemma loop_step_length:
  assumes "loop_step p ts st = Inr (st', ts')" "list_ex is_option ts"
  shows "length ts' < length ts"
proof (cases "is_option (hd ts)")
  case True
  with assms show ?thesis by (auto simp: loop_step_def dest: consume_option_length)
next
  case False
  with assms(1) obtain st1 ts1 where c: "consume_positionals (waiting st) ts st = Inr (st1, ts1)"
      and r: "(if length ts1 < length ts then Inr (st1, ts1)
        else (case leave_strings ts1 st1 of (st2, ts2) \<Rightarrow> consume_option p ts2 st2)) = Inr (st', ts')"
    by (auto simp: loop_step_def rbind_eq_Inr)
  show ?thesis
  proof (cases "length ts1 < length ts")
    case False
    obtain st2 ts2 where l: "leave_strings ts1 st1 = (st2, ts2)" by force
    have eq: "ts1 = ts" by (rule consume_positionals_stuck [OF c False])
    with assms(2) l have "ts2 \<noteq> []" using leave_strings_option [of ts st1] by simp
    moreover from r False l have "consume_option p ts2 st2 = Inr (st', ts')" by simp
    ultimately have "length ts' < length ts2" using consume_option_length by blast
    also have "length ts2 \<le> length ts" using leave_strings_length l eq by blast
    finally show ?thesis .
  qed (use r in simp)
qed

function parse_loop :: "argument list \<Rightarrow> token list \<Rightarrow> parsed \<Rightarrow> (parsed \<times> token list) res" where
  "parse_loop p ts st =
     (if \<not> list_ex is_option ts then Inr (st, ts)
      else rbind (loop_step p ts st) (\<lambda>(st', ts'). parse_loop p ts' st'))"
  by pat_completeness auto
termination
  by (relation "measure (\<lambda>(p, ts, st). length ts)") (simp, use loop_step_length in auto)

declare parse_loop.simps [simp del]

section \<open>The parser\<close>

text \<open>The attributes before the first string: the defaults, in the order of the arguments.\<close>

definition default_values :: "argument list \<Rightarrow> namespace" where
  "default_values p = dupdate [] (map (\<lambda>a. (arg_dest a, arg_default a)) p)"

text \<open>A default that is a string is converted when the argument was not given.\<close>

fun convert_defaults :: "argument list \<Rightarrow> parsed \<Rightarrow> parsed res" where
  "convert_defaults [] st = Inr st"
| "convert_defaults (a # as) st =
     (if a \<in> set (seen_arguments st) then convert_defaults as st
      else case arg_default a of
        AStr s \<Rightarrow> rbind (convert_arg a s) (\<lambda>v.
          convert_defaults as (st\<lparr>parsed_values := dset (parsed_values st) (arg_dest a) v\<rparr>))
      | _ \<Rightarrow> convert_defaults as st)"

definition finish_parse :: "argument list \<Rightarrow> parsed \<Rightarrow> namespace res" where
  "finish_parse p st =
     rbind (convert_defaults (filter (\<lambda>a. \<not> arg_required a) p) st) (\<lambda>st'.
     if list_ex (\<lambda>a. arg_required a \<and> a \<notin> set (seen_arguments st')) p then Inl (SystemExit 2)
     else if leftover st' \<noteq> [] then Inl (SystemExit 2)
     else Inr (parsed_values st'))"

definition parse_tokens :: "argument list \<Rightarrow> token list \<Rightarrow> namespace res" where
  "parse_tokens p ts =
     rbind (parse_loop p ts \<lparr>parsed_values = default_values p, seen_arguments = [], leftover = [],
       waiting = positionals_of p\<rparr>) (\<lambda>(st, ts').
     rbind (consume_positionals (waiting st) ts' st) (\<lambda>(st', rest).
     finish_parse p (st'\<lparr>leftover := leftover st' @ map token_string rest\<rparr>)))"

definition parse_args :: "argument list \<Rightarrow> string list \<Rightarrow> namespace res" where
  "parse_args p argv = rbind (tokens_of p argv) (parse_tokens p)"

text \<open>Reading an attribute: one that is text or \<open>None\<close>, a number, a flag.\<close>

definition text_of :: "namespace \<Rightarrow> string \<Rightarrow> string option" where
  "text_of ns d = (case dget ns d of Some (AStr s) \<Rightarrow> Some s | _ \<Rightarrow> None)"

definition number_of :: "namespace \<Rightarrow> string \<Rightarrow> int" where
  "number_of ns d = (case dget ns d of Some (AInt i) \<Rightarrow> i | _ \<Rightarrow> 0)"

definition flag_of :: "namespace \<Rightarrow> string \<Rightarrow> bool" where
  "flag_of ns d = (dget ns d = Some (ABool True))"

section \<open>The consumption of a prefix\<close>

text \<open>
  A prefix of the command line that stands before an option is consumed without regard to what follows:
  \<open>prefix_step\<close> is the loop's step on the prefix, \<open>None\<close> when the option itself is next.
\<close>

definition prefix_step :: "argument list \<Rightarrow> token list \<Rightarrow> parsed \<Rightarrow> (parsed \<times> token list option) res" where
  "prefix_step p ts st =
     (if is_option (hd ts) then rbind (consume_option p ts st) (\<lambda>(st', ts'). Inr (st', Some ts'))
      else rbind (consume_positionals (waiting st) ts st) (\<lambda>(st1, ts1).
        if length ts1 < length ts then Inr (st1, Some ts1)
        else (case leave_strings ts1 st1 of (st2, ts2) \<Rightarrow>
          if ts2 = [] then Inr (st2, None)
          else rbind (consume_option p ts2 st2) (\<lambda>(st', ts'). Inr (st', Some ts')))))"

lemma positional_strings_append:
  "is_option t \<Longrightarrow> positional_strings (ts @ t # us) = map_option (\<lambda>(ss, rest). (ss, rest @ t # us)) (positional_strings ts)"
  by (cases t; induction ts rule: positional_strings.induct) auto

lemma consume_positionals_append:
  "is_option t \<Longrightarrow> consume_positionals as (ts @ t # us) st =
     rbind (consume_positionals as ts st) (\<lambda>(st', rest). Inr (st', rest @ t # us))"
proof (induction as arbitrary: ts st)
  case (Cons a as)
  show ?case
  proof (cases "positional_strings ts")
    case None
    with Cons.prems show ?thesis by (simp add: positional_strings_append)
  next
    case (Some r)
    obtain ss rest where r: "r = (ss, rest)" by (cases r)
    have ih: "consume_positionals as (rest @ t # us) st1 =
        rbind (consume_positionals as rest st1) (\<lambda>(st', rest). Inr (st', rest @ t # us))" for st1
      using Cons by blast
    show ?thesis
      by (cases "take_action a ss st") (simp_all add: positional_strings_append [OF Cons.prems] Some r ih)
  qed
qed simp

lemma leave_strings_append:
  "is_option t \<Longrightarrow> leave_strings (ts @ t # us) st = (case leave_strings ts st of (st', rest) \<Rightarrow> (st', rest @ t # us))"
  by (induction ts arbitrary: st) (auto split: prod.splits)

lemma option_actions_append:
  "is_option t \<Longrightarrow> option_actions p a f v (ts @ t # us) =
     rbind (option_actions p a f v ts) (\<lambda>(acts, extra, rest). Inr (acts, extra, rest @ t # us))"
proof (induction p a f v ts rule: option_actions.induct)
  case (1 p a f ts)
  then show ?case
    by (cases "takes_value a"; cases ts; cases "hd ts"; cases t) simp_all
next
  case (2 p a f sep s ts)
  show ?case
  proof (cases "takes_value a \<or> s = [] \<or> f ! 1 = CHR ''-'' \<or> sep \<or> hd s = CHR ''-''
      \<or> dget (option_table p) [CHR ''-'', hd s] = None")
    case True
    then show ?thesis by (cases s) auto
  next
    case False
    then obtain c rest a' where s: "s = c # rest" "\<not> (f ! 1 = CHR ''-'' \<or> sep \<or> c = CHR ''-'')" "\<not> takes_value a"
        and d: "dget (option_table p) [CHR ''-'', c] = Some a'" by (cases s) auto
    from "2.IH" [OF s(3,1,2) d "2.prems"] s d show ?thesis
      by (cases "option_actions p a' [CHR ''-'', c] (carried_rest rest) ts") auto
  qed
qed

lemma consume_option_append:
  assumes "is_option t" "ts \<noteq> []"
  shows "consume_option p (ts @ t # us) st = rbind (consume_option p ts st) (\<lambda>(st', rest). Inr (st', rest @ t # us))"
proof -
  obtain x xs where ts: "ts = x # xs" using assms(2) by (cases ts) auto
  show ?thesis
  proof (cases x)
    case (Opt a f v)
    show ?thesis
    proof (cases "option_actions p a f v xs")
      case (Inr r)
      obtain acts extra rest where "r = (acts, extra, rest)" by (cases r)
      with Inr Opt ts show ?thesis
        by (cases "take_actions acts (st\<lparr>leftover := leftover st @ extra\<rparr>)")
          (simp_all add: consume_option_def consume_optional_def option_actions_append [OF assms(1)])
    qed (simp add: consume_option_def consume_optional_def option_actions_append [OF assms(1)] ts Opt)
  qed (simp_all add: consume_option_def ts)
qed

lemma loop_step_append:
  assumes "is_option t" "ts \<noteq> []"
  shows "loop_step p (ts @ t # us) st =
    rbind (prefix_step p ts st) (\<lambda>(st', r). case r of None \<Rightarrow> consume_option p (t # us) st' | Some rest \<Rightarrow> Inr (st', rest @ t # us))"
proof (cases "is_option (hd ts)")
  case True
  with assms show ?thesis
    by (cases "consume_option p ts st") (auto simp: loop_step_def prefix_step_def consume_option_append)
next
  case False
  show ?thesis
  proof (cases "consume_positionals (waiting st) ts st")
    case (Inl e)
    with False assms show ?thesis by (simp add: loop_step_def prefix_step_def consume_positionals_append)
  next
    case (Inr r)
    obtain st1 ts1 where r: "r = (st1, ts1)" by (cases r)
    obtain st2 ts2 where l: "leave_strings ts1 st1 = (st2, ts2)" by force
    have c: "ts2 \<noteq> [] \<Longrightarrow> consume_option p (ts2 @ t # us) st2 =
        rbind (consume_option p ts2 st2) (\<lambda>(st', rest). Inr (st', rest @ t # us))"
      using consume_option_append [OF assms(1)] by blast
    show ?thesis
      using False assms c Inr r l
      by (cases "consume_option p ts2 st2")
        (auto simp: loop_step_def prefix_step_def consume_positionals_append leave_strings_append)
  qed
qed

lemma prefix_step_length:
  assumes "prefix_step p ts st = Inr (st', Some rest)" "ts \<noteq> []"
  shows "length rest < length ts"
proof (cases "is_option (hd ts)")
  case True
  with assms show ?thesis by (auto simp: prefix_step_def rbind_eq_Inr dest: consume_option_length)
next
  case False
  with assms(1) obtain st1 ts1 where c: "consume_positionals (waiting st) ts st = Inr (st1, ts1)"
    and r: "(if length ts1 < length ts then Inr (st1, Some ts1)
        else (case leave_strings ts1 st1 of (st2, ts2) \<Rightarrow>
          if ts2 = [] then Inr (st2, None)
          else rbind (consume_option p ts2 st2) (\<lambda>(st', ts'). Inr (st', Some ts')))) = Inr (st', Some rest)"
    by (auto simp: prefix_step_def rbind_eq_Inr)
  obtain st2 ts2 where l: "leave_strings ts1 st1 = (st2, ts2)" by force
  from consume_positionals_length [OF c] leave_strings_length [OF l] have "length ts2 \<le> length ts" by simp
  with r l show ?thesis
    by (auto simp: rbind_eq_Inr split: if_splits dest!: consume_option_length)
qed

text \<open>Two ways to write an option are the same to the parser when they are where they stand.\<close>

lemma parse_loop_option:
  assumes "is_option t" "is_option u"
    and same: "\<And>st. consume_option p (t # us) st = consume_option p (u # vs) st"
  shows "parse_loop p (ts @ t # us) st = parse_loop p (ts @ u # vs) st"
proof (induction ts arbitrary: st rule: length_induct)
  case (1 ts)
  have split: "parse_loop p (ts @ x # xs) st = rbind (loop_step p (ts @ x # xs) st) (\<lambda>(st', ts'). parse_loop p ts' st')"
    if "is_option x" for x xs using that by (subst parse_loop.simps) simp
  show ?case
  proof (cases "ts = []")
    case True
    then show ?thesis using same assms(1,2) by (simp add: split [of _ _, simplified] loop_step_def parse_loop.simps [of p "_ # _"])
  next
    case False
    show ?thesis
    proof (cases "prefix_step p ts st")
      case (Inl e)
      with assms False show ?thesis by (simp add: split loop_step_append)
    next
      case (Inr r)
      obtain st' o' where r: "r = (st', o')" by (cases r)
      show ?thesis
      proof (cases o')
        case None
        with assms False Inr r same show ?thesis by (simp add: split loop_step_append)
      next
        case (Some rest)
        with Inr r False have "length rest < length ts" using prefix_step_length by blast
        with 1 have "parse_loop p (rest @ t # us) st' = parse_loop p (rest @ u # vs) st'" by blast
        with assms False Inr r Some show ?thesis by (simp add: split loop_step_append)
      qed
    qed
  qed
qed

section \<open>Facts about command lines\<close>

definition flag_ok :: "string \<Rightarrow> bool" where
  "flag_ok f \<longleftrightarrow> 2 \<le> length f \<and> hd f = CHR ''-'' \<and> f \<noteq> ''--'' \<and> CHR ''='' \<notin> set f \<and> \<not> is_digit (f ! 1) \<and> f ! 1 \<noteq> CHR ''.''"

definition flags_ok :: "argument list \<Rightarrow> bool" where
  "flags_ok p \<longleftrightarrow> list_all (\<lambda>(f, a). flag_ok f) (option_table p)"

lemma flags_ok_dget: "flags_ok p \<Longrightarrow> dget (option_table p) f = Some a \<Longrightarrow> flag_ok f"
  by (auto simp: flags_ok_def dget_def list_all_iff dest: map_of_SomeD)

lemma split_equals_append: "CHR ''='' \<notin> set f \<Longrightarrow> split_equals (f @ CHR ''='' # v) = Some (f, v)"
  by (induction f) auto

lemma parse_optional_flag:
  "flags_ok p \<Longrightarrow> dget (option_table p) f = Some a \<Longrightarrow> parse_optional p f = Inr (Opt a f None)"
  using flags_ok_dget [of p f a] by (auto simp: parse_optional_def flag_ok_def)

lemma parse_optional_equals:
  assumes "flags_ok p" "dget (option_table p) f = Some a"
  shows "parse_optional p (f @ CHR ''='' # v) = Inr (Opt a f (Some (True, v)))"
proof -
  have f: "flag_ok f" by (rule flags_ok_dget [OF assms])
  then have "f \<noteq> []" by (auto simp: flag_ok_def)
  have "dget (option_table p) (f @ CHR ''='' # v) = None"
  proof (rule ccontr)
    assume "dget (option_table p) (f @ CHR ''='' # v) \<noteq> None"
    then obtain b where "dget (option_table p) (f @ CHR ''='' # v) = Some b" by blast
    from flags_ok_dget [OF assms(1) this] show False by (simp add: flag_ok_def)
  qed
  moreover have "hd (f @ CHR ''='' # v) = CHR ''-''" using f \<open>f \<noteq> []\<close> by (simp add: flag_ok_def)
  moreover have "split_equals (f @ CHR ''='' # v) = Some (f, v)"
    by (rule split_equals_append) (use f in \<open>simp add: flag_ok_def\<close>)
  ultimately show ?thesis using f \<open>f \<noteq> []\<close> assms(2)
    by (simp add: parse_optional_def option_before_equals_def)
qed

lemma tokens_of_append:
  "''--'' \<notin> set pre \<Longrightarrow> tokens_of p (pre @ rest) =
     rbind (rmap (parse_optional p) pre) (\<lambda>ts. rbind (tokens_of p rest) (\<lambda>us. Inr (ts @ us)))"
proof (induction pre)
  case Nil
  then show ?case by (cases "tokens_of p rest") auto
next
  case (Cons s pre)
  then show ?case
    by (cases "parse_optional p s"; cases "rmap (parse_optional p) pre"; cases "tokens_of p rest") auto
qed

text \<open>An option followed by its argument and the option with \<open>=\<close> and the argument are the same command line.\<close>

lemma parse_args_equals:
  assumes "flags_ok p" "dget (option_table p) f = Some a" "takes_value a"
    and v: "parse_optional p v = Inr (Plain v)" "v \<noteq> ''--''" and pre: "''--'' \<notin> set pre"
  shows "parse_args p (pre @ f # v # post) = parse_args p (pre @ (f @ CHR ''='' # v) # post)"
proof -
  have f: "f \<noteq> ''--''" "f @ CHR ''='' # v \<noteq> ''--''"
    using flags_ok_dget [OF assms(1,2)] by (auto simp: flag_ok_def append_eq_Cons_conv)
  have same: "consume_option p (Opt a f None # Plain v # us) st = consume_option p (Opt a f (Some (True, v)) # us) st" for us st
    using assms(3) by (simp add: consume_option_def consume_optional_def)
  show ?thesis
  proof (cases "rmap (parse_optional p) pre")
    case (Inr ts)
    show ?thesis
    proof (cases "tokens_of p post")
      case (Inr us)
      have "parse_loop p (ts @ Opt a f None # Plain v # us) st = parse_loop p (ts @ Opt a f (Some (True, v)) # us) st" for st
        by (rule parse_loop_option [OF _ _ same]) simp_all
      with Inr \<open>rmap (parse_optional p) pre = Inr ts\<close> f v(2) show ?thesis
        by (simp add: parse_args_def tokens_of_append [OF pre] parse_optional_flag [OF assms(1,2)] v(1)
            parse_optional_equals [OF assms(1,2)] parse_tokens_def)
    qed (simp add: parse_args_def tokens_of_append [OF pre] parse_optional_flag [OF assms(1,2)] v(1)
            parse_optional_equals [OF assms(1,2)] f v(2))
  qed (simp add: parse_args_def tokens_of_append [OF pre])
qed

text \<open>A command line of flags and of options with their arguments, in any order and with repetitions.\<close>

record arg_choice =
  chosen :: argument
  chosen_flag :: string
  chosen_text :: string
  chosen_value :: argval

definition choice_ok :: "argument list \<Rightarrow> arg_choice \<Rightarrow> bool" where
  "choice_ok p c \<longleftrightarrow> dget (option_table p) (chosen_flag c) = Some (chosen c) \<and> arg_flags (chosen c) \<noteq> [] \<and>
     (if takes_value (chosen c)
      then parse_optional p (chosen_text c) = Inr (Plain (chosen_text c)) \<and> chosen_text c \<noteq> ''--'' \<and>
        convert_arg (chosen c) (chosen_text c) = Inr (chosen_value c)
      else arg_action (chosen c) = StoreTrue \<and> chosen_value c = ABool True)"

definition command_line :: "arg_choice list \<Rightarrow> string list" where
  "command_line cs = concat (map (\<lambda>c. chosen_flag c # (if takes_value (chosen c) then [chosen_text c] else [])) cs)"

definition choice_tokens :: "arg_choice list \<Rightarrow> token list" where
  "choice_tokens cs =
     concat (map (\<lambda>c. Opt (chosen c) (chosen_flag c) None # (if takes_value (chosen c) then [Plain (chosen_text c)] else [])) cs)"

definition chosen_values :: "arg_choice list \<Rightarrow> namespace \<Rightarrow> namespace" where
  "chosen_values cs ns = fold (\<lambda>c d. dset d (arg_dest (chosen c)) (chosen_value c)) cs ns"

lemma tokens_of_choices:
  "flags_ok p \<Longrightarrow> list_all (choice_ok p) cs \<Longrightarrow>
     tokens_of p (command_line cs) = Inr (choice_tokens cs)"
proof (induction cs)
  case (Cons c cs)
  then have "flag_ok (chosen_flag c)" by (auto simp: choice_ok_def intro: flags_ok_dget)
  with Cons show ?case
    by (cases "takes_value (chosen c)")
      (simp_all add: command_line_def choice_tokens_def choice_ok_def parse_optional_flag, auto simp: flag_ok_def)
qed (simp add: command_line_def choice_tokens_def)

lemma parse_loop_choices:
  "list_all (choice_ok p) cs \<Longrightarrow>
     parse_loop p (choice_tokens cs) st =
       Inr (st\<lparr>parsed_values := chosen_values cs (parsed_values st), seen_arguments := rev (map chosen cs) @ seen_arguments st\<rparr>, [])"
proof (induction cs arbitrary: st)
  case Nil
  then show ?case by (simp add: parse_loop.simps chosen_values_def choice_tokens_def)
next
  case (Cons c cs)
  then show ?case
    by (subst parse_loop.simps, cases "takes_value (chosen c)")
      (simp_all add: choice_ok_def loop_step_def consume_option_def consume_optional_def take_action_def set_value_def chosen_values_def
        choice_tokens_def)
qed

lemma parse_args_choices:
  assumes "flags_ok p" "positionals_of p = []" "list_all (choice_ok p) cs"
  shows "parse_args p (command_line cs) =
    finish_parse p \<lparr>parsed_values = chosen_values cs (default_values p), seen_arguments = rev (map chosen cs), leftover = [], waiting = []\<rparr>"
  by (simp add: parse_args_def parse_tokens_def tokens_of_choices [OF assms(1,3)] parse_loop_choices [OF assms(3)] assms(2))

text \<open>The arguments that look like none of the options.\<close>

lemma plain_text: "s = [] \<or> hd s \<noteq> CHR ''-'' \<Longrightarrow> parse_optional p s = Inr (Plain s)"
  by (auto simp: parse_optional_def)

lemma plain_negative:
  assumes "flags_ok p" "ds \<noteq> []" "list_all is_digit ds"
  shows "parse_optional p (CHR ''-'' # ds) = Inr (Plain (CHR ''-'' # ds))"
proof -
  obtain d ds' where ds: "ds = d # ds'" "is_digit d" using assms(2,3) by (cases ds) auto
  have no: "\<not> (f ! 1 = d)" if "(f, a) \<in> set (option_table p)" for f a
    using assms(1) that ds(2) by (auto simp: flags_ok_def list_all_iff flag_ok_def)
  have len: "2 \<le> length f" if "(f, a) \<in> set (option_table p)" for f a
    using assms(1) that by (auto simp: flags_ok_def list_all_iff flag_ok_def)
  have "dget (option_table p) (CHR ''-'' # ds) = None"
    using no ds(1) by (fastforce simp: dget_def map_of_eq_None_iff)
  moreover have eq: "split_equals (CHR ''-'' # ds) = None"
  proof -
    have "list_all is_digit xs \<Longrightarrow> split_equals xs = None" for xs
      by (induction xs) (auto simp: is_digit_def)
    with assms(3) show ?thesis by simp
  qed
  moreover have "option_tuples p (CHR ''-'' # ds) = []"
  proof -
    have d1: "d \<noteq> CHR ''-''" using ds(2) by (auto simp: is_digit_def)
    have "f \<noteq> take 2 (CHR ''-'' # ds) \<and> \<not> starts_with (CHR ''-'' # ds) f" if "(f, a) \<in> set (option_table p)" for f a
    proof -
      have "f ! 1 \<noteq> d" by (rule no [OF that])
      moreover have "f = take 2 (CHR ''-'' # ds) \<Longrightarrow> f ! 1 = d" using ds(1) by simp
      moreover have "starts_with (CHR ''-'' # ds) f \<Longrightarrow> f ! 1 = d"
        using ds(1) len [OF that] by (cases f; cases "tl f") (auto simp: starts_with_def)
      ultimately show ?thesis by blast
    qed
    with d1 ds(1) show ?thesis
      by (auto simp: option_tuples_def map_filter_def filter_empty_conv)
  qed
  moreover have "negative_number (CHR ''-'' # ds)"
  proof -
    have "last ds \<noteq> CHR 0x0A" using assms(2,3) by (auto simp: list_all_iff is_digit_def dest!: last_in_set)
    with assms(2,3) show ?thesis by (simp add: negative_number_def drop_newline_def)
  qed
  moreover have "\<not> list_ex (\<lambda>(f, a). negative_number f) (option_table p)"
  proof -
    have "\<not> negative_number f" if "(f, a) \<in> set (option_table p)" for f a
    proof -
      have ok: "flag_ok f" using assms(1) that by (auto simp: flags_ok_def list_all_iff)
      then obtain x y zs where f: "f = x # y # zs" by (cases f; cases "tl f") (auto simp: flag_ok_def)
      with ok have y: "\<not> is_digit y" "y \<noteq> CHR ''.''" by (auto simp: flag_ok_def)
      have "drop_newline f = [x] \<or> (\<exists>ws. drop_newline f = x # y # ws)"
        using f by (cases zs rule: rev_cases) (auto simp: drop_newline_def)
      with y show ?thesis by (auto simp: negative_number_def split: list.splits)
    qed
    then show ?thesis by (auto simp: list_ex_iff)
  qed
  ultimately show ?thesis using assms(2)
    by (simp add: parse_optional_def option_before_equals_def)
qed

lemma plain_show_int: "flags_ok p \<Longrightarrow> parse_optional p (show_int i) = Inr (Plain (show_int i))"
proof (cases "i < 0")
  case True
  moreover assume "flags_ok p"
  ultimately show ?thesis using show_nat_digits [of "- i"] plain_negative [of p "show_nat (- i)"] by (simp add: show_int_def)
next
  case False
  then have "list_all is_digit (show_nat i)" "show_nat i \<noteq> []" using show_nat_digits [of i] by auto
  then have "hd (show_nat i) \<noteq> CHR ''-''" by (cases "show_nat i") (auto simp: is_digit_def)
  with False show ?thesis by (simp add: show_int_def plain_text)
qed

lemma py_int_show_int: "py_int (show_int i) = Inr i"
proof (cases "i < 0")
  case True
  define ds where "ds = show_nat (- i)"
  have d: "list_all is_digit ds" "ds \<noteq> []" using show_nat_digits [of "- i"] True by (auto simp: ds_def)
  have "\<not> is_space (last ds)" using d by (auto simp: list_all_iff digit_not_space)
  then have "strip (CHR ''-'' # ds) = CHR ''-'' # ds" using d(2)
    by (intro strip_id) (auto simp: is_space_def)
  moreover have "int_body False 0 ds = Some (- i)" using int_body_show_nat [of "- i"] True by (simp add: ds_def)
  ultimately show ?thesis using True by (simp add: py_int_def show_int_def ds_def [symmetric])
next
  case False
  then show ?thesis using py_int_show_nat [of i] by (simp add: show_int_def)
qed

lemma show_int_not_dashes: "show_int i \<noteq> ''--''"
proof
  assume "show_int i = ''--''"
  then have "py_int (show_int i) = py_int ''--''" by simp
  then show False by (simp add: py_int_show_int) (simp add: py_int_def strip_def is_space_def is_digit_def)
qed


text \<open>
  The values after such a command line: what was chosen, and the default of every other argument. The destinations
  are distinct and a default is text only where the argument is.
\<close>

definition dests_ok :: "argument list \<Rightarrow> bool" where
  "dests_ok p \<longleftrightarrow> distinct (map arg_dest p) \<and>
     list_all (\<lambda>a. arg_action a = StoreInt \<longrightarrow> (case arg_default a of AStr s \<Rightarrow> False | _ \<Rightarrow> True)) p"

lemma option_table_member: "dget (option_table p) f = Some a \<Longrightarrow> arg_action a \<noteq> ShowHelp \<Longrightarrow> a \<in> set p"
  by (auto simp: option_table_def dget_def takes_value_def help_argument_def split: if_splits dest!: map_of_SomeD)

lemma default_values_dget:
  assumes "distinct (map arg_dest p)" "a \<in> set p"
  shows "dget (default_values p) (arg_dest a) = Some (arg_default a)"
proof -
  have "dget (dupdate [] (map (\<lambda>a. (arg_dest a, arg_default a)) p)) (arg_dest a) =
      map_of (rev (map (\<lambda>a. (arg_dest a, arg_default a)) p)) (arg_dest a)"
    by (simp only: dupdate_def pd.get_put_all) (simp add: dget_def split: option.splits)
  also have "\<dots> = Some (arg_default a)"
    by (rule map_of_is_SomeI) (use assms in \<open>auto simp: rev_map comp_def distinct_map\<close>)
  finally show ?thesis by (simp add: default_values_def)
qed

lemma chosen_values_other:
  "d \<notin> (\<lambda>c. arg_dest (chosen c)) ` set cs \<Longrightarrow> dget (chosen_values cs ns) d = dget ns d"
  by (induction cs arbitrary: ns) (auto simp: chosen_values_def pd.get_put)

lemma chosen_values_chosen:
  "distinct (map (\<lambda>c. arg_dest (chosen c)) cs) \<Longrightarrow> c \<in> set cs \<Longrightarrow>
     dget (chosen_values cs ns) (arg_dest (chosen c)) = Some (chosen_value c)"
proof (induction cs arbitrary: ns)
  case (Cons c' cs)
  show ?case
  proof (cases "c = c'")
    case True
    with Cons.prems have "arg_dest (chosen c) \<notin> (\<lambda>c. arg_dest (chosen c)) ` set cs" by auto
    from chosen_values_other [OF this] True show ?thesis by (simp add: chosen_values_def pd.get_put)
  next
    case False
    with Cons show ?thesis by (auto simp: chosen_values_def)
  qed
qed simp

lemma convert_defaults_keeps:
  "(\<And>a. a \<in> set as \<Longrightarrow> a \<notin> set (seen_arguments st) \<Longrightarrow> dget (parsed_values st) (arg_dest a) = Some (arg_default a) \<and>
      (arg_action a = StoreInt \<longrightarrow> (case arg_default a of AStr s \<Rightarrow> False | _ \<Rightarrow> True))) \<Longrightarrow>
   \<exists>st'. convert_defaults as st = Inr st' \<and> (\<forall>d. dget (parsed_values st') d = dget (parsed_values st) d) \<and>
     seen_arguments st' = seen_arguments st \<and> leftover st' = leftover st"
proof (induction as arbitrary: st)
  case (Cons a as)
  show ?case
  proof (cases "a \<in> set (seen_arguments st) \<or> (\<forall>s. arg_default a \<noteq> AStr s)")
    case True
    then have "convert_defaults (a # as) st = convert_defaults as st" by (cases "arg_default a") auto
    with Cons.IH [of st] Cons.prems show ?thesis by simp
  next
    case False
    then obtain s where s: "arg_default a = AStr s" "a \<notin> set (seen_arguments st)" by blast
    from Cons.prems [of a] s have a: "dget (parsed_values st) (arg_dest a) = Some (AStr s)" "arg_action a \<noteq> StoreInt" by auto
    let ?st = "st\<lparr>parsed_values := dset (parsed_values st) (arg_dest a) (AStr s)\<rparr>"
    have same: "dget (parsed_values ?st) d = dget (parsed_values st) d" for d using a(1) by (simp add: pd.get_put)
    have "convert_defaults (a # as) st = convert_defaults as ?st" using s a(2) by (simp add: convert_arg_def)
    moreover have "\<exists>st'. convert_defaults as ?st = Inr st' \<and> (\<forall>d. dget (parsed_values st') d = dget (parsed_values ?st) d) \<and>
      seen_arguments st' = seen_arguments ?st \<and> leftover st' = leftover ?st"
      by (rule Cons.IH) (use Cons.prems same in auto)
    ultimately show ?thesis using same by auto
  qed
qed simp

lemma choice_ok_member: "choice_ok p c \<Longrightarrow> chosen c \<in> set p"
  by (cases "arg_action (chosen c)") (auto simp: choice_ok_def takes_value_def intro!: option_table_member)

lemma parse_args_complete:
  assumes "flags_ok p" "dests_ok p" "positionals_of p = []" "list_all (choice_ok p) cs"
    and d: "distinct (map (\<lambda>c. arg_dest (chosen c)) cs)"
  shows "if (\<forall>a \<in> set p. arg_required a \<longrightarrow> a \<in> chosen ` set cs)
    then \<exists>ns. parse_args p (command_line cs) = Inr ns \<and>
      (\<forall>c \<in> set cs. dget ns (arg_dest (chosen c)) = Some (chosen_value c)) \<and>
      (\<forall>a \<in> set p - chosen ` set cs. dget ns (arg_dest a) = Some (arg_default a))
    else parse_args p (command_line cs) = Inl (SystemExit 2)"
proof -
  let ?ns = "chosen_values cs (default_values p)"
  let ?st = "\<lparr>parsed_values = ?ns, seen_arguments = rev (map chosen cs), leftover = [], waiting = []\<rparr>"
  have mem: "chosen c \<in> set p" if "c \<in> set cs" for c
    using assms(4) that by (auto simp: list_all_iff intro: choice_ok_member)
  have inj: "arg_dest a = arg_dest b \<Longrightarrow> a = b" if "a \<in> set p" "b \<in> set p" for a b
    using assms(2) that by (auto simp: dests_ok_def distinct_map inj_on_def)
  have other: "dget ?ns (arg_dest a) = Some (arg_default a)" if a: "a \<in> set p" "a \<notin> chosen ` set cs" for a
  proof -
    have "arg_dest a \<notin> (\<lambda>c. arg_dest (chosen c)) ` set cs" using a mem inj by blast
    then have "dget ?ns (arg_dest a) = dget (default_values p) (arg_dest a)" by (rule chosen_values_other)
    also have "\<dots> = Some (arg_default a)" by (rule default_values_dget) (use assms(2) a(1) in \<open>auto simp: dests_ok_def\<close>)
    finally show ?thesis .
  qed
  have "\<exists>st'. convert_defaults (filter (\<lambda>a. \<not> arg_required a) p) ?st = Inr st' \<and>
      (\<forall>d. dget (parsed_values st') d = dget (parsed_values ?st) d) \<and> seen_arguments st' = seen_arguments ?st \<and>
      leftover st' = leftover ?st"
  proof (rule convert_defaults_keeps)
    fix a assume "a \<in> set (filter (\<lambda>a. \<not> arg_required a) p)" "a \<notin> set (seen_arguments ?st)"
    moreover from this have "a \<notin> chosen ` set cs" by auto
    ultimately show "dget (parsed_values ?st) (arg_dest a) = Some (arg_default a) \<and>
        (arg_action a = StoreInt \<longrightarrow> (case arg_default a of AStr s \<Rightarrow> False | _ \<Rightarrow> True))"
      using other assms(2) by (auto simp: dests_ok_def list_all_iff)
  qed
  then obtain st' where st': "convert_defaults (filter (\<lambda>a. \<not> arg_required a) p) ?st = Inr st'"
    "\<forall>d. dget (parsed_values st') d = dget ?ns d" "seen_arguments st' = rev (map chosen cs)" "leftover st' = []" by auto
  have eq: "parse_args p (command_line cs) =
      (if list_ex (\<lambda>a. arg_required a \<and> a \<notin> chosen ` set cs) p then Inl (SystemExit 2) else Inr (parsed_values st'))"
    by (simp add: parse_args_choices [OF assms(1,3,4)] finish_parse_def st')
  show ?thesis
  proof (cases "\<forall>a \<in> set p. arg_required a \<longrightarrow> a \<in> chosen ` set cs")
    case True
    then have "\<not> list_ex (\<lambda>a. arg_required a \<and> a \<notin> chosen ` set cs) p" by (auto simp: list_ex_iff)
    with eq st'(2) True show ?thesis using chosen_values_chosen [OF d] other by auto
  next
    case False
    then have "list_ex (\<lambda>a. arg_required a \<and> a \<notin> chosen ` set cs) p" by (auto simp: list_ex_iff)
    with eq False show ?thesis by auto
  qed
qed

end
