(* ===== verification/CommandLines.thy ===== *)
theory CommandLines
  imports PyArgparse SecurityMain IsmPolicies IndexCollect IndexCompare EsClient DebeziumMain DisklessTest
    ServiceExamples SearchExamples DatabaseExamples
begin

text \<open>
  The programs from their command lines: the parser each builds, and the program it runs with what the parser gives.
  What the arguments are passed to is the model of the program's \<open>main\<close> in the theory of its component. A parser
  that exits ends the program before anything else is done.
\<close>

section \<open>The parsers\<close>

definition init_argparse :: "argument list" where
  "init_argparse = [option_arg ''--config'' ''config'' StoreStr True ANone]"

definition ism_init_argparse :: "argument list" where
  "ism_init_argparse =
     [option_arg ''--config'' ''config'' StoreStr True ANone, option_arg ''--force'' ''force'' StoreTrue False (ABool False)]"

definition es_parser :: "argument list" where
  "es_parser =
     [option_arg ''--es_host'' ''es_host'' StoreStr True ANone, option_arg ''--es_user'' ''es_user'' StoreStr False ANone,
      option_arg ''--es_password'' ''es_password'' StoreStr False ANone]"

text \<open>The checks before the snapshot build the same parser again.\<close>

definition pre_snapshot_parser :: "argument list" where
  "pre_snapshot_parser =
     [option_arg ''--es_host'' ''es_host'' StoreStr True ANone, option_arg ''--es_user'' ''es_user'' StoreStr False ANone,
      option_arg ''--es_password'' ''es_password'' StoreStr False ANone]"

definition collect_parser :: "argument list" where
  "collect_parser =
     [option_arg ''--patterns'' ''patterns'' StoreStr True ANone, option_arg ''--waitsec'' ''waitsec'' StoreStr True ANone,
      option_arg ''--outfile'' ''outfile'' StoreStr True ANone, option_arg ''--es_host'' ''es_host'' StoreStr True ANone,
      option_arg ''--es_user'' ''es_user'' StoreStr False ANone, option_arg ''--es_password'' ''es_password'' StoreStr False ANone]"

definition compare_parser :: "argument list" where
  "compare_parser = [positional_arg ''file1'', positional_arg ''file2'']"

definition test_parser :: "argument list" where
  "test_parser =
     [\<lparr>arg_flags = [''-n'', ''--num-messages''], arg_dest = ''num_messages'', arg_action = StoreInt, arg_required = False,
       arg_default = AInt 500\<rparr>,
      \<lparr>arg_flags = [''-b'', ''--batch-size''], arg_dest = ''batch_size'', arg_action = StoreInt, arg_required = False,
       arg_default = AInt 100\<rparr>]"

text \<open>The defaults of the connector's options come from the environment.\<close>

definition json_arg :: "json \<Rightarrow> argval" where
  "json_arg v = (case v of JStr s \<Rightarrow> AStr s | _ \<Rightarrow> ANone)"

definition connector_parser :: "(string, string) dict \<Rightarrow> argument list" where
  "connector_parser environ =
     [option_arg ''--token'' ''token'' StoreStr False (json_arg (env_or_none environ ''AIVEN_TOKEN'')),
      option_arg ''--email'' ''email'' StoreStr False (json_arg (env_or_none environ ''AIVEN_EMAIL'')),
      option_arg ''--password'' ''password'' StoreStr False (json_arg (env_or_none environ ''AIVEN_PASSWORD'')),
      option_arg ''--project'' ''project'' StoreStr False (json_arg (env_or_none environ ''AIVEN_PROJECT'')),
      option_arg ''--url'' ''url'' StoreStr False (json_arg (env_or environ ''AIVEN_API_URL'' AIVEN_API_URL)),
      option_arg ''--pg-name'' ''pg_name'' StoreStr False (json_arg (env_or environ ''AIVEN_PG_NAME'' ''pgconnector'')),
      option_arg ''--kafka-name'' ''kafka_name'' StoreStr False (json_arg (env_or environ ''AIVEN_KAFKA_NAME'' ''kafkaconnector''))]"

definition kafka_parser :: "argument list" where
  "kafka_parser =
     [option_arg ''--service-uri'' ''service_uri'' StoreStr True ANone, option_arg ''--ca-path'' ''ca_path'' StoreStr True ANone,
      option_arg ''--key-path'' ''key_path'' StoreStr True ANone, option_arg ''--cert-path'' ''cert_path'' StoreStr True ANone,
      option_arg ''--consumer'' ''consumer'' StoreTrue False (ABool False),
      option_arg ''--producer'' ''producer'' StoreTrue False (ABool False)]"

definition ips_parser :: "argument list" where
  "ips_parser = [positional_arg ''ips'']"

definition usage_parser :: "argument list" where
  "usage_parser =
     [\<lparr>arg_flags = [''-t'', ''--time''], arg_dest = ''time'', arg_action = StoreInt, arg_required = False, arg_default = AInt 5\<rparr>,
      \<lparr>arg_flags = [''-v'', ''--velocity''], arg_dest = ''velocity'', arg_action = StoreInt, arg_required = False,
       arg_default = AInt 1\<rparr>]"

definition m3_parser :: "(string, string) dict \<Rightarrow> argument list" where
  "m3_parser environ =
     [option_arg ''--host'' ''host'' StoreStr True ANone, option_arg ''--port'' ''port'' StoreInt True ANone,
      option_arg ''--user'' ''user'' StoreStr False (AStr ''avnadmin''), option_arg ''--password'' ''password'' StoreStr True ANone,
      option_arg ''--project'' ''project'' StoreStr False (AStr (dget_or environ ''AIVEN_TEST_PROJECT'' ''test'')),
      option_arg ''--m3db'' ''m3db'' StoreStr False (AStr ''m3db-latest-business-8''),
      option_arg ''--m3aggregator'' ''m3aggregator'' StoreStr False (AStr ''m3aggregator-latest-business-8'')]"

definition elasticsearch_parser :: "argument list" where
  "elasticsearch_parser = [option_arg ''--url'' ''url'' StoreStr True ANone]"

definition opensearch_parser :: "argument list" where
  "opensearch_parser = [option_arg ''--url'' ''url'' StoreStr True ANone]"

definition redis_parser :: "argument list" where
  "redis_parser =
     [option_arg ''--host'' ''host'' StoreStr True ANone, option_arg ''--port'' ''port'' StoreInt True ANone,
      option_arg ''--password'' ''password'' StoreStr True ANone]"

definition influx_parser :: "argument list" where
  "influx_parser = [option_arg ''--url'' ''url'' StoreStr True ANone]"

definition mysql_parser :: "argument list" where
  "mysql_parser =
     [option_arg ''--host'' ''host'' StoreStr True ANone, option_arg ''--port'' ''port'' StoreInt True ANone,
      option_arg ''--password'' ''password'' StoreStr True ANone, option_arg ''--ca-file'' ''ca_file'' StoreStr False ANone,
      option_arg ''--timeout'' ''timeout'' StoreInt False (AInt 10)]"

definition postgres_parser :: "argument list" where
  "postgres_parser = [option_arg ''--service-uri'' ''service_uri'' StoreStr True ANone]"

definition cassandra_parser :: "argument list" where
  "cassandra_parser =
     [option_arg ''--host'' ''host'' StoreStr True ANone, option_arg ''--port'' ''port'' StoreInt True ANone,
      option_arg ''--username'' ''username'' StoreStr False (AStr ''avnadmin''),
      option_arg ''--password'' ''password'' StoreStr True ANone,
      option_arg ''--ca-path'' ''ca_path'' StoreStr False (AStr ''ca.pem'')]"

text \<open>All of them, for the statements about every command line.\<close>

definition program_parsers :: "(string, string) dict \<Rightarrow> argument list list" where
  "program_parsers environ =
     [init_argparse, ism_init_argparse, es_parser, pre_snapshot_parser, collect_parser, compare_parser, test_parser,
      connector_parser environ, kafka_parser, ips_parser, usage_parser, m3_parser environ, elasticsearch_parser,
      opensearch_parser, redis_parser, influx_parser, mysql_parser, postgres_parser, cassandra_parser]"

section \<open>The programs\<close>

text \<open>An attribute that is text; only an argument of the compared kinds can be something else.\<close>

definition the_text :: "namespace \<Rightarrow> string \<Rightarrow> string" where
  "the_text ns d = (case text_of ns d of Some s \<Rightarrow> s | None \<Rightarrow> [])"

text \<open>A positional that is an empty list is no path and no document.\<close>

definition text_arg :: "namespace \<Rightarrow> string \<Rightarrow> string res" where
  "text_arg ns d = (case text_of ns d of Some s \<Rightarrow> Inr s | None \<Rightarrow> Inl (TypeError ''expected str''))"

definition migrate_cli ::
  "(string set \<Rightarrow> string list) \<Rightarrow> (byte list \<Rightarrow> json res) \<Rightarrow> network \<Rightarrow> service \<Rightarrow> (string \<Rightarrow> json res) \<Rightarrow> string list \<Rightarrow>
   patch_call list \<times> ending" where
  "migrate_cli enum loads net send read_config argv =
     (case parse_args init_argparse argv of
        Inl e \<Rightarrow> ([], Uncaught e)
      | Inr args \<Rightarrow> main enum loads net send (the_text args ''config'') (read_config (the_text args ''config'')))"

definition ism_cli ::
  "network \<Rightarrow> ism_service \<Rightarrow> (string \<Rightarrow> json res) \<Rightarrow> string list \<Rightarrow> bool \<times> assignment list \<times> ism_ending" where
  "ism_cli net post read_config argv =
     (case parse_args ism_init_argparse argv of
        Inl e \<Rightarrow> (False, [], IsmUncaught e)
      | Inr args \<Rightarrow>
          ism_main net post (the_text args ''config'') (flag_of args ''force'') (read_config (the_text args ''config'')))"

definition es_client_cli :: "string list \<Rightarrow> es_client res" where
  "es_client_cli argv =
     rbind (parse_args es_parser argv) (\<lambda>args.
       create_es_client (the_text args ''es_host'') (text_of args ''es_user'') (text_of args ''es_password''))"

definition pre_snapshot_cli ::
  "(es_client \<Rightarrow> (string, json) dict res) \<Rightarrow> string list \<Rightarrow> (string \<times> json) list \<times> bool res" where
  "pre_snapshot_cli indices argv =
     (case parse_args pre_snapshot_parser argv of
        Inl e \<Rightarrow> ([], Inl e)
      | Inr args \<Rightarrow>
          pre_snapshot_main indices (the_text args ''es_host'') (text_of args ''es_user'') (text_of args ''es_password''))"

text \<open>The recording is given with the file it is written to.\<close>

definition collect_cli ::
  "(exn \<Rightarrow> string) \<Rightarrow> (es_client \<Rightarrow> cluster) \<Rightarrow> string \<Rightarrow> string list \<Rightarrow> (string \<times> json) res" where
  "collect_cli show_exn connect stamp argv =
     rbind (parse_args collect_parser argv) (\<lambda>args.
     rbind (collect_main show_exn connect stamp (the_text args ''patterns'') (the_text args ''waitsec'') (the_text args ''es_host'')
        (text_of args ''es_user'') (text_of args ''es_password'')) (\<lambda>output_data.
       Inr (the_text args ''outfile'', output_data)))"

definition compare_cli :: "(string \<Rightarrow> json res) \<Rightarrow> string list \<Rightarrow> report res" where
  "compare_cli load argv =
     rbind (parse_args compare_parser argv) (\<lambda>args.
       compare_json_files (rbind (text_arg args ''file1'') load) (rbind (text_arg args ''file2'') load))"

definition test_arguments :: "string list \<Rightarrow> test_config res" where
  "test_arguments argv =
     rbind (parse_args test_parser argv) (\<lambda>args.
       Inr \<lparr>num_messages = number_of args ''num_messages'', batch_size = number_of args ''batch_size''\<rparr>)"

definition test_cli ::
  "(string \<Rightarrow> string option res) \<Rightarrow> ('w, 'z) files_scheme \<Rightarrow> ('w, string) run \<Rightarrow> string list \<Rightarrow>
   ('w, test_config \<times> string list \<times> string) run" where
  "test_cli run fs mkdtemp argv =
     abind (aret (test_arguments argv)) (\<lambda>cfg.
     abind (prepare_test run fs mkdtemp) (\<lambda>(outs, cert_dir). aret (Inr (cfg, outs, cert_dir))))"

definition connector_cli ::
  "world \<Rightarrow> (string, string) dict \<Rightarrow> (string \<Rightarrow> string res) \<Rightarrow> (string \<Rightarrow> (string, json) dict res) \<Rightarrow> json \<Rightarrow>
   (string \<times> json) list \<Rightarrow> (string \<Rightarrow> json res) \<Rightarrow> (exn + int \<times> string option) list \<Rightarrow> string list \<Rightarrow>
   (exn option \<times> connector \<times> topic_reading option) option" where
  "connector_cli w environ prompt parse host cores loads messages argv =
     (case parse_args (connector_parser environ) argv of
        Inl e \<Rightarrow> Some (Some e, connector0, None)
      | Inr config \<Rightarrow> debezium_main w environ (text_of config) prompt parse host cores loads messages)"

definition kafka_args_of :: "namespace \<Rightarrow> kafka_args" where
  "kafka_args_of args =
     \<lparr>service_uri = the_text args ''service_uri'', ca_path = the_text args ''ca_path'', key_path = the_text args ''key_path'',
      cert_path = the_text args ''cert_path'', consumer_flag = flag_of args ''consumer'', producer_flag = flag_of args ''producer''\<rparr>"

definition kafka_cli ::
  "('w, 'z) kafka_service_scheme \<Rightarrow> (string \<Rightarrow> string res) \<Rightarrow> (string \<Rightarrow> bool) \<Rightarrow> string list \<Rightarrow> ('w, unit) run" where
  "kafka_cli api decode isfile argv =
     abind (aret (parse_args kafka_parser argv)) (\<lambda>args. kafka_main api decode isfile (kafka_args_of args))"

definition ips_cli :: "(json \<Rightarrow> string) \<Rightarrow> (string \<Rightarrow> json res) \<Rightarrow> string list \<Rightarrow> string res" where
  "ips_cli str_of loads argv =
     rbind (parse_args ips_parser argv) (\<lambda>args.
     rbind (text_arg args ''ips'') (\<lambda>s. rbind (loads s) (parse_ips str_of)))"

text \<open>The connection's settings are read from the environment, in this order.\<close>

definition usage_cli :: "(string list \<Rightarrow> 'w usage_db) \<Rightarrow> (string, string) dict \<Rightarrow> string list \<Rightarrow> ('w, unit) run" where
  "usage_cli connect environ argv =
     abind (aret (parse_args usage_parser argv)) (\<lambda>opts.
     abind (aret (rmap (ditem environ) [''PG_USER'', ''PG_PASSWORD'', ''PG_HOST'', ''PG_PORT'', ''PG_DATABASE_NAME'']))
       (\<lambda>settings. produce_usage (connect settings) (number_of opts ''time'') (number_of opts ''velocity'')))"

text \<open>\<open>consume.py\<close> counts its arguments, the folder, the topic and the group, itself.\<close>

definition consume_usage_cli :: "(string \<Rightarrow> string \<Rightarrow> string \<Rightarrow> (exn + json) list) \<Rightarrow> string list \<Rightarrow> exn option \<times> json list" where
  "consume_usage_cli messages argv =
     (case argv of
        [certs, topic, members] \<Rightarrow> consume_usage (messages certs topic members)
      | _ \<Rightarrow> (Some (SystemExit 0), []))"

definition m3_cli ::
  "(string, string) dict \<Rightarrow> (string \<Rightarrow> string \<Rightarrow> string \<Rightarrow> string \<Rightarrow> ('w, integration_reply) run) \<Rightarrow>
   (string \<Rightarrow> int \<Rightarrow> string \<Rightarrow> string \<Rightarrow> ('w, unit) run) \<Rightarrow> string list \<Rightarrow> ('w, unit) run" where
  "m3_cli environ create_service_integration write_point argv =
     abind (aret (parse_args (m3_parser environ) argv)) (\<lambda>args.
       m3_main environ (create_service_integration (the_text args ''project''))
         (write_point (the_text args ''host'') (number_of args ''port'') (the_text args ''user'') (the_text args ''password''))
         (the_text args ''m3db'') (the_text args ''m3aggregator''))"

definition elasticsearch_cli :: "(string \<Rightarrow> 'w search_client) \<Rightarrow> nat \<Rightarrow> string list \<Rightarrow> 'w \<Rightarrow> (json res \<times> 'w) option" where
  "elasticsearch_cli connect fuel argv w =
     (case parse_args elasticsearch_parser argv of
        Inl e \<Rightarrow> Some (Inl e, w)
      | Inr args \<Rightarrow> elasticsearch_main (connect (the_text args ''url'')) fuel w)"

definition opensearch_cli ::
  "(string \<Rightarrow> 'w search_client) \<Rightarrow> string \<Rightarrow> string \<Rightarrow> nat \<Rightarrow> string list \<Rightarrow> 'w \<Rightarrow> (json res \<times> 'w) option" where
  "opensearch_cli connect typed_name typed_index fuel argv w =
     (case parse_args opensearch_parser argv of
        Inl e \<Rightarrow> Some (Inl e, w)
      | Inr args \<Rightarrow> opensearch_main (connect (the_text args ''url'')) typed_name typed_index fuel w)"

definition redis_cli :: "('w, 'z) redis_client_scheme \<Rightarrow> (string \<Rightarrow> string res) \<Rightarrow> string list \<Rightarrow> ('w, string) run" where
  "redis_cli api decode argv =
     abind (aret (parse_args redis_parser argv)) (\<lambda>args.
       redis_main api decode (the_text args ''host'') (number_of args ''port'') (the_text args ''password''))"

definition influx_cli :: "('w, 'z) influx_client_scheme \<Rightarrow> (json \<Rightarrow> string res) \<Rightarrow> string list \<Rightarrow> ('w, string) run" where
  "influx_cli api dumps argv =
     abind (aret (parse_args influx_parser argv)) (\<lambda>args. influx_main api dumps (the_text args ''url''))"

definition mysql_cli :: "('w, 'z) mysql_client_scheme \<Rightarrow> string list \<Rightarrow> ('w, json) run" where
  "mysql_cli api argv =
     abind (aret (parse_args mysql_parser argv)) (\<lambda>args.
       mysql_main api (the_text args ''host'') (number_of args ''port'') (the_text args ''password'') (text_of args ''ca_file'')
         (number_of args ''timeout''))"

definition postgres_cli :: "('w, 'z) postgres_client_scheme \<Rightarrow> string list \<Rightarrow> ('w, string) run" where
  "postgres_cli api argv =
     abind (aret (parse_args postgres_parser argv)) (\<lambda>args. postgres_main api (the_text args ''service_uri''))"

definition cassandra_args_of :: "namespace \<Rightarrow> cassandra_args" where
  "cassandra_args_of args =
     \<lparr>cas_host = the_text args ''host'', cas_port = number_of args ''port'', cas_username = the_text args ''username'',
      cas_password = the_text args ''password'', cas_ca_path = the_text args ''ca_path''\<rparr>"

definition cassandra_cli ::
  "('w, 'z) cassandra_client_scheme \<Rightarrow> (string \<Rightarrow> bool) \<Rightarrow> string list \<Rightarrow> ('w, (int \<times> string) list) run" where
  "cassandra_cli api isfile argv =
     abind (aret (parse_args cassandra_parser argv)) (\<lambda>args. cassandra_main api isfile (cassandra_args_of args))"

section \<open>Usage\<close>

text \<open>
  The command lines of the programs that take options only, program by program: the spellings of an option, the attribute
  it is stored in, whether it takes text, a number or nothing, and the value without it (\<open>None\<close> when the option is required).
\<close>

type_synonym usage_option = "string list \<times> string \<times> action_kind \<times> argval option"

definition required_text :: "string \<Rightarrow> string \<Rightarrow> usage_option" where
  "required_text flag dest = ([flag], dest, StoreStr, None)"

definition optional_text :: "string \<Rightarrow> string \<Rightarrow> argval \<Rightarrow> usage_option" where
  "optional_text flag dest dflt = ([flag], dest, StoreStr, Some dflt)"

definition from_environ :: "(string, string) dict \<Rightarrow> string \<Rightarrow> argval" where
  "from_environ environ variable = (case dget environ variable of None \<Rightarrow> ANone | Some v \<Rightarrow> AStr v)"

definition environ_or :: "(string, string) dict \<Rightarrow> string \<Rightarrow> string \<Rightarrow> argval" where
  "environ_or environ variable dflt =
     (case dget environ variable of None \<Rightarrow> AStr dflt | Some v \<Rightarrow> AStr (if v = [] then dflt else v))"

definition usages :: "(string, string) dict \<Rightarrow> (string \<times> usage_option list) list" where
  "usages environ =
    [(''avn-migrate-os-security-config.py'', [required_text ''--config'' ''config'']),
     (''avn-re-apply-ism-policies.py'',
       [required_text ''--config'' ''config'', ([''--force''], ''force'', StoreTrue, Some (ABool False))]),
     (''elasticsearch_client.py'',
       [required_text ''--es_host'' ''es_host'', optional_text ''--es_user'' ''es_user'' ANone,
        optional_text ''--es_password'' ''es_password'' ANone]),
     (''pre_snapshot_checks.py'',
       [required_text ''--es_host'' ''es_host'', optional_text ''--es_user'' ''es_user'' ANone,
        optional_text ''--es_password'' ''es_password'' ANone]),
     (''get_migration_validation_data.py'',
       [required_text ''--patterns'' ''patterns'', required_text ''--waitsec'' ''waitsec'', required_text ''--outfile'' ''outfile'',
        required_text ''--es_host'' ''es_host'', optional_text ''--es_user'' ''es_user'' ANone,
        optional_text ''--es_password'' ''es_password'' ANone]),
     (''debezium-diskless/test.py'',
       [([''-n'', ''--num-messages''], ''num_messages'', StoreInt, Some (AInt 500)),
        ([''-b'', ''--batch-size''], ''batch_size'', StoreInt, Some (AInt 100))]),
     (''debezium_pg.py'',
       [optional_text ''--token'' ''token'' (from_environ environ ''AIVEN_TOKEN''),
        optional_text ''--email'' ''email'' (from_environ environ ''AIVEN_EMAIL''),
        optional_text ''--password'' ''password'' (from_environ environ ''AIVEN_PASSWORD''),
        optional_text ''--project'' ''project'' (from_environ environ ''AIVEN_PROJECT''),
        optional_text ''--url'' ''url'' (environ_or environ ''AIVEN_API_URL'' ''https://api.aiven.io''),
        optional_text ''--pg-name'' ''pg_name'' (environ_or environ ''AIVEN_PG_NAME'' ''pgconnector''),
        optional_text ''--kafka-name'' ''kafka_name'' (environ_or environ ''AIVEN_KAFKA_NAME'' ''kafkaconnector'')]),
     (''kafka/python/main.py'',
       [required_text ''--service-uri'' ''service_uri'', required_text ''--ca-path'' ''ca_path'', required_text ''--key-path'' ''key_path'',
        required_text ''--cert-path'' ''cert_path'', ([''--consumer''], ''consumer'', StoreTrue, Some (ABool False)),
        ([''--producer''], ''producer'', StoreTrue, Some (ABool False))]),
     (''pg-kafka-bigquery/produce.py'',
       [([''-t'', ''--time''], ''time'', StoreInt, Some (AInt 5)), ([''-v'', ''--velocity''], ''velocity'', StoreInt, Some (AInt 1))]),
     (''m3/python/main.py'',
       [required_text ''--host'' ''host'', ([''--port''], ''port'', StoreInt, None), optional_text ''--user'' ''user'' (AStr ''avnadmin''),
        required_text ''--password'' ''password'',
        optional_text ''--project'' ''project'' (AStr (dget_or environ ''AIVEN_TEST_PROJECT'' ''test'')),
        optional_text ''--m3db'' ''m3db'' (AStr ''m3db-latest-business-8''),
        optional_text ''--m3aggregator'' ''m3aggregator'' (AStr ''m3aggregator-latest-business-8'')]),
     (''elasticsearch/python/main.py'', [required_text ''--url'' ''url'']),
     (''opensearch/python/main.py'', [required_text ''--url'' ''url'']),
     (''redis/python/main.py'',
       [required_text ''--host'' ''host'', ([''--port''], ''port'', StoreInt, None), required_text ''--password'' ''password'']),
     (''influxdb/python/main.py'', [required_text ''--url'' ''url'']),
     (''mysql/python/main.py'',
       [required_text ''--host'' ''host'', ([''--port''], ''port'', StoreInt, None), required_text ''--password'' ''password'',
        optional_text ''--ca-file'' ''ca_file'' ANone, ([''--timeout''], ''timeout'', StoreInt, Some (AInt 10))]),
     (''postgresql/python/main.py'', [required_text ''--service-uri'' ''service_uri'']),
     (''cassandra/python/main.py'',
       [required_text ''--host'' ''host'', ([''--port''], ''port'', StoreInt, None), optional_text ''--username'' ''username'' (AStr ''avnadmin''),
        required_text ''--password'' ''password'', optional_text ''--ca-path'' ''ca_path'' (AStr ''ca.pem'')])]"






section \<open>Facts\<close>

lemmas parser_defs = init_argparse_def ism_init_argparse_def es_parser_def pre_snapshot_parser_def collect_parser_def
  compare_parser_def test_parser_def connector_parser_def kafka_parser_def ips_parser_def usage_parser_def m3_parser_def
  elasticsearch_parser_def opensearch_parser_def redis_parser_def influx_parser_def mysql_parser_def postgres_parser_def
  cassandra_parser_def option_arg_def positional_arg_def help_argument_def option_table_def

lemma program_parsers_ok: "p \<in> set (program_parsers environ) \<Longrightarrow> flags_ok p"
  by (auto simp: program_parsers_def parser_defs flags_ok_def flag_ok_def is_digit_def)








lemma usage_programs_distinct: "distinct (map fst (usages environ))"
  by (simp add: usages_def)













text \<open>The options of the test of the diskless replication, as choices of numbers.\<close>

definition number_choice :: "string \<Rightarrow> argument \<Rightarrow> int \<Rightarrow> arg_choice" where
  "number_choice f a i = \<lparr>chosen = a, chosen_flag = f, chosen_text = show_int i, chosen_value = AInt i\<rparr>"

lemma number_choice_ok:
  assumes "flags_ok p" "dget (option_table p) f = Some a" "arg_action a = StoreInt" "arg_flags a \<noteq> []"
  shows "choice_ok p (number_choice f a i)"
  using assms plain_show_int [OF assms(1)] show_int_not_dashes
  by (simp add: choice_ok_def number_choice_def takes_value_def convert_arg_def py_int_show_int)

section \<open>Properties\<close>


text \<open>C34. Every pair of integers, negative ones too, that is written on the command line in decimal reaches the test of the
  diskless replication as its number of messages and its batch size, by the long options as well as by the short ones.\<close>

theorem test_numbers_arrive:
  "test_arguments [''--num-messages'', show_int n, ''--batch-size'', show_int b] = Inr \<lparr>num_messages = n, batch_size = b\<rparr> \<and>
   test_arguments [''-b'', show_int b, ''-n'', show_int n] = Inr \<lparr>num_messages = n, batch_size = b\<rparr>"
proof -
  define an where "an = test_parser ! 0"
  define ab where "ab = test_parser ! 1"
  have p: "test_parser = [an, ab]" by (simp add: an_def ab_def test_parser_def)
  have n: "arg_flags an = [''-n'', ''--num-messages'']" "arg_dest an = ''num_messages''" "arg_action an = StoreInt" "\<not> arg_required an"
    and b: "arg_flags ab = [''-b'', ''--batch-size'']" "arg_dest ab = ''batch_size''" "arg_action ab = StoreInt" "\<not> arg_required ab"
    and dflt: "arg_default an = AInt 500" "arg_default ab = AInt 100"
    by (simp_all add: an_def ab_def test_parser_def)
  have ok: "flags_ok test_parser" "positionals_of test_parser = []"
    using program_parsers_ok [of test_parser "[]"] by (simp_all add: program_parsers_def) (simp add: p positionals_of_def n b)
  have table: "dget (option_table test_parser) ''--num-messages'' = Some an" "dget (option_table test_parser) ''--batch-size'' = Some ab"
    "dget (option_table test_parser) ''-n'' = Some an" "dget (option_table test_parser) ''-b'' = Some ab"
    by (simp_all add: option_table_def help_argument_def dget_def p n b)
  have choices: "list_all (choice_ok test_parser) [number_choice ''--num-messages'' an n, number_choice ''--batch-size'' ab b]"
    "list_all (choice_ok test_parser) [number_choice ''-b'' ab b, number_choice ''-n'' an n]"
    using number_choice_ok [OF ok(1)] table n b by simp_all
  have "parse_args test_parser (command_line [number_choice ''--num-messages'' an n, number_choice ''--batch-size'' ab b]) =
      Inr [(''num_messages'', AInt n), (''batch_size'', AInt b)]"
    "parse_args test_parser (command_line [number_choice ''-b'' ab b, number_choice ''-n'' an n]) =
      Inr [(''num_messages'', AInt n), (''batch_size'', AInt b)]"
    using parse_args_choices [OF ok choices(1)] parse_args_choices [OF ok choices(2)]
    by (simp_all add: number_choice_def finish_parse_def chosen_values_def default_values_def dupdate_def dset_def p n b dflt)
  then show ?thesis
    by (simp add: test_arguments_def command_line_def number_choice_def number_of_def dget_def takes_value_def n b)
qed

section \<open>Witnesses\<close>



end
