(* ===== verification/DisklessMain.thy ===== *)
theory DisklessMain
  imports CommandLines
begin

text \<open>
  The test of the diskless replication from its command line to its exit: what \<open>main\<close> of \<open>test.py\<close> does around the
  threads. The part between the preparation and the end, in which the threads run (\<open>DisklessProps\<close>), is a parameter here:
  whatever it does, the question is what is left of the certificates, which hold the private key, and how the test ends.
  The last sections have what the consumer does before it subscribes.
\<close>

text \<open>
  The handlers and the \<open>finally\<close> block: an interrupt and any exception end the test with status 1, and the directory is
  removed on every way out.
\<close>

definition conclude_test :: "('w, 'z) files_scheme \<Rightarrow> string \<Rightarrow> 'a res \<times> 'w \<Rightarrow> 'a res \<times> 'w" where
  "conclude_test fs cert_dir result =
     (case result of
        (Inr x, w) \<Rightarrow> (Inr x, rmtree fs cert_dir w)
      | (Inl e, w) \<Rightarrow> (Inl (if e = KeyboardInterrupt \<or> is_Exception e then SystemExit 1 else e), rmtree fs cert_dir w))"

definition test_program ::
  "(string \<Rightarrow> string option res) \<Rightarrow> ('w, 'z) files_scheme \<Rightarrow> ('w, string) run \<Rightarrow>
   (test_config \<Rightarrow> string list \<Rightarrow> string \<Rightarrow> ('w, 'a) run) \<Rightarrow> string list \<Rightarrow> ('w, 'a) run" where
  "test_program run fs mkdtemp threads_part argv =
     abind (test_cli run fs mkdtemp argv) (\<lambda>(cfg, outs, cert_dir). \<lambda>w.
       conclude_test fs cert_dir (threads_part cfg outs cert_dir w))"

section \<open>The exits of a parser\<close>

text \<open>A parser raises nothing: it ends the program with status 0 (the help) or 2 (an error).\<close>

definition exits :: "'a res \<Rightarrow> bool" where
  "exits r \<longleftrightarrow> (\<forall>e. r = Inl e \<longrightarrow> e = SystemExit 0 \<or> e = SystemExit 2)"

named_theorems exit_rules "what ends a program with the status of a parser at most"

lemma exits_simps [simp]: "exits (Inr x)" "exits (Inl (SystemExit 0))" "exits (Inl (SystemExit 2))"
  by (simp_all add: exits_def)

lemma exits_rbind [exit_rules]: "exits r \<Longrightarrow> (\<And>x. r = Inr x \<Longrightarrow> exits (f x)) \<Longrightarrow> exits (rbind r f)"
  by (auto simp: exits_def rbind_eq_Inl)

lemma exits_parse_optional [exit_rules]: "exits (parse_optional p s)"
  by (auto simp: parse_optional_def split: option.splits list.splits prod.splits)

lemma exits_tokens_of [exit_rules]: "exits (tokens_of p argv)"
  by (induction argv) (auto intro!: exit_rules)

lemma exits_take_action [exit_rules]: "exits (take_action a strings st)"
  by (auto simp: take_action_def convert_arg_def intro!: exit_rules split: list.splits sum.splits)

lemma exits_take_actions [exit_rules]: "exits (take_actions acts st)"
  by (induction acts arbitrary: st) (auto intro!: exit_rules)

lemma exits_option_actions [exit_rules]: "exits (option_actions p a f v ts)"
proof (induction p a f v ts rule: option_actions.induct)
  case (1 p a f ts)
  then show ?case by (auto split: list.splits token.splits)
next
  case (2 p a f sep s ts)
  then show ?case by (auto intro!: exit_rules split: list.splits option.splits)
qed

lemma exits_consume_option [exit_rules]: "exits (consume_option p ts st)"
  by (auto simp: consume_option_def consume_optional_def intro!: exit_rules split: list.splits token.splits)

lemma exits_consume_positionals [exit_rules]: "exits (consume_positionals as ts st)"
  by (induction as arbitrary: ts st) (auto intro!: exit_rules split: option.splits)

lemma exits_loop_step [exit_rules]: "exits (loop_step p ts st)"
  by (auto simp: loop_step_def intro!: exit_rules split: prod.splits)

lemma exits_parse_loop [exit_rules]: "exits (parse_loop p ts st)"
proof (induction p ts st rule: parse_loop.induct)
  case (1 p ts st)
  then show ?case by (subst parse_loop.simps) (auto intro!: exit_rules)
qed

lemma exits_convert_defaults [exit_rules]: "exits (convert_defaults as st)"
  by (induction as arbitrary: st) (auto simp: convert_arg_def intro!: exit_rules split: argval.splits sum.splits)

lemma exits_parse_args: "exits (parse_args p argv)"
  by (auto simp: parse_args_def parse_tokens_def finish_parse_def intro!: exit_rules split: prod.splits)

section \<open>What is left of the certificates\<close>

lemma conclude_test_cases:
  "conclude_test fs dir result = (r, w') \<Longrightarrow>
   w' = rmtree fs dir (snd result) \<and>
   (case fst result of Inr x \<Rightarrow> r = Inr x
    | Inl e \<Rightarrow> \<exists>n. r = Inl (SystemExit n) \<and> (if e = SystemExit n then True else n = 1))"
  by (cases result; cases "fst result")
    (auto simp: conclude_test_def is_Exception_def split: if_splits exn.splits)

lemma terraform_outputs_raise:
  "rmap (get_terraform_output run) names = Inl e \<Longrightarrow> e = SystemExit 1 \<or> (\<exists>name. run name = Inl e)"
  by (induction names) (auto simp: rbind_eq_Inl get_terraform_output_def split: option.splits)

lemma test_arguments_status: "test_arguments argv = Inl e \<Longrightarrow> e = SystemExit 0 \<or> e = SystemExit 2"
  using exits_parse_args [of test_parser argv] by (auto simp: test_arguments_def rbind_eq_Inl exits_def)

lemma certificates_raise:
  "create_certificate_files fs ca cert key dir w = (Inl e, w') \<Longrightarrow> \<not> is_Exception e"
  by (auto simp: create_certificate_files_def acatch_def split: prod.splits sum.splits if_splits)

text \<open>What \<open>main\<close> does once the directory is there, as a function of what became of the files.\<close>

definition after_directory ::
  "('w, 'z) files_scheme \<Rightarrow> (test_config \<Rightarrow> string list \<Rightarrow> string \<Rightarrow> ('w, 'a) run) \<Rightarrow> test_config \<Rightarrow> string list \<Rightarrow> string \<Rightarrow>
   bool res \<times> 'w \<Rightarrow> 'a res \<times> 'w" where
  "after_directory fs threads_part cfg outs dir made =
     (case made of
        (Inl e, w) \<Rightarrow> (Inl e, w)
      | (Inr False, w) \<Rightarrow> (Inl (SystemExit 1), rmtree fs dir w)
      | (Inr True, w) \<Rightarrow> conclude_test fs dir (threads_part cfg outs dir w))"

lemma test_program_run:
  "test_program run fs mkdtemp threads_part argv w =
     (case rbind (test_arguments argv) (\<lambda>cfg. rbind (rmap (get_terraform_output run) terraform_outputs) (\<lambda>outs. Inr (cfg, outs))) of
        Inl e \<Rightarrow> (Inl e, w)
      | Inr (cfg, outs) \<Rightarrow>
          (case mkdtemp w of
             (Inl e, w1) \<Rightarrow> (Inl e, w1)
           | (Inr dir, w1) \<Rightarrow> after_directory fs threads_part cfg outs dir
               (create_certificate_files fs (outs ! 4) (outs ! 5) (outs ! 6) dir w1)))"
  by (auto simp: test_program_def test_cli_def prepare_test_def abind_def aret_def rbind_def after_directory_def
      split: sum.splits prod.splits bool.splits)

text \<open>C25. However the test ends, and whatever its threads do. Either it ended before it made a directory: with a status, by
  an exception of the command that it runs, or because the directory could not be made. Or removing the directory of the
  certificates is the last thing that \<open>main\<close> does, after the threads as well as when the files could not be written, and then
  it returns as the threads do or ends with a status. The exception is an interrupt or an exit while the files are
  written: it passes without the removal, since the directory is made before the \<open>try\<close>.\<close>

theorem certificates_removed:
  assumes "test_program run fs mkdtemp threads_part argv w = (r, w')"
  shows "(\<exists>e. r = Inl e \<and> (w' = w \<and> (e \<in> {SystemExit 0, SystemExit 1, SystemExit 2} \<or> (\<exists>name. run name = Inl e)) \<or> mkdtemp w = (Inl e, w'))) \<or>
    (\<exists>outs dir w1. rmap (get_terraform_output run) terraform_outputs = Inr outs \<and> mkdtemp w = (Inr dir, w1) \<and>
      (case create_certificate_files fs (outs ! 4) (outs ! 5) (outs ! 6) dir w1 of
         (Inr True, w2) \<Rightarrow>
           (\<exists>cfg. w' = rmtree fs dir (snd (threads_part cfg outs dir w2)) \<and>
              (case fst (threads_part cfg outs dir w2) of Inr x \<Rightarrow> r = Inr x | Inl e \<Rightarrow> \<exists>n. r = Inl (SystemExit n)))
       | (Inr False, w2) \<Rightarrow> w' = rmtree fs dir w2 \<and> r = Inl (SystemExit 1)
       | (Inl e, w2) \<Rightarrow> w' = w2 \<and> r = Inl e \<and> \<not> is_Exception e))"
proof -
  let ?start = "rbind (test_arguments argv) (\<lambda>cfg. rbind (rmap (get_terraform_output run) terraform_outputs) (\<lambda>outs. Inr (cfg, outs)))"
  show ?thesis
  proof (cases ?start)
    case (Inl e)
    then have "test_arguments argv = Inl e \<or> rmap (get_terraform_output run) terraform_outputs = Inl e" by (auto simp: rbind_eq_Inl)
    moreover from Inl assms have "r = Inl e" "w' = w" by (simp_all add: test_program_run)
    ultimately show ?thesis using test_arguments_status [of argv e] terraform_outputs_raise [of run terraform_outputs e] by auto
  next
    case (Inr p)
    obtain cfg outs where p: "p = (cfg, outs)" by force
    with Inr have outs: "rmap (get_terraform_output run) terraform_outputs = Inr outs" by (auto simp: rbind_eq_Inr)
    show ?thesis
    proof (cases "\<exists>e. mkdtemp w = (Inl e, w') \<and> r = Inl e")
      case False
      with assms Inr p obtain dir w1 where dir: "mkdtemp w = (Inr dir, w1)"
        by (auto simp: test_program_run split: sum.splits prod.splits)
      obtain b w2 where made: "create_certificate_files fs (outs ! 4) (outs ! 5) (outs ! 6) dir w1 = (b, w2)" by force
      from assms Inr p dir made have run: "after_directory fs threads_part cfg outs dir (b, w2) = (r, w')" by (simp add: test_program_run)
      consider e where "b = Inl e" | "b = Inr True" | "b = Inr False" by (cases b) auto
      then show ?thesis
      proof cases
        case (1 e)
        with run certificates_raise [of fs "outs ! 4" "outs ! 5" "outs ! 6" dir w1 e w2] made outs dir show ?thesis
          by (simp add: after_directory_def)
      next
        case 2
        with run have "conclude_test fs dir (threads_part cfg outs dir w2) = (r, w')" by (simp add: after_directory_def)
        from conclude_test_cases [OF this] have
          "w' = rmtree fs dir (snd (threads_part cfg outs dir w2)) \<and>
            (case fst (threads_part cfg outs dir w2) of Inr x \<Rightarrow> r = Inr x | Inl e \<Rightarrow> \<exists>n. r = Inl (SystemExit n))"
          by (auto split: sum.splits)
        with 2 made outs dir show ?thesis by auto
      next
        case 3
        with run made outs dir show ?thesis by (simp add: after_directory_def)
      qed
    qed auto
  qed
qed

text \<open>A run whose threads are interrupted: the directory of the three files is gone, and the status is 1.\<close>

definition disk_files :: "(string list, unit) files_scheme" where
  "disk_files =
     \<lparr>save_file = (\<lambda>path _ w. (Inr (), w @ [path])), chmod = (\<lambda>_ _ w. (Inr (), w)),
      rmtree = (\<lambda>dir w. filter (\<lambda>path. take (length dir) path \<noteq> dir) w)\<rparr>"

definition interrupted_program :: "unit res \<times> string list" where
  "interrupted_program =
     test_program (\<lambda>_. Inr (Some ''x'')) disk_files (\<lambda>w. (Inr ''/tmp/kafka-certs-1'', w @ [''/tmp/kafka-certs-1'']))
       (\<lambda>_ _ _ w. (Inl KeyboardInterrupt, w @ [''/tmp/log''])) [] []"

lemma interrupted_program_run: "interrupted_program = (Inl (SystemExit 1), [''/tmp/log''])"
  by code_simp

text \<open>An interrupt before the permissions of the key are set: the three files stay, the key readable as it was written.\<close>

lemma interrupted_files_stay:
  "test_program (\<lambda>_. Inr (Some ''x'')) (disk_files\<lparr>chmod := (\<lambda>_ _ w. (Inl KeyboardInterrupt, w))\<rparr>)
     (\<lambda>w. (Inr ''/tmp/c'', w @ [''/tmp/c''])) (\<lambda>_ _ _ w. (Inr (), w)) [] [] =
   (Inl KeyboardInterrupt, [''/tmp/c'', ''/tmp/c/ca.pem'', ''/tmp/c/service.cert'', ''/tmp/c/service.key''])"
  by code_simp

lemma certificates_removed_witness:
  "\<exists>outs dir w1. rmap (get_terraform_output (\<lambda>_. Inr (Some ''x''))) terraform_outputs = Inr outs \<and>
     (Inr ''/tmp/kafka-certs-1'', [''/tmp/kafka-certs-1'']) = (Inr dir :: string res, w1) \<and>
     (case create_certificate_files disk_files (outs ! 4) (outs ! 5) (outs ! 6) dir w1 of
        (Inr True, w2) \<Rightarrow> snd interrupted_program = rmtree disk_files dir (w2 @ [''/tmp/log''])
      | _ \<Rightarrow> False)"
proof -
  have o: "rmap (get_terraform_output (\<lambda>_. Inr (Some ''x''))) terraform_outputs = Inr (replicate 7 ''x'')" by code_simp
  have c: "create_certificate_files disk_files ''x'' ''x'' ''x'' ''/tmp/kafka-certs-1'' [''/tmp/kafka-certs-1''] =
      (Inr True, [''/tmp/kafka-certs-1'', ''/tmp/kafka-certs-1/ca.pem'', ''/tmp/kafka-certs-1/service.cert'', ''/tmp/kafka-certs-1/service.key''])"
    by code_simp
  from certificates_removed [of "\<lambda>_. Inr (Some ''x'')" disk_files "\<lambda>w. (Inr ''/tmp/kafka-certs-1'', w @ [''/tmp/kafka-certs-1''])"
      "\<lambda>_ _ _ w. (Inl KeyboardInterrupt, w @ [''/tmp/log''])" "[]" "[]" "fst interrupted_program" "snd interrupted_program"] o c
  show ?thesis by (auto simp: interrupted_program_def numeral_eq_Suc interrupted_program_run [unfolded interrupted_program_def])
qed

section \<open>The consumer before it subscribes\<close>

text \<open>The consumer looks for the three files, in their order.\<close>

definition certificates_exist :: "(string \<Rightarrow> bool) \<Rightarrow> string \<Rightarrow> bool" where
  "certificates_exist present cert_dir =
     list_all present (map (certificate_path cert_dir) [''ca.pem'', ''service.cert'', ''service.key''])"

text \<open>
  The topic is ready when the metadata has it, without an error and with a partition; an exception of the client counts as
  not ready.
\<close>

record topic_metadata =
  topic_error :: "string option"
  partition_count :: nat

definition topic_ready :: "(string, topic_metadata) dict res \<Rightarrow> string \<Rightarrow> bool res" where
  "topic_ready md name =
     (case md of
        Inl e \<Rightarrow> if is_Exception e then Inr False else Inl e
      | Inr topics \<Rightarrow>
          (case dget topics name of
             None \<Rightarrow> Inr False
           | Some tmd \<Rightarrow> Inr (topic_error tmd = None \<and> 0 < partition_count tmd)))"

text \<open>
  The loop that waits, over what the client answers and what the clock reads after an answer that was not enough; the result
  is \<open>None\<close> as long as the loop goes on.
\<close>

fun await_topic :: "string \<Rightarrow> int \<Rightarrow> ((string, topic_metadata) dict res \<times> int) list \<Rightarrow> unit res option" where
  "await_topic name due [] = None"
| "await_topic name due ((md, clock) # polls) =
     (case topic_ready md name of
        Inl e \<Rightarrow> Some (Inl e)
      | Inr True \<Rightarrow> Some (Inr ())
      | Inr False \<Rightarrow>
          if due \<le> clock then Some (Inl (TimeoutError (''Topic '' @ [CHR 0x27] @ name @ [CHR 0x27] @ '' not found/ready after 180s'')))
          else await_topic name due polls)"

section \<open>The wait for the topic ends\<close>

lemma topic_ready_answers: "\<forall>e. md = Inl e \<longrightarrow> is_Exception e \<Longrightarrow> \<exists>b. topic_ready md name = Inr b"
  by (auto simp: topic_ready_def split: sum.splits option.splits)

text \<open>The steps \<open>wait_for_topic\<close> of the thread do what the loop does, on the same answers and times.\<close>

definition wait_step :: "string \<Rightarrow> (string, topic_metadata) dict res \<times> int \<Rightarrow> threads \<Rightarrow> threads" where
  "wait_step name poll s =
     (if cpc s = CWaiting then wait_for_topic (topic_ready (fst poll) name = Inr True) (snd poll) s else s)"

lemma wait_step_ended: "cpc s \<noteq> CWaiting \<Longrightarrow> fold (wait_step name) polls s = s"
  by (induction polls) (simp_all add: wait_step_def)

lemma await_topic_threads:
  assumes "cpc s = CWaiting" "\<forall>poll\<in>set polls. \<forall>e. fst poll = Inl e \<longrightarrow> is_Exception e"
  shows "cpc (fold (wait_step name) polls s) =
    (case await_topic name (deadline s) polls of None \<Rightarrow> CWaiting | Some (Inr _) \<Rightarrow> CPolling | Some (Inl _) \<Rightarrow> CFailed)"
  using assms
proof (induction polls)
  case (Cons poll polls)
  obtain md clock where poll: "poll = (md, clock)" by (cases poll)
  have "\<exists>b. topic_ready md name = Inr b"
    using Cons.prems(2) poll by (intro topic_ready_answers) simp
  then obtain b where b: "topic_ready md name = Inr b" ..
  show ?case
  proof (cases "b \<or> deadline s \<le> clock")
    case True
    then have pc: "cpc (wait_step name poll s) = (if b then CPolling else CFailed)"
      using Cons.prems(1) poll b by (auto simp: wait_step_def wait_for_topic_def)
    then have "cpc (fold (wait_step name) (poll # polls) s) = (if b then CPolling else CFailed)"
      using wait_step_ended [of "wait_step name poll s" name polls] by simp
    with True show ?thesis using poll b by (cases b) auto
  next
    case False
    then have "wait_step name poll s = s"
      using Cons.prems(1) poll b by (auto simp: wait_step_def wait_for_topic_def)
    with False Cons show ?thesis using poll b by simp
  qed
qed simp

text \<open>The first poll that ends the loop, or none.\<close>

lemma await_topic_first:
  assumes "k < length polls" "\<forall>j<k. topic_ready (fst (polls ! j)) name = Inr False \<and> snd (polls ! j) < due"
  shows "await_topic name due polls = await_topic name due (drop k polls)"
  using assms
proof (induction k arbitrary: polls)
  case (Suc k)
  then obtain md clock rest where polls: "polls = (md, clock) # rest" by (cases polls) auto
  have "topic_ready md name = Inr False" "\<not> due \<le> clock" using Suc.prems(2) [rule_format, of 0] by (simp_all add: polls)
  moreover have "await_topic name due rest = await_topic name due (drop k rest)"
  proof (rule Suc.IH)
    show "k < length rest" using Suc.prems(1) by (simp add: polls)
    show "\<forall>j<k. topic_ready (fst (rest ! j)) name = Inr False \<and> snd (rest ! j) < due"
      using Suc.prems(2) by (fastforce simp: polls)
  qed
  ultimately show ?case by (simp add: polls)
qed simp

text \<open>C39. The consumer's wait for its topic ends: every turn takes the two seconds of its sleep at least, so that one of the first 91
  answers ends the loop: the first that showed the topic with a partition and without an error, or the
  first after which the 180 seconds are over, and then the wait ends with a timeout.\<close>

theorem topic_wait_ends:
  assumes "91 \<le> length polls" "\<forall>k<length polls. started + 2 * int k \<le> snd (polls ! k)"
    and "\<forall>poll\<in>set polls. \<forall>e. fst poll = Inl e \<longrightarrow> is_Exception e"
  shows "\<exists>k\<le>90. (\<forall>j<k. topic_ready (fst (polls ! j)) name = Inr False \<and> snd (polls ! j) < started + 180) \<and>
    ((topic_ready (fst (polls ! k)) name = Inr True \<and> await_topic name (started + 180) polls = Some (Inr ())) \<or>
     (topic_ready (fst (polls ! k)) name = Inr False \<and> started + 180 \<le> snd (polls ! k) \<and>
      (\<exists>text. await_topic name (started + 180) polls = Some (Inl (TimeoutError text)))))"
proof -
  let ?on = "\<lambda>k. topic_ready (fst (polls ! k)) name = Inr False \<and> snd (polls ! k) < started + 180"
  have "\<not> ?on 90" using assms(1) assms(2) [rule_format, of 90] by auto
  then have least: "\<not> ?on (LEAST k. \<not> ?on k)" "(LEAST k. \<not> ?on k) \<le> 90"
    using LeastI [where P = "\<lambda>k. \<not> ?on k"] Least_le [where P = "\<lambda>k. \<not> ?on k"] by blast+
  define k where "k = (LEAST k. \<not> ?on k)"
  have k: "\<not> ?on k" "k \<le> 90" and before: "\<forall>j<k. ?on j"
    using least not_less_Least [where P = "\<lambda>k. \<not> ?on k"] unfolding k_def by blast+
  have "k < length polls" using k(2) assms(1) by simp
  have run: "await_topic name (started + 180) polls = await_topic name (started + 180) (polls ! k # drop (Suc k) polls)"
    using await_topic_first [OF \<open>k < length polls\<close> before] Cons_nth_drop_Suc [OF \<open>k < length polls\<close>] by simp
  obtain md clock where poll: "polls ! k = (md, clock)" by (cases "polls ! k")
  have "(md, clock) \<in> set polls" using nth_mem [OF \<open>k < length polls\<close>] poll by simp
  then have "\<forall>e. md = Inl e \<longrightarrow> is_Exception e" using assms(3) by fastforce
  from topic_ready_answers [OF this] obtain b where b: "topic_ready md name = Inr b" ..
  show ?thesis
    by (rule exI [of _ k], intro conjI k(2) before) (use k(1) run poll b in \<open>cases b; auto\<close>)
qed

text \<open>A topic that Debezium makes while the consumer waits, and one that is never made.\<close>

definition late_polls :: "((string, topic_metadata) dict res \<times> int) list" where
  "late_polls =
     map (\<lambda>k. (if k < 3 then Inl (KafkaError ''unknown topic'') else Inr [(''orders'', \<lparr>topic_error = None, partition_count = 1\<rparr>)], 2 * int k)) [0..<91]"

lemma topic_wait_ends_witness:
  "\<exists>k\<le>90. (\<forall>j<k. topic_ready (fst (late_polls ! j)) ''orders'' = Inr False \<and> snd (late_polls ! j) < 0 + 180) \<and>
    ((topic_ready (fst (late_polls ! k)) ''orders'' = Inr True \<and> await_topic ''orders'' (0 + 180) late_polls = Some (Inr ())) \<or>
     (topic_ready (fst (late_polls ! k)) ''orders'' = Inr False \<and> 0 + 180 \<le> snd (late_polls ! k) \<and>
      (\<exists>text. await_topic ''orders'' (0 + 180) late_polls = Some (Inl (TimeoutError text)))))"
  by (rule topic_wait_ends) (auto simp: late_polls_def is_Exception_def simp del: upt_Suc)

section \<open>The certificates are found\<close>

text \<open>
  On files that are there once they were written, and stay, the consumer finds the three that \<open>main\<close> made, so that it does not
  return before it has begun.
\<close>

lemma certificates_found:
  assumes wrote: "\<And>path text w w'. save_file fs path text w = (Inr (), w') \<Longrightarrow> present w' path \<and> (\<forall>q. present w q \<longrightarrow> present w' q)"
    and mode: "\<And>path m w w'. chmod fs path m w = (Inr (), w') \<Longrightarrow> (\<forall>q. present w q \<longrightarrow> present w' q)"
    and made: "test_cli run fs mkdtemp argv w = (Inr (cfg, outs, dir), w')"
  shows "certificates_exist (present w') dir"
proof -
  from made obtain w1 where "create_certificate_files fs (outs ! 4) (outs ! 5) (outs ! 6) dir w1 = (Inr True, w')"
    by (auto simp: test_cli_def prepare_test_def abind_Inr aret_def split: prod.splits if_splits)
  then obtain w2 w3 w4 where "save_file fs (certificate_path dir ''ca.pem'') (outs ! 4) w1 = (Inr (), w2)"
      "save_file fs (certificate_path dir ''service.cert'') (outs ! 5) w2 = (Inr (), w3)"
      "save_file fs (certificate_path dir ''service.key'') (outs ! 6) w3 = (Inr (), w4)"
      "chmod fs (certificate_path dir ''service.key'') 384 w4 = (Inr (), w')"
    by (auto simp: create_certificate_files_def acatch_def abind_Inr aret_def split: prod.splits sum.splits if_splits)
  from wrote [OF this(1)] wrote [OF this(2)] wrote [OF this(3)] mode [OF this(4)]
  show ?thesis by (simp add: certificates_exist_def)
qed

end
